theory Spec2Isabelle
  imports Complex_Main
begin

section \<open>JavaScript numbers\<close>

text \<open>
  Every number of the program is a JavaScript \<^verbatim>\<open>number\<close>. The model keeps the three
  kinds of value an IEEE double can be: a finite value, an infinity, or NaN. The operators
  \<open>+\<close>, \<open>-\<close>, \<open>*\<close> and \<open>/\<close> below are exact on finite values: they give the real result,
  without rounding and without overflow, and the sign of zero is not modelled (a zero
  divisor counts as \<open>+0\<close>). What they keep is where NaN and the infinities come from and
  how they propagate: \<open>0/0\<close>, \<open>\<infinity> - \<infinity>\<close>, \<open>0 * \<infinity>\<close>, comparisons with NaN (always false),
  and \<^verbatim>\<open>Math.min\<close>/\<^verbatim>\<open>Math.max\<close> (NaN when an argument is NaN). The rounding of IEEE
  arithmetic is modelled apart, by \<open>to_double\<close> and \<open>to_float32\<close> below, and applied at the
  three places of the program where it decides more than the last digit of a quantity: the
  integer that \<^verbatim>\<open>randInt\<close> returns, the test of the progress of a disintegration against
  1, and the store into a \<^verbatim>\<open>Float32Array\<close>.
\<close>

datatype jsnum = Fin real | PInf | NInf | NaN

instantiation jsnum :: "{plus, minus, times, inverse, ord}"
begin

fun plus_jsnum :: "jsnum \<Rightarrow> jsnum \<Rightarrow> jsnum" where
  "plus_jsnum NaN _ = NaN"
| "plus_jsnum _ NaN = NaN"
| "plus_jsnum PInf NInf = NaN"
| "plus_jsnum NInf PInf = NaN"
| "plus_jsnum PInf _ = PInf"
| "plus_jsnum _ PInf = PInf"
| "plus_jsnum NInf _ = NInf"
| "plus_jsnum _ NInf = NInf"
| "plus_jsnum (Fin a) (Fin b) = Fin (a + b)"

fun minus_jsnum :: "jsnum \<Rightarrow> jsnum \<Rightarrow> jsnum" where
  "minus_jsnum NaN _ = NaN"
| "minus_jsnum _ NaN = NaN"
| "minus_jsnum PInf PInf = NaN"
| "minus_jsnum NInf NInf = NaN"
| "minus_jsnum PInf _ = PInf"
| "minus_jsnum _ PInf = NInf"
| "minus_jsnum NInf _ = NInf"
| "minus_jsnum _ NInf = PInf"
| "minus_jsnum (Fin a) (Fin b) = Fin (a - b)"

fun times_jsnum :: "jsnum \<Rightarrow> jsnum \<Rightarrow> jsnum" where
  "times_jsnum NaN _ = NaN"
| "times_jsnum _ NaN = NaN"
| "times_jsnum (Fin a) (Fin b) = Fin (a * b)"
| "times_jsnum (Fin a) PInf = (if a = 0 then NaN else if 0 < a then PInf else NInf)"
| "times_jsnum (Fin a) NInf = (if a = 0 then NaN else if 0 < a then NInf else PInf)"
| "times_jsnum PInf (Fin b) = (if b = 0 then NaN else if 0 < b then PInf else NInf)"
| "times_jsnum NInf (Fin b) = (if b = 0 then NaN else if 0 < b then NInf else PInf)"
| "times_jsnum PInf PInf = PInf"
| "times_jsnum PInf NInf = NInf"
| "times_jsnum NInf PInf = NInf"
| "times_jsnum NInf NInf = PInf"

fun divide_jsnum :: "jsnum \<Rightarrow> jsnum \<Rightarrow> jsnum" where
  "divide_jsnum NaN _ = NaN"
| "divide_jsnum _ NaN = NaN"
| "divide_jsnum (Fin a) (Fin b) =
     (if b \<noteq> 0 then Fin (a / b) else if a = 0 then NaN else if 0 < a then PInf else NInf)"
| "divide_jsnum (Fin a) PInf = Fin 0"
| "divide_jsnum (Fin a) NInf = Fin 0"
| "divide_jsnum PInf (Fin b) = (if 0 \<le> b then PInf else NInf)"
| "divide_jsnum NInf (Fin b) = (if 0 \<le> b then NInf else PInf)"
| "divide_jsnum _ _ = NaN"

definition inverse_jsnum :: "jsnum \<Rightarrow> jsnum" where
  "inverse_jsnum x = divide (Fin 1) x"

fun less_jsnum :: "jsnum \<Rightarrow> jsnum \<Rightarrow> bool" where
  "less_jsnum (Fin a) (Fin b) = (a < b)"
| "less_jsnum NInf (Fin b) = True"
| "less_jsnum NInf PInf = True"
| "less_jsnum (Fin a) PInf = True"
| "less_jsnum _ _ = False"

fun less_eq_jsnum :: "jsnum \<Rightarrow> jsnum \<Rightarrow> bool" where
  "less_eq_jsnum (Fin a) (Fin b) = (a \<le> b)"
| "less_eq_jsnum NInf (Fin b) = True"
| "less_eq_jsnum NInf PInf = True"
| "less_eq_jsnum NInf NInf = True"
| "less_eq_jsnum (Fin a) PInf = True"
| "less_eq_jsnum PInf PInf = True"
| "less_eq_jsnum _ _ = False"

instance ..

end

text \<open>
  \<^verbatim>\<open>a > b\<close> and \<^verbatim>\<open>a >= b\<close> of the source are \<open>b < a\<close> and \<open>b \<le> a\<close>, which is how HOL
  reads \<open>a > b\<close> and \<open>a \<ge> b\<close>. \<open>min\<close> and \<open>max\<close> of HOL are not \<^verbatim>\<open>Math.min\<close> and
  \<^verbatim>\<open>Math.max\<close>: these return NaN as soon as one argument is NaN.
\<close>

definition Math_min :: "jsnum \<Rightarrow> jsnum \<Rightarrow> jsnum" where
  "Math_min a b = (if a = NaN \<or> b = NaN then NaN else if a < b then a else b)"

definition Math_max :: "jsnum \<Rightarrow> jsnum \<Rightarrow> jsnum" where
  "Math_max a b = (if a = NaN \<or> b = NaN then NaN else if a < b then b else a)"

fun Math_floor :: "jsnum \<Rightarrow> jsnum" where
  "Math_floor (Fin a) = Fin (of_int \<lfloor>a\<rfloor>)"
| "Math_floor x = x"

text \<open>
  \<^verbatim>\<open>Math.pow(x, y)\<close>: every call of the source passes a finite literal as exponent, so
  the exponent is a real. A negative base with an exponent that is not an integer gives NaN.
\<close>

fun Math_pow :: "jsnum \<Rightarrow> real \<Rightarrow> jsnum" where
  "Math_pow (Fin a) b =
     (if b = 0 then Fin 1
      else if 0 < a then Fin (a powr b)
      else if a = 0 then (if 0 < b then Fin 0 else PInf)
      else if b \<in> \<int> then Fin (a powi \<lfloor>b\<rfloor>)
      else NaN)"
| "Math_pow PInf b = (if b = 0 then Fin 1 else if 0 < b then PInf else Fin 0)"
| "Math_pow NInf b =
     (if b = 0 then Fin 1
      else if b < 0 then Fin 0
      else if b \<in> \<int> \<and> odd \<lfloor>b\<rfloor> then NInf else PInf)"
| "Math_pow NaN b = (if b = 0 then Fin 1 else NaN)"

fun Math_sin :: "jsnum \<Rightarrow> jsnum" where
  "Math_sin (Fin a) = Fin (sin a)"
| "Math_sin _ = NaN"

fun Math_cos :: "jsnum \<Rightarrow> jsnum" where
  "Math_cos (Fin a) = Fin (cos a)"
| "Math_cos _ = NaN"

fun Math_acos :: "jsnum \<Rightarrow> jsnum" where
  "Math_acos (Fin a) = (if - 1 \<le> a \<and> a \<le> 1 then Fin (arccos a) else NaN)"
| "Math_acos _ = NaN"

definition Math_PI :: jsnum where
  "Math_PI = Fin pi"

text \<open>The remainder \<^verbatim>\<open>a % b\<close>: it has the sign of the dividend.\<close>

definition trunc :: "real \<Rightarrow> int" where
  "trunc x = (if 0 \<le> x then \<lfloor>x\<rfloor> else \<lceil>x\<rceil>)"

fun js_rem :: "jsnum \<Rightarrow> jsnum \<Rightarrow> jsnum" where
  "js_rem (Fin a) (Fin b) = (if b = 0 then NaN else Fin (a - b * of_int (trunc (a / b))))"
| "js_rem (Fin a) PInf = Fin a"
| "js_rem (Fin a) NInf = Fin a"
| "js_rem _ _ = NaN"

fun is_finite :: "jsnum \<Rightarrow> bool" where
  "is_finite (Fin a) = True"
| "is_finite _ = False"

subsection \<open>Rounding\<close>

text \<open>
  IEEE 754 rounding to nearest, ties to even, for a binary format with \<open>p\<close> bits of
  precision whose smallest positive value is \<open>2\<^bsup>emin\<^esup>\<close> and whose values are below
  \<open>2\<^bsup>emax\<^esup>\<close> in magnitude. \<open>round_even y\<close> is the integer nearest to \<open>y\<close>, the even one of
  the two when \<open>y\<close> lies half way. \<open>quantum p emin x\<close> is the exponent of the spacing of the
  format around \<open>x\<close>: \<open>p - 1\<close> binary places below the leading bit of \<open>x\<close>, and \<open>emin\<close> in the
  subnormal range. \<open>round_nearest\<close> rounds \<open>x\<close> to the nearest multiple of that spacing, and
  \<open>to_format\<close> gives an infinity when the rounded magnitude reaches \<open>2\<^bsup>emax\<^esup>\<close>. A double
  has \<open>p = 53\<close>, \<open>emin = -1074\<close>, \<open>emax = 1024\<close>; a single-precision float has \<open>p = 24\<close>,
  \<open>emin = -149\<close>, \<open>emax = 128\<close>.
\<close>

definition round_even :: "real \<Rightarrow> int" where
  "round_even y =
     (let f = \<lfloor>y\<rfloor>; r = y - of_int f
      in if r < 1 / 2 then f else if 1 / 2 < r then f + 1 else if even f then f else f + 1)"

definition quantum :: "nat \<Rightarrow> int \<Rightarrow> real \<Rightarrow> int" where
  "quantum p emin x = max (\<lfloor>log 2 \<bar>x\<bar>\<rfloor> - int p + 1) emin"

definition round_nearest :: "nat \<Rightarrow> int \<Rightarrow> real \<Rightarrow> real" where
  "round_nearest p emin x =
     (if x = 0 then 0
      else of_int (round_even (x / 2 powi quantum p emin x)) * 2 powi quantum p emin x)"

definition to_format :: "nat \<Rightarrow> int \<Rightarrow> int \<Rightarrow> real \<Rightarrow> jsnum" where
  "to_format p emin emax x =
     (let y = round_nearest p emin x
      in if 2 powi emax \<le> \<bar>y\<bar> then (if 0 < x then PInf else NInf) else Fin y)"

fun to_double :: "jsnum \<Rightarrow> jsnum" where
  "to_double (Fin x) = to_format 53 (- 1074) 1024 x"
| "to_double v = v"

fun to_float32 :: "jsnum \<Rightarrow> jsnum" where
  "to_float32 (Fin x) = to_format 24 (- 149) 128 x"
| "to_float32 v = v"

section \<open>The random source\<close>

text \<open>
  \<^verbatim>\<open>Math.random()\<close> is a global source. The model makes it explicit: \<open>rnd\<close> is the
  sequence of values the calls return, and every function that draws takes the number \<open>k\<close>
  of draws made so far and returns the new count with its result.
\<close>

definition unit_draws :: "(nat \<Rightarrow> real) \<Rightarrow> bool" where
  "unit_draws rnd = (\<forall>k. 0 \<le> rnd k \<and> rnd k < 1)"

definition Math_random :: "(nat \<Rightarrow> real) \<Rightarrow> nat \<Rightarrow> jsnum \<times> nat" where
  "Math_random rnd k = (Fin (rnd k), Suc k)"

definition rand :: "(nat \<Rightarrow> real) \<Rightarrow> jsnum \<Rightarrow> jsnum \<Rightarrow> nat \<Rightarrow> jsnum \<times> nat" where
  "rand rnd lo hi k = (case Math_random rnd k of (u, k') \<Rightarrow> (u * (hi - lo) + lo, k'))"

text \<open>
  \<^verbatim>\<open>randInt(min, max)\<close> is \<^verbatim>\<open>Math.floor(rand(min, max + 1))\<close>. Which integer the floor
  gives can depend on the rounding of the sum in \<^verbatim>\<open>rand\<close>, so here the expression of
  \<^verbatim>\<open>rand\<close> is evaluated as the engine does it: \<open>rand_double\<close> is \<^verbatim>\<open>rand\<close> with the
  result of every operation rounded to a double.
\<close>

definition rand_double :: "(nat \<Rightarrow> real) \<Rightarrow> jsnum \<Rightarrow> jsnum \<Rightarrow> nat \<Rightarrow> jsnum \<times> nat" where
  "rand_double rnd lo hi k =
     (case Math_random rnd k of
        (u, k') \<Rightarrow> (to_double (to_double (u * to_double (hi - lo)) + lo), k'))"

definition randInt :: "(nat \<Rightarrow> real) \<Rightarrow> jsnum \<Rightarrow> jsnum \<Rightarrow> nat \<Rightarrow> jsnum \<times> nat" where
  "randInt rnd lo hi k =
     (case rand_double rnd lo (to_double (hi + Fin 1)) k of (x, k') \<Rightarrow> (Math_floor x, k'))"

section \<open>The parameter generator (galaxyUtils)\<close>

text \<open>
  A colour of the source is a \<^verbatim>\<open>THREE.Color\<close> built by \<^verbatim>\<open>setHSL(h, s, l)\<close>. The class
  belongs to the three.js library, not to this repository: the model keeps the three
  arguments of \<^verbatim>\<open>setHSL\<close>.
\<close>

record hsl =
  hue :: jsnum
  saturation :: jsnum
  lightness :: jsnum

record GalaxyParams =
  radius :: jsnum
  thickness :: jsnum
  numArms :: jsnum
  armTightness :: jsnum
  armAngularWidth :: jsnum
  coreRatio :: jsnum
  centerBrightColor :: hsl
  armBaseColor :: hsl
  armEdgeColor :: hsl
  nebulaColor :: hsl
  nebulaProbability :: jsnum
  starPointSize :: jsnum
  numStarPoints :: jsnum
  dustColor :: hsl
  dustNebulaColor :: hsl
  dustNebulaProbability :: jsnum
  dustPointSizeMultiplier :: jsnum
  dustOpacity :: jsnum
  dustThicknessMultiplier :: jsnum
  wobbleAmplitude :: jsnum
  wobbleFrequency :: jsnum
  paramBaseArmSpeed :: jsnum
  paramBaseOrbitSpeed :: jsnum

text \<open>
  \<^verbatim>\<open>generateRandomGalaxyParameters\<close>: the draws are made in the order in which the source
  evaluates them (the three locals first, then the fields of the object literal from top to
  bottom, the arguments of each \<^verbatim>\<open>setHSL\<close> from left to right). The fields
  \<^verbatim>\<open>baseArmSpeed\<close> and \<^verbatim>\<open>baseOrbitSpeed\<close> are named \<open>paramBaseArmSpeed\<close> and
  \<open>paramBaseOrbitSpeed\<close> here, the plain names being those of the instance.
\<close>

definition generateRandomGalaxyParameters :: "(nat \<Rightarrow> real) \<Rightarrow> jsnum \<Rightarrow> nat \<Rightarrow> GalaxyParams \<times> nat" where
  "generateRandomGalaxyParameters rnd universeRadius k0 =
    (let (individualGalaxyRadius, k1) =
           rand rnd (universeRadius * Fin 0.02) (universeRadius * Fin 0.08) k0;
         (armBaseHue, k2) = Math_random rnd k1;
         (nebulaShift, k3) = rand rnd (Fin 0.2) (Fin 0.4) k2;
         nebulaHue = js_rem (armBaseHue + nebulaShift) (Fin 1.0);
         (thicknessRatio, k4) = rand rnd (Fin 0.04) (Fin 0.1) k3;
         (arms, k5) = randInt rnd (Fin 2) (Fin 5) k4;
         (tightness, k6) = rand rnd (Fin 0.15) (Fin 0.8) k5;
         (angularWidth, k7) = rand rnd (Fin 0.4) (Fin 1.5) k6;
         (core, k8) = rand rnd (Fin 0.05) (Fin 0.15) k7;
         (centerH, k9) = rand rnd (Fin 0.08) (Fin 0.15) k8;
         (centerS, k10) = rand rnd (Fin 0.7) (Fin 1.0) k9;
         (centerL, k11) = rand rnd (Fin 0.85) (Fin 0.95) k10;
         (baseS, k12) = rand rnd (Fin 0.6) (Fin 0.9) k11;
         (baseL, k13) = rand rnd (Fin 0.4) (Fin 0.6) k12;
         (edgeShift, k14) = rand rnd (Fin (- 0.05)) (Fin 0.05) k13;
         (edgeS, k15) = rand rnd (Fin 0.5) (Fin 0.8) k14;
         (edgeL, k16) = rand rnd (Fin 0.5) (Fin 0.7) k15;
         (nebulaS, k17) = rand rnd (Fin 0.7) (Fin 1.0) k16;
         (nebulaL, k18) = rand rnd (Fin 0.6) (Fin 0.75) k17;
         (nebulaP, k19) = rand rnd (Fin 0.05) (Fin 0.25) k18;
         (pointSize, k20) = rand rnd (Fin 0.01) (Fin 0.03) k19;
         (starPoints, k21) = randInt rnd (Fin 4000) (Fin 12000) k20;
         (dustH, k22) = Math_random rnd k21;
         (dustS, k23) = rand rnd (Fin 0.1) (Fin 0.3) k22;
         (dustL, k24) = rand rnd (Fin 0.05) (Fin 0.15) k23;
         (dustNebulaH, k25) = Math_random rnd k24;
         (dustNebulaS, k26) = rand rnd (Fin 0.2) (Fin 0.4) k25;
         (dustNebulaL, k27) = rand rnd (Fin 0.1) (Fin 0.2) k26;
         (dustNebulaP, k28) = rand rnd (Fin 0.02) (Fin 0.1) k27;
         (dustSizeMul, k29) = rand rnd (Fin 3) (Fin 8) k28;
         (dustOp, k30) = rand rnd (Fin 0.2) (Fin 0.5) k29;
         (dustThickMul, k31) = rand rnd (Fin 1.2) (Fin 2.0) k30;
         (wobbleA, k32) = rand rnd (Fin 0.05) (Fin 0.2) k31;
         (wobbleF, k33) = rand rnd (Fin 1.5) (Fin 4.0) k32;
         (armSpeed, k34) = rand rnd (Fin (- 0.0015)) (Fin 0.0015) k33;
         (orbitSpeed, k35) = rand rnd (Fin (- 0.0008)) (Fin 0.0008) k34
     in (\<lparr> radius = individualGalaxyRadius,
            thickness = individualGalaxyRadius * thicknessRatio,
            numArms = arms,
            armTightness = tightness,
            armAngularWidth = angularWidth,
            coreRatio = core,
            centerBrightColor = \<lparr> hue = centerH, saturation = centerS, lightness = centerL \<rparr>,
            armBaseColor = \<lparr> hue = armBaseHue, saturation = baseS, lightness = baseL \<rparr>,
            armEdgeColor = \<lparr> hue = js_rem (armBaseHue + edgeShift) (Fin 1.0),
                             saturation = edgeS, lightness = edgeL \<rparr>,
            nebulaColor = \<lparr> hue = nebulaHue, saturation = nebulaS, lightness = nebulaL \<rparr>,
            nebulaProbability = nebulaP,
            starPointSize = pointSize * (individualGalaxyRadius / Fin 5),
            numStarPoints = starPoints,
            dustColor = \<lparr> hue = dustH, saturation = dustS, lightness = dustL \<rparr>,
            dustNebulaColor = \<lparr> hue = dustNebulaH, saturation = dustNebulaS, lightness = dustNebulaL \<rparr>,
            dustNebulaProbability = dustNebulaP,
            dustPointSizeMultiplier = dustSizeMul,
            dustOpacity = dustOp,
            dustThicknessMultiplier = dustThickMul,
            wobbleAmplitude = wobbleA,
            wobbleFrequency = wobbleF,
            paramBaseArmSpeed = armSpeed,
            paramBaseOrbitSpeed = orbitSpeed \<rparr>, k35))"

section \<open>The geometry builder (galaxyUtils)\<close>

subsection \<open>Objects of the scene graph\<close>

text \<open>
  \<^verbatim>\<open>THREE.Points\<close> and \<^verbatim>\<open>THREE.Group\<close> are classes of three.js, both extending
  \<^verbatim>\<open>Object3D\<close>. The model keeps the fields the program reads or writes: the identifier
  every \<^verbatim>\<open>Object3D\<close> gets from the library's counter when it is constructed, the
  position, the Euler rotation and the scale; for a point cloud the position attribute of
  its geometry, the length of its colour attribute, and the size and opacity of its
  material. A new object has position and rotation \<open>(0, 0, 0)\<close> and scale \<open>(1, 1, 1)\<close>, and
  a material made without an opacity has opacity 1: these are the library's defaults.
\<close>

record vec3 =
  vx :: jsnum
  vy :: jsnum
  vz :: jsnum

definition Vector3 :: "jsnum \<Rightarrow> jsnum \<Rightarrow> jsnum \<Rightarrow> vec3" where
  "Vector3 a b c = \<lparr> vx = a, vy = b, vz = c \<rparr>"

record Object3D =
  objectId :: nat
  position :: vec3
  rotation :: vec3
  scale :: vec3

record Points = Object3D +
  positionAttribute :: "jsnum list"
  colorAttributeLength :: nat
  materialSize :: jsnum
  materialOpacity :: jsnum

record Group = Object3D +
  children :: "nat list"

definition new_Points :: "nat \<Rightarrow> jsnum list \<Rightarrow> nat \<Rightarrow> jsnum \<Rightarrow> jsnum \<Rightarrow> Points" where
  "new_Points oid positions ncolors psize op =
     \<lparr> objectId = oid,
       position = Vector3 (Fin 0) (Fin 0) (Fin 0),
       rotation = Vector3 (Fin 0) (Fin 0) (Fin 0),
       scale = Vector3 (Fin 1) (Fin 1) (Fin 1),
       positionAttribute = positions,
       colorAttributeLength = ncolors,
       materialSize = psize,
       materialOpacity = op \<rparr>"

definition new_Group :: "nat \<Rightarrow> Group" where
  "new_Group oid =
     \<lparr> objectId = oid,
       position = Vector3 (Fin 0) (Fin 0) (Fin 0),
       rotation = Vector3 (Fin 0) (Fin 0) (Fin 0),
       scale = Vector3 (Fin 1) (Fin 1) (Fin 1),
       children = [] \<rparr>"

subsection \<open>Typed arrays\<close>

text \<open>
  \<^verbatim>\<open>new Float32Array(n)\<close>: the length is \<open>n\<close> truncated to an integer, NaN counting as 0;
  a negative or infinite length throws a \<^verbatim>\<open>RangeError\<close>. The array is filled with zeros. A
  write past the end of a typed array is ignored, which is what \<open>xs[i := v]\<close> does in HOL.
  A store converts the number to single precision: \<open>to_float32\<close>, which turns a finite
  value of too large a magnitude into an infinity. The engine's upper limit on the length
  is not modelled.
\<close>

datatype error = RangeError

fun Float32Array_new :: "jsnum \<Rightarrow> error + jsnum list" where
  "Float32Array_new (Fin a) =
     (if a \<le> - 1 then Inl RangeError else Inr (replicate (nat \<lfloor>a\<rfloor>) (Fin 0)))"
| "Float32Array_new NaN = Inr []"
| "Float32Array_new PInf = Inl RangeError"
| "Float32Array_new NInf = Inl RangeError"

definition write3 :: "jsnum list \<Rightarrow> nat \<Rightarrow> jsnum \<times> jsnum \<times> jsnum \<Rightarrow> jsnum list" where
  "write3 buf i p =
     (case p of
        (a, b, c) \<Rightarrow>
          buf[i * 3 := to_float32 a, i * 3 + 1 := to_float32 b, i * 3 + 2 := to_float32 c])"

text \<open>
  The loop \<^verbatim>\<open>for (let i = 0; i < n; i++) { ... }\<close> over the points: \<open>body\<close> computes one
  point from the draws and returns it with the new count of draws; the point is written at
  \<open>3i\<close>, \<open>3i + 1\<close>, \<open>3i + 2\<close>. With a bound that is NaN the loop does not run. An infinite
  bound does not reach the loop: the allocation before it throws.
\<close>

function for_points ::
  "(nat \<Rightarrow> (jsnum \<times> jsnum \<times> jsnum) \<times> nat) \<Rightarrow> real \<Rightarrow> nat \<Rightarrow> jsnum list \<Rightarrow> nat \<Rightarrow> jsnum list \<times> nat" where
  "for_points body n i buf k =
     (if real i < n
      then (case body k of (p, k') \<Rightarrow> for_points body n (Suc i) (write3 buf i p) k')
      else (buf, k))"
  by pat_completeness auto
termination
proof (relation "measure (\<lambda>(body, n, i, buf, k). nat \<lceil>n\<rceil> - i)", goal_cases)
  case 1
  show ?case by simp
next
  case (2 body n i buf k p k')
  then have "int i < \<lceil>n\<rceil>" by (simp add: less_ceiling_iff)
  then have "nat \<lceil>n\<rceil> - Suc i < nat \<lceil>n\<rceil> - i" by linarith
  then show ?case by simp
qed

fun for_each_point ::
  "(nat \<Rightarrow> (jsnum \<times> jsnum \<times> jsnum) \<times> nat) \<Rightarrow> jsnum \<Rightarrow> jsnum list \<Rightarrow> nat \<Rightarrow> jsnum list \<times> nat" where
  "for_each_point body (Fin n) buf k = for_points body n 0 buf k"
| "for_each_point body _ buf k = (buf, k)"

subsection \<open>One star point\<close>

text \<open>
  \<^verbatim>\<open>getArmWobble\<close>, the closure of \<^verbatim>\<open>createSingleGalaxyGroup\<close> over
  \<^verbatim>\<open>wobbleFrequency\<close> and \<^verbatim>\<open>wobbleAmplitude\<close>.
\<close>

definition getArmWobble ::
  "(nat \<Rightarrow> real) \<Rightarrow> GalaxyParams \<Rightarrow> jsnum \<Rightarrow> jsnum \<Rightarrow> jsnum \<Rightarrow> nat \<Rightarrow> jsnum \<times> nat" where
  "getArmWobble rnd params radialDist currentRadius armIdx k =
     (let normalizedRadiusForWobble = radialDist / currentRadius;
          (phase, k1) = rand rnd (Fin 0.5) (Fin 1.0) k
      in (Math_sin (normalizedRadiusForWobble * wobbleFrequency params * Math_PI * Fin 2
                    + armIdx * Math_PI * phase)
          * wobbleAmplitude params * (Fin 1.0 - normalizedRadiusForWobble * Fin 0.5), k1))"

text \<open>
  The body of the star loop, cut at the places where the source's comments cut it. First
  the draw of \<^verbatim>\<open>randomProgress\<close> and the radial distance it gives:
  \<open>(randomProgress, radialDistance)\<close>.
\<close>

definition star_radial_base ::
  "(nat \<Rightarrow> real) \<Rightarrow> GalaxyParams \<Rightarrow> nat \<Rightarrow> (jsnum \<times> jsnum) \<times> nat" where
  "star_radial_base rnd params k =
     (let (randomProgress, k1) = Math_random rnd k
      in ((randomProgress, Math_pow randomProgress 1.6 * radius params), k1))"

text \<open>The irregular edge: \<open>(radialDistance, extensionFactor)\<close>.\<close>

definition star_extension ::
  "(nat \<Rightarrow> real) \<Rightarrow> jsnum \<Rightarrow> jsnum \<Rightarrow> nat \<Rightarrow> (jsnum \<times> jsnum) \<times> nat" where
  "star_extension rnd randomProgress radialDistance k =
     (if Fin 0.7 < randomProgress
      then (let (u, k1) = Math_random rnd k;
                extensionFactor = Fin 1.0 + (u - Fin 0.4) * Fin 0.7
            in ((radialDistance * extensionFactor, extensionFactor), k1))
      else ((radialDistance, Fin 1.0), k))"

text \<open>The arm and the angle: \<open>(armChoice, angle)\<close>.\<close>

definition star_angle ::
  "(nat \<Rightarrow> real) \<Rightarrow> GalaxyParams \<Rightarrow> jsnum \<Rightarrow> nat \<Rightarrow> (jsnum \<times> jsnum) \<times> nat" where
  "star_angle rnd params radialDistance k =
     (let (u1, k1) = Math_random rnd k;
          armChoice = Math_floor (u1 * numArms params);
          baseAngleForArm = (armChoice / numArms params) * Math_PI * Fin 2;
          spiralOffset = radialDistance * armTightness params;
          (u2, k2) = Math_random rnd k1;
          angleOffsetWithinArm = (Math_pow u2 0.55 - Fin 0.5) * armAngularWidth params
      in ((armChoice, baseAngleForArm + spiralOffset + angleOffsetWithinArm), k2))"

definition normalizedRadiusForColor :: "GalaxyParams \<Rightarrow> jsnum \<Rightarrow> jsnum \<Rightarrow> jsnum" where
  "normalizedRadiusForColor params radialDistance extensionFactor =
     Math_min (Fin 1.0) (radialDistance / (radius params * Math_max (Fin 1) extensionFactor))"

text \<open>The wobble of the mid-arm region: the new angle.\<close>

definition star_wobble ::
  "(nat \<Rightarrow> real) \<Rightarrow> GalaxyParams \<Rightarrow> jsnum \<Rightarrow> jsnum \<Rightarrow> jsnum \<Rightarrow> nat \<Rightarrow> jsnum \<times> nat" where
  "star_wobble rnd params radialDistance armChoice angle k =
     (if radius params * coreRatio params * Fin 1.2 < radialDistance
         \<and> radialDistance < radius params * Fin 0.9
      then (let (w, k1) = getArmWobble rnd params radialDistance (radius params) armChoice k
            in (angle + w, k1))
      else (angle, k))"

text \<open>The core region: \<open>(angle, radialDistance)\<close>.\<close>

definition star_core ::
  "(nat \<Rightarrow> real) \<Rightarrow> GalaxyParams \<Rightarrow> jsnum \<Rightarrow> jsnum \<Rightarrow> nat \<Rightarrow> (jsnum \<times> jsnum) \<times> nat" where
  "star_core rnd params radialDistance angle k =
     (if radialDistance < radius params * coreRatio params
      then (let (u1, k1) = Math_random rnd k;
                angle' = u1 * Math_PI * Fin 2;
                (u2, k2) = Math_random rnd k1
            in if u2 < Fin 0.7
               then (let (u3, k3) = Math_random rnd k2
                     in ((angle', radialDistance * (Math_pow u3 1.8 * Fin 0.85)), k3))
               else ((angle', radialDistance), k2))
      else ((angle, radialDistance), k))"

text \<open>The height \<open>y\<close>.\<close>

definition star_height :: "(nat \<Rightarrow> real) \<Rightarrow> GalaxyParams \<Rightarrow> jsnum \<Rightarrow> nat \<Rightarrow> jsnum \<times> nat" where
  "star_height rnd params radialDistance k =
     (let (u1, k1) = Math_random rnd k;
          (u2, k2) = Math_random rnd k1;
          yRand = (u1 - Fin 0.5) * (u2 - Fin 0.5) * Fin 3.8;
          normalizedRadiusForThickness = Math_min (Fin 1.0) (radialDistance / (radius params * Fin 1.25));
          thicknessFactor = Math_pow (Fin 1.0 - normalizedRadiusForThickness * Fin 0.9) 1.3;
          y = yRand * thickness params * thicknessFactor
      in (if Fin 0.7 < normalizedRadiusForThickness
          then y * Math_max (Fin 0)
                 ((Fin 1.0 - (normalizedRadiusForThickness - Fin 0.7) / Fin 0.3) * Fin 0.3 + Fin 0.7)
          else y, k2))"

text \<open>
  The colour of a star is computed with \<^verbatim>\<open>THREE.Color\<close>; the model keeps the number of
  draws the computation makes, so that the next point starts at the right draw: one for the
  brightness, none in the two core branches, and otherwise one for the test against
  \<^verbatim>\<open>nebulaProbability\<close> and three for \<^verbatim>\<open>offsetHSL\<close>, in the nebula branch and in the arm
  branch alike.
\<close>

definition star_colour_draws :: "GalaxyParams \<Rightarrow> jsnum \<Rightarrow> nat" where
  "star_colour_draws params nrc =
     1 + (if nrc < coreRatio params * Fin 0.7 then 0
          else if nrc < coreRatio params * Fin 1.3 then 0
          else 1 + 3)"

definition star_point ::
  "(nat \<Rightarrow> real) \<Rightarrow> GalaxyParams \<Rightarrow> nat \<Rightarrow> (jsnum \<times> jsnum \<times> jsnum) \<times> nat" where
  "star_point rnd params k =
     (let ((randomProgress, radialDistanceBase), k0) = star_radial_base rnd params k;
          ((radialDistance0, extensionFactor), k1) =
             star_extension rnd randomProgress radialDistanceBase k0;
          ((armChoice, angle0), k2) = star_angle rnd params radialDistance0 k1;
          nrc = normalizedRadiusForColor params radialDistance0 extensionFactor;
          (angle1, k3) = star_wobble rnd params radialDistance0 armChoice angle0 k2;
          ((angle, radialDistance), k4) = star_core rnd params radialDistance0 angle1 k3;
          x = radialDistance * Math_cos angle;
          z = radialDistance * Math_sin angle;
          (y, k5) = star_height rnd params radialDistance k4
      in ((x, y, z), k5 + star_colour_draws params nrc))"

subsection \<open>One dust point\<close>

definition dust_radial_base ::
  "(nat \<Rightarrow> real) \<Rightarrow> GalaxyParams \<Rightarrow> nat \<Rightarrow> (jsnum \<times> jsnum) \<times> nat" where
  "dust_radial_base rnd params k =
     (let (randomProgress, k1) = Math_random rnd k
      in ((randomProgress,
           Math_pow randomProgress 1.3 * radius params * Fin 0.95 + (radius params * Fin 0.05)), k1))"

definition dust_extension ::
  "(nat \<Rightarrow> real) \<Rightarrow> jsnum \<Rightarrow> jsnum \<Rightarrow> nat \<Rightarrow> (jsnum \<times> jsnum) \<times> nat" where
  "dust_extension rnd randomProgress radialDistance k =
     (if Fin 0.65 < randomProgress
      then (let (u, k1) = Math_random rnd k;
                extensionFactor = Fin 1.0 + (u - Fin 0.35) * Fin 0.6
            in ((radialDistance * extensionFactor, extensionFactor), k1))
      else ((radialDistance, Fin 1.0), k))"

definition dust_angle ::
  "(nat \<Rightarrow> real) \<Rightarrow> GalaxyParams \<Rightarrow> jsnum \<Rightarrow> nat \<Rightarrow> (jsnum \<times> jsnum) \<times> nat" where
  "dust_angle rnd params radialDistance k =
     (let (u1, k1) = Math_random rnd k;
          armChoice = Math_floor (u1 * numArms params);
          baseAngleForArm = (armChoice / numArms params) * Math_PI * Fin 2;
          (u2, k2) = Math_random rnd k1;
          spiralOffset = radialDistance * (armTightness params * (Fin 0.9 + u2 * Fin 0.2)) - Fin 0.05;
          (u3, k3) = Math_random rnd k2;
          angleOffsetWithinArm = (u3 - Fin 0.5) * armAngularWidth params * Fin 0.7
      in ((armChoice, baseAngleForArm + spiralOffset + angleOffsetWithinArm), k3))"

definition dust_wobble ::
  "(nat \<Rightarrow> real) \<Rightarrow> GalaxyParams \<Rightarrow> jsnum \<Rightarrow> jsnum \<Rightarrow> jsnum \<Rightarrow> nat \<Rightarrow> jsnum \<times> nat" where
  "dust_wobble rnd params radialDistance armChoice angle k =
     (if radius params * coreRatio params * Fin 1.5 < radialDistance
         \<and> radialDistance < radius params * Fin 0.85
      then (let (w, k1) = getArmWobble rnd params radialDistance (radius params) armChoice k
            in (angle + w * Fin 0.8, k1))
      else (angle, k))"

definition dust_core ::
  "(nat \<Rightarrow> real) \<Rightarrow> GalaxyParams \<Rightarrow> jsnum \<Rightarrow> jsnum \<Rightarrow> nat \<Rightarrow> (jsnum \<times> jsnum) \<times> nat" where
  "dust_core rnd params radialDistance angle k =
     (if radialDistance < radius params * coreRatio params * Fin 1.8
      then (let (u1, k1) = Math_random rnd k;
                (u2, k2) = Math_random rnd k1
            in if u1 < Fin 0.5
               then ((angle, radialDistance * (Fin 1.0 + u2 * Fin 0.4)), k2)
               else ((angle + (u2 - Fin 0.5) * Fin 0.2, radialDistance), k2))
      else ((angle, radialDistance), k))"

definition dust_height :: "(nat \<Rightarrow> real) \<Rightarrow> GalaxyParams \<Rightarrow> jsnum \<Rightarrow> nat \<Rightarrow> jsnum \<times> nat" where
  "dust_height rnd params radialDistance k =
     (let (u1, k1) = Math_random rnd k;
          (u2, k2) = Math_random rnd k1;
          yRand = (u1 - Fin 0.5) * (u2 - Fin 0.5) * Fin 3.0;
          normalizedRadiusForThickness = Math_min (Fin 1.0) (radialDistance / (radius params * Fin 1.25));
          thicknessFactor = Math_pow (Fin 1.0 - normalizedRadiusForThickness * Fin 0.85) 1.2;
          y = yRand * thickness params * thicknessFactor * dustThicknessMultiplier params * Fin 0.7
      in (if Fin 0.8 < normalizedRadiusForThickness
          then y * Math_max (Fin 0.05)
                 ((Fin 1.0 - (normalizedRadiusForThickness - Fin 0.8) / Fin 0.2) * Fin 0.4 + Fin 0.6)
          else y, k2))"

text \<open>
  The colour of a dust point takes four draws: the brightness, the test against
  \<^verbatim>\<open>dustNebulaProbability\<close>, and the two random arguments of \<^verbatim>\<open>offsetHSL\<close>.
\<close>

definition dust_colour_draws :: nat where
  "dust_colour_draws = 1 + 1 + 2"

definition dust_point ::
  "(nat \<Rightarrow> real) \<Rightarrow> GalaxyParams \<Rightarrow> nat \<Rightarrow> (jsnum \<times> jsnum \<times> jsnum) \<times> nat" where
  "dust_point rnd params k =
     (let ((randomProgress, radialDistanceBase), k0) = dust_radial_base rnd params k;
          ((radialDistance0, extensionFactor), k1) =
             dust_extension rnd randomProgress radialDistanceBase k0;
          ((armChoice, angle0), k2) = dust_angle rnd params radialDistance0 k1;
          (angle1, k3) = dust_wobble rnd params radialDistance0 armChoice angle0 k2;
          ((angle, radialDistance), k4) = dust_core rnd params radialDistance0 angle1 k3;
          x = radialDistance * Math_cos angle;
          z = radialDistance * Math_sin angle;
          (y, k5) = dust_height rnd params radialDistance k4
      in ((x, y, z), k5 + dust_colour_draws))"

subsection \<open>The builder\<close>

text \<open>
  \<^verbatim>\<open>createSingleGalaxyGroup\<close>. Besides the draws it threads the library's counter of
  object identifiers: the star cloud is constructed after its loop, the dust cloud after
  its own. The result is the returned object
  \<open>(starSystem, dustSystem, originalStarMaterialOpacity, originalDustMaterialOpacity)\<close>,
  with the count of draws and the counter.
\<close>

definition createSingleGalaxyGroup ::
  "(nat \<Rightarrow> real) \<Rightarrow> GalaxyParams \<Rightarrow> nat \<Rightarrow> nat
     \<Rightarrow> error + ((Points \<times> Points option \<times> jsnum \<times> jsnum option) \<times> nat \<times> nat)" where
  "createSingleGalaxyGroup rnd params k0 oid =
     (let (divisor, k1) = rand rnd (Fin 3) (Fin 6) k0;
          numDustPoints = Math_floor (numStarPoints params / divisor)
      in case Float32Array_new (numStarPoints params * Fin 3) of
           Inl e \<Rightarrow> Inl e
         | Inr starPositions0 \<Rightarrow>
          (case Float32Array_new (numStarPoints params * Fin 3) of
             Inl e \<Rightarrow> Inl e
           | Inr starColors \<Rightarrow>
              (let (starPositions, k2) =
                     for_each_point (star_point rnd params) (numStarPoints params) starPositions0 k1;
                   starSystem = new_Points oid starPositions (length starColors)
                                  (starPointSize params) (Fin 1)
               in if Fin 0 < numDustPoints
                  then (case Float32Array_new (numDustPoints * Fin 3) of
                          Inl e \<Rightarrow> Inl e
                        | Inr dustPositions0 \<Rightarrow>
                           (case Float32Array_new (numDustPoints * Fin 3) of
                              Inl e \<Rightarrow> Inl e
                            | Inr dustColorsArray \<Rightarrow>
                               (let (dustPositions, k3) =
                                      for_each_point (dust_point rnd params) numDustPoints dustPositions0 k2;
                                    dustSystem = new_Points (Suc oid) dustPositions (length dustColorsArray)
                                                   (starPointSize params * dustPointSizeMultiplier params)
                                                   (dustOpacity params)
                                in Inr ((starSystem, Some dustSystem, materialOpacity starSystem,
                                         Some (materialOpacity dustSystem)), k3, Suc (Suc oid)))))
                  else Inr ((starSystem, None, materialOpacity starSystem, None), k2, Suc oid))))"

section \<open>The scene (ThreeScene)\<close>

subsection \<open>Instances and the state of the component\<close>

record GalaxyInstance =
  group :: Group
  baseOrbitSpeed :: jsnum
  baseArmSpeed :: jsnum
  starSystem :: Points
  dustSystem :: "Points option"
  disintegrationTriggerTime :: "jsnum option"
  disintegrationDelay :: jsnum
  isDisintegrating :: bool
  disintegrationAnimationStartTime :: "jsnum option"
  disintegrationDuration :: jsnum
  disintegrationTargetCamPos :: "vec3 option"
  disintegrationInitialGroupPos :: "vec3 option"
  disintegrationRandomScaleFactor :: jsnum
  originalStarMaterialOpacity :: jsnum
  originalDustMaterialOpacity :: "jsnum option"

text \<open>
  The state the effects and the frame loop share is held in React refs. \<open>sceneRef\<close> is the
  list of the identifiers of the scene's children, or \<open>None\<close> while \<^verbatim>\<open>sceneRef.current\<close>
  is null; \<open>cameraRef\<close> is the position of the camera, or \<open>None\<close> while there is no
  camera. \<open>disposed\<close> records the calls of \<^verbatim>\<open>dispose()\<close>: the identifier of every point
  cloud whose geometry and material were disposed, in the order of the calls.
  \<open>nextObjectId\<close> is the library's counter of object identifiers.
\<close>

record World =
  sceneRef :: "nat list option"
  cameraRef :: "vec3 option"
  galaxyInstancesRef :: "GalaxyInstance list"
  galaxyOrbitSpeedMultiplierRefCurrent :: jsnum
  armInternalSpeedMultiplierRefCurrent :: jsnum
  disposed :: "nat list"
  nextObjectId :: nat

text \<open>
  \<^verbatim>\<open>scene.remove(object)\<close> takes the object out of the children when it is one of them;
  \<^verbatim>\<open>scene.add(object)\<close> takes it out of its present parent and appends it.
\<close>

definition scene_remove :: "nat \<Rightarrow> World \<Rightarrow> World" where
  "scene_remove oid w = w\<lparr> sceneRef := map_option (remove1 oid) (sceneRef w) \<rparr>"

definition scene_add :: "nat \<Rightarrow> World \<Rightarrow> World" where
  "scene_add oid w = w\<lparr> sceneRef := map_option (\<lambda>cs. remove1 oid cs @ [oid]) (sceneRef w) \<rparr>"

definition disposePoints :: "Points option \<Rightarrow> World \<Rightarrow> World" where
  "disposePoints pointsObject w =
     (case pointsObject of
        None \<Rightarrow> w
      | Some pts \<Rightarrow> scene_remove (objectId pts) (w\<lparr> disposed := disposed w @ [objectId pts] \<rparr>))"

text \<open>
  The three statements that release an instance: they stand in the frame loop, in the
  regeneration effect and in the unmount clean-up.
\<close>

definition release_instance :: "GalaxyInstance \<Rightarrow> World \<Rightarrow> World" where
  "release_instance inst w =
     (let w1 = disposePoints (Some (starSystem inst)) w;
          w2 = (case dustSystem inst of Some dust \<Rightarrow> disposePoints (Some dust) w1 | None \<Rightarrow> w1)
      in scene_remove (objectId (group inst)) w2)"

subsection \<open>The frame loop\<close>

definition add_rotation_y :: "jsnum \<Rightarrow> 'a Object3D_scheme \<Rightarrow> 'a Object3D_scheme" where
  "add_rotation_y d obj = obj\<lparr> rotation := (rotation obj)\<lparr> vy := vy (rotation obj) + d \<rparr> \<rparr>"

text \<open>The rotation of the group, of the star cloud and of the dust cloud.\<close>

definition rotate_instance ::
  "(nat \<Rightarrow> real) \<Rightarrow> World \<Rightarrow> GalaxyInstance \<Rightarrow> nat \<Rightarrow> GalaxyInstance \<times> nat" where
  "rotate_instance rnd w inst k =
     (let inst1 = inst\<lparr> group := add_rotation_y
                     (baseOrbitSpeed inst * galaxyOrbitSpeedMultiplierRefCurrent w * Fin 100) (group inst) \<rparr>;
          inst2 = inst1\<lparr> starSystem := add_rotation_y
                     (baseArmSpeed inst1 * armInternalSpeedMultiplierRefCurrent w * Fin 100) (starSystem inst1) \<rparr>
      in case dustSystem inst2 of
           None \<Rightarrow> (inst2, k)
         | Some dust \<Rightarrow>
            (let (jitter, k1) = rand rnd (Fin 0.9) (Fin 1.1) k
             in (inst2\<lparr> dustSystem := Some (add_rotation_y
                   (baseArmSpeed inst2 * armInternalSpeedMultiplierRefCurrent w * Fin 100 * jitter) dust) \<rparr>,
                 k1)))"

text \<open>
  The start of the disintegration, for an instance that has a trigger time and is not
  disintegrating yet.
\<close>

definition start_disintegration ::
  "(nat \<Rightarrow> real) \<Rightarrow> jsnum \<Rightarrow> World \<Rightarrow> GalaxyInstance \<Rightarrow> nat \<Rightarrow> GalaxyInstance \<times> nat" where
  "start_disintegration rnd now w inst k =
     (case disintegrationTriggerTime inst of
        None \<Rightarrow> (inst, k)
      | Some triggerTime \<Rightarrow>
         if \<not> isDisintegrating inst \<and> triggerTime + disintegrationDelay inst \<le> now
         then (let target = (case cameraRef w of
                               Some cameraPosition \<Rightarrow> cameraPosition
                             | None \<Rightarrow> Vector3 (Fin 0) (Fin 0) (vz (position (group inst)) + Fin 50));
                   (duration, k1) = rand rnd (Fin 2.0) (Fin 4.5) k;
                   (factor, k2) = rand rnd (Fin 2.5) (Fin 7.0) k1;
                   inst1 = inst\<lparr> isDisintegrating := True,
                                 disintegrationAnimationStartTime := Some now,
                                 disintegrationTargetCamPos := Some target,
                                 disintegrationInitialGroupPos := Some (position (group inst)),
                                 disintegrationDuration := duration,
                                 disintegrationRandomScaleFactor := factor,
                                 starSystem := (starSystem inst)
                                   \<lparr> scale := Vector3 (Fin 1) (Fin 1) (Fin 1),
                                     materialOpacity := originalStarMaterialOpacity inst \<rparr> \<rparr>
               in (case dustSystem inst1 of
                     None \<Rightarrow> inst1
                   | Some dust \<Rightarrow>
                      (case originalDustMaterialOpacity inst1 of
                         None \<Rightarrow> inst1
                       | Some dustOp \<Rightarrow>
                          inst1\<lparr> dustSystem := Some (dust
                                   \<lparr> scale := Vector3 (Fin 1) (Fin 1) (Fin 1),
                                     materialOpacity := dustOp \<rparr>) \<rparr>), k2))
         else (inst, k))"

text \<open>
  \<^verbatim>\<open>Vector3.lerpVectors(v1, v2, alpha)\<close> of three.js sets each component to
  \<open>v1 + (v2 - v1) * alpha\<close>. \<open>faded_opacity\<close> is the expression the source writes twice, for
  the opacity of the star material and of the dust material.
\<close>

definition lerpVectors :: "vec3 \<Rightarrow> vec3 \<Rightarrow> jsnum \<Rightarrow> vec3" where
  "lerpVectors v1 v2 alpha =
     Vector3 (vx v1 + (vx v2 - vx v1) * alpha)
             (vy v1 + (vy v2 - vy v1) * alpha)
             (vz v1 + (vz v2 - vz v1) * alpha)"

definition faded_opacity :: "jsnum \<Rightarrow> jsnum \<Rightarrow> jsnum" where
  "faded_opacity original progress = original * (Fin 1 - progress * progress)"

text \<open>
  The progress \<^verbatim>\<open>Math.min(1, elapsedTime / duration)\<close> with
  \<^verbatim>\<open>elapsedTime = (now - startTime) / 1000\<close>. The frame loop tests it against 1, and
  whether the quotient reaches 1 can depend on its rounding: the subtraction and the two
  divisions are rounded to a double.
\<close>

definition disintegration_progress :: "jsnum \<Rightarrow> jsnum \<Rightarrow> jsnum \<Rightarrow> jsnum" where
  "disintegration_progress now startTime duration =
     (let elapsedTime = to_double (to_double (now - startTime) / Fin 1000)
      in Math_min (Fin 1) (to_double (elapsedTime / duration)))"

text \<open>
  One step of the disintegration: the instance, whether it is kept
  (\<^verbatim>\<open>shouldKeepInstance\<close>), and the state.
\<close>

definition disintegrate ::
  "jsnum \<Rightarrow> World \<Rightarrow> GalaxyInstance \<Rightarrow> GalaxyInstance \<times> bool \<times> World" where
  "disintegrate now w inst =
     (case disintegrationAnimationStartTime inst of
        None \<Rightarrow> (inst, True, w)
      | Some startTime \<Rightarrow>
         if isDisintegrating inst
         then (let progress = disintegration_progress now startTime (disintegrationDuration inst)
               in if Fin 1 \<le> progress
                  then (inst, False, release_instance inst w)
                  else (let inst1 =
                              (case disintegrationInitialGroupPos inst of
                                 None \<Rightarrow> inst
                               | Some initialPos \<Rightarrow>
                                  (case disintegrationTargetCamPos inst of
                                     None \<Rightarrow> inst
                                   | Some targetPos \<Rightarrow>
                                      inst\<lparr> group := (group inst)
                                              \<lparr> position := lerpVectors initialPos targetPos progress \<rparr> \<rparr>));
                            scaleProgress = Fin 1 + progress * disintegrationRandomScaleFactor inst1;
                            inst2 = inst1\<lparr> starSystem := (starSystem inst1)
                                      \<lparr> scale := Vector3 scaleProgress scaleProgress scaleProgress \<rparr> \<rparr>;
                            inst3 = (case dustSystem inst2 of
                                       None \<Rightarrow> inst2
                                     | Some dust \<Rightarrow>
                                        inst2\<lparr> dustSystem := Some (dust
                                                \<lparr> scale := Vector3 scaleProgress scaleProgress scaleProgress \<rparr>) \<rparr>);
                            inst4 = inst3\<lparr> starSystem := (starSystem inst3)
                                      \<lparr> materialOpacity :=
                                          faded_opacity (originalStarMaterialOpacity inst3) progress \<rparr> \<rparr>;
                            inst5 = (case dustSystem inst4 of
                                       None \<Rightarrow> inst4
                                     | Some dust \<Rightarrow>
                                        (case originalDustMaterialOpacity inst4 of
                                           None \<Rightarrow> inst4
                                         | Some dustOp \<Rightarrow>
                                            inst4\<lparr> dustSystem := Some (dust
                                                    \<lparr> materialOpacity := faded_opacity dustOp progress \<rparr>) \<rparr>))
                        in (inst5, True, w)))
         else (inst, True, w))"

text \<open>The body of \<^verbatim>\<open>forEach\<close> in \<^verbatim>\<open>animate\<close>, for one instance.\<close>

definition update_instance ::
  "(nat \<Rightarrow> real) \<Rightarrow> jsnum \<Rightarrow> World \<Rightarrow> GalaxyInstance \<Rightarrow> nat \<Rightarrow> (GalaxyInstance \<times> bool) \<times> World \<times> nat" where
  "update_instance rnd now w inst k =
     (let (inst1, k1) = rotate_instance rnd w inst k;
          (inst2, k2) = start_disintegration rnd now w inst1 k1;
          (inst3, shouldKeepInstance, w') = disintegrate now w inst2
      in ((inst3, shouldKeepInstance), w', k2))"

fun animate_instances ::
  "(nat \<Rightarrow> real) \<Rightarrow> jsnum \<Rightarrow> GalaxyInstance list \<Rightarrow> GalaxyInstance list \<Rightarrow> World \<Rightarrow> nat
     \<Rightarrow> GalaxyInstance list \<times> World \<times> nat" where
  "animate_instances rnd now [] stillActiveGalaxies w k = (stillActiveGalaxies, w, k)"
| "animate_instances rnd now (inst # rest) stillActiveGalaxies w k =
     (case update_instance rnd now w inst k of
        ((inst', shouldKeepInstance), w', k') \<Rightarrow>
          animate_instances rnd now rest
            (if shouldKeepInstance then stillActiveGalaxies @ [inst'] else stillActiveGalaxies) w' k')"

text \<open>
  One frame: \<open>now\<close> is the value of \<^verbatim>\<open>performance.now()\<close>. The request of the next
  frame, the update of the controls and the rendering are calls into the browser and the
  library and leave the state of the model as it is.
\<close>

definition animate :: "(nat \<Rightarrow> real) \<Rightarrow> jsnum \<Rightarrow> World \<Rightarrow> nat \<Rightarrow> World \<times> nat" where
  "animate rnd now w k =
     (case animate_instances rnd now (galaxyInstancesRef w) [] w k of
        (stillActiveGalaxies, w', k') \<Rightarrow> (w'\<lparr> galaxyInstancesRef := stillActiveGalaxies \<rparr>, k'))"

text \<open>
  The updates that one pass of \<^verbatim>\<open>forEach\<close> makes, in the order of the collection: for
  every instance the result of its update, made in the state and at the count of draws that
  the updates before it have left. The list has an entry for the instances that the pass
  disposes as well, which the collection after the frame no longer holds.
\<close>

fun frame_updates ::
  "(nat \<Rightarrow> real) \<Rightarrow> jsnum \<Rightarrow> GalaxyInstance list \<Rightarrow> World \<Rightarrow> nat
     \<Rightarrow> ((GalaxyInstance \<times> bool) \<times> World \<times> nat) list" where
  "frame_updates rnd now [] w k = []"
| "frame_updates rnd now (inst # rest) w k =
     (case update_instance rnd now w inst k of
        (r, w', k') \<Rightarrow> (r, w', k') # frame_updates rnd now rest w' k')"

text \<open>
  An instance with the three rotations about the vertical axis set to \<open>a\<close>, \<open>b\<close> and \<open>c\<close>
  and nothing else changed: the vocabulary of the frame condition below.
\<close>

definition set_y_rotations :: "jsnum \<Rightarrow> jsnum \<Rightarrow> jsnum \<Rightarrow> GalaxyInstance \<Rightarrow> GalaxyInstance" where
  "set_y_rotations a b c inst =
     inst\<lparr> group := (group inst)\<lparr> rotation := (rotation (group inst))\<lparr> vy := a \<rparr> \<rparr>,
           starSystem := (starSystem inst)\<lparr> rotation := (rotation (starSystem inst))\<lparr> vy := b \<rparr> \<rparr>,
           dustSystem := map_option (\<lambda>d. d\<lparr> rotation := (rotation d)\<lparr> vy := c \<rparr> \<rparr>) (dustSystem inst) \<rparr>"

subsection \<open>The regeneration effect\<close>

text \<open>The body of the loop that creates the galaxies.\<close>

definition create_galaxy :: "(nat \<Rightarrow> real) \<Rightarrow> jsnum \<Rightarrow> World \<Rightarrow> nat \<Rightarrow> error + World \<times> nat" where
  "create_galaxy rnd currentGalaxySpreadValue w k =
     (let (galaxyParams, k1) = generateRandomGalaxyParameters rnd currentGalaxySpreadValue k
      in case createSingleGalaxyGroup rnd galaxyParams k1 (nextObjectId w) of
           Inl e \<Rightarrow> Inl e
         | Inr ((star, dust, starOp, dustOp), k2, oid) \<Rightarrow>
            (let group0 = (new_Group oid)
                   \<lparr> children := [objectId star] @ (case dust of Some d \<Rightarrow> [objectId d] | None \<Rightarrow> []) \<rparr>;
                 (r, k3) = rand rnd (currentGalaxySpreadValue * Fin 0.05) (currentGalaxySpreadValue * Fin 0.9) k2;
                 (u1, k4) = Math_random rnd k3;
                 phi = Math_acos (Fin 2 * u1 - Fin 1);
                 (u2, k5) = Math_random rnd k4;
                 theta = u2 * Math_PI * Fin 2;
                 (rotX, k6) = rand rnd (Fin 0) (Math_PI * Fin 2) k5;
                 (rotY, k7) = rand rnd (Fin 0) (Math_PI * Fin 2) k6;
                 (rotZ, k8) = rand rnd (Fin 0) (Math_PI * Fin 2) k7;
                 (s, k9) = rand rnd (Fin 0.4) (Fin 1.2) k8;
                 group1 = group0
                   \<lparr> position := Vector3 (r * Math_sin phi * Math_cos theta)
                                        (r * Math_sin phi * Math_sin theta)
                                        (r * Math_cos phi),
                     rotation := Vector3 rotX rotY rotZ,
                     scale := Vector3 s s s \<rparr>;
                 w1 = scene_add (objectId group1) (w\<lparr> nextObjectId := Suc oid \<rparr>);
                 inst = \<lparr> group = group1,
                          baseOrbitSpeed = paramBaseOrbitSpeed galaxyParams,
                          baseArmSpeed = paramBaseArmSpeed galaxyParams,
                          starSystem = star,
                          dustSystem = dust,
                          disintegrationTriggerTime = None,
                          disintegrationDelay = Fin 0,
                          isDisintegrating = False,
                          disintegrationAnimationStartTime = None,
                          disintegrationDuration = Fin 0,
                          disintegrationTargetCamPos = None,
                          disintegrationInitialGroupPos = None,
                          disintegrationRandomScaleFactor = Fin 1,
                          originalStarMaterialOpacity = starOp,
                          originalDustMaterialOpacity = dustOp \<rparr>
             in Inr (w1\<lparr> galaxyInstancesRef := galaxyInstancesRef w1 @ [inst] \<rparr>, k9)))"

text \<open>
  \<^verbatim>\<open>for (let i = 0; i < numGalaxies; i++)\<close>: \<open>numGalaxies\<close> is the integer the slider of
  the control panel gives, so the model takes a natural number.
\<close>

fun create_galaxies :: "(nat \<Rightarrow> real) \<Rightarrow> jsnum \<Rightarrow> nat \<Rightarrow> World \<Rightarrow> nat \<Rightarrow> error + World \<times> nat" where
  "create_galaxies rnd spread 0 w k = Inr (w, k)"
| "create_galaxies rnd spread (Suc n) w k =
     (case create_galaxy rnd spread w k of
        Inl e \<Rightarrow> Inl e
      | Inr (w', k') \<Rightarrow> create_galaxies rnd spread n w' k')"

definition regenerate :: "(nat \<Rightarrow> real) \<Rightarrow> jsnum \<Rightarrow> nat \<Rightarrow> World \<Rightarrow> nat \<Rightarrow> error + World \<times> nat" where
  "regenerate rnd galaxySpread numGalaxies w k =
     (case sceneRef w of
        None \<Rightarrow> Inr (w, k)
      | Some scene \<Rightarrow>
         (let w1 = fold release_instance (galaxyInstancesRef w) w;
              w2 = w1\<lparr> galaxyInstancesRef := [] \<rparr>
          in create_galaxies rnd galaxySpread numGalaxies w2 k))"

text \<open>
  What the claim about regeneration says of a new instance, for the spread \<open>s\<close>: its group
  stands at a distance between \<open>0.05 s\<close> and \<open>0.9 s\<close> from the origin, has a uniform scale
  between 0.4 and 1.2, and the instance has no trigger time and is not disintegrating.
\<close>

definition newly_placed :: "real \<Rightarrow> GalaxyInstance \<Rightarrow> bool" where
  "newly_placed s inst \<longleftrightarrow>
     (\<exists>x y z r c.
        position (group inst) = Vector3 (Fin x) (Fin y) (Fin z)
      \<and> sqrt (x\<^sup>2 + y\<^sup>2 + z\<^sup>2) = r \<and> 0.05 * s \<le> r \<and> r \<le> 0.9 * s
      \<and> scale (group inst) = Vector3 (Fin c) (Fin c) (Fin c) \<and> 0.4 \<le> c \<and> c \<le> 1.2)
   \<and> disintegrationTriggerTime inst = None
   \<and> \<not> isDisintegrating inst
   \<and> disintegrationAnimationStartTime inst = None"

subsection \<open>The disintegration trigger\<close>

fun prime_instances ::
  "(nat \<Rightarrow> real) \<Rightarrow> jsnum \<Rightarrow> GalaxyInstance list \<Rightarrow> nat \<Rightarrow> GalaxyInstance list \<times> nat" where
  "prime_instances rnd triggerTime [] k = ([], k)"
| "prime_instances rnd triggerTime (inst # rest) k =
     (case rand rnd (Fin 0) (Fin 3000) k of
        (delay, k1) \<Rightarrow>
          (case prime_instances rnd triggerTime rest k1 of
             (rest', k2) \<Rightarrow>
               (inst\<lparr> disintegrationTriggerTime := Some triggerTime,
                      disintegrationDelay := delay,
                      isDisintegrating := False,
                      disintegrationAnimationStartTime := None \<rparr> # rest', k2)))"

definition trigger_disintegration ::
  "(nat \<Rightarrow> real) \<Rightarrow> nat \<Rightarrow> jsnum \<Rightarrow> World \<Rightarrow> nat \<Rightarrow> World \<times> nat" where
  "trigger_disintegration rnd disintegrationTriggerKey triggerTime w k =
     (if disintegrationTriggerKey = 0 then (w, k)
      else (case prime_instances rnd triggerTime (galaxyInstancesRef w) k of
              (insts, k') \<Rightarrow> (w\<lparr> galaxyInstancesRef := insts \<rparr>, k')))"

subsection \<open>Vocabulary of the properties of the builder\<close>

text \<open>
  \<open>in_range lo hi v\<close>: the number \<open>v\<close> is finite and lies between \<open>lo\<close> and \<open>hi\<close>.
  \<open>generated_ranges\<close> holds of the parameters whose fields, as far as the position of a
  point reads them, lie in the ranges from which the generator draws them: the thickness
  is the radius times a ratio in \<open>[0.04, 0.1]\<close>, the number of arms is an integer from 2 to
  6 (\<^verbatim>\<open>randInt(2, 5)\<close> with the rounding of its sum), the point count an integer from 4000
  to 12001, and so on. The radius itself is the universe radius times a factor, and is
  left to the properties. \<open>finite_params\<close> is the part of it that keeps the angles finite.
  \<open>zero_radius_slot\<close> is the content of the position buffer of a galaxy of radius zero: NaN
  in the slots of the \<open>y\<close> coordinates, 0 in the others.
\<close>

definition in_range :: "real \<Rightarrow> real \<Rightarrow> jsnum \<Rightarrow> bool" where
  "in_range lo hi v \<longleftrightarrow> (\<exists>a. v = Fin a \<and> lo \<le> a \<and> a \<le> hi)"

definition generated_ranges :: "GalaxyParams \<Rightarrow> bool" where
  "generated_ranges p \<longleftrightarrow>
     (\<exists>R t. radius p = Fin R \<and> thickness p = Fin (R * t) \<and> 0.04 \<le> t \<and> t \<le> 0.1)
   \<and> (\<exists>n::int. numArms p = Fin (of_int n) \<and> 2 \<le> n \<and> n \<le> 6)
   \<and> in_range 0.15 0.8 (armTightness p)
   \<and> in_range 0.4 1.5 (armAngularWidth p)
   \<and> in_range 0.05 0.15 (coreRatio p)
   \<and> (\<exists>N::nat. numStarPoints p = Fin (real N) \<and> 4000 \<le> N \<and> N \<le> 12001)
   \<and> in_range 1.2 2.0 (dustThicknessMultiplier p)
   \<and> in_range 0.05 0.2 (wobbleAmplitude p)
   \<and> in_range 1.5 4.0 (wobbleFrequency p)"

definition finite_params :: "GalaxyParams \<Rightarrow> bool" where
  "finite_params p \<longleftrightarrow>
     is_finite (thickness p) \<and> is_finite (numArms p) \<and> numArms p \<noteq> Fin 0
   \<and> is_finite (armTightness p) \<and> is_finite (armAngularWidth p) \<and> is_finite (coreRatio p)
   \<and> is_finite (dustThicknessMultiplier p)
   \<and> is_finite (wobbleAmplitude p) \<and> is_finite (wobbleFrequency p)"

definition zero_radius_slot :: "nat \<Rightarrow> jsnum" where
  "zero_radius_slot j = (if j mod 3 = 1 then NaN else Fin 0)"

section \<open>Sample values\<close>

text \<open>A parameter set inside the ranges of the generator, for the concrete instances below.\<close>

definition sample_params :: GalaxyParams where
  "sample_params =
     \<lparr> radius = Fin 1, thickness = Fin 0.07, numArms = Fin 2, armTightness = Fin 0.5,
       armAngularWidth = Fin 1, coreRatio = Fin 0.1,
       centerBrightColor = \<lparr> hue = Fin 0.1, saturation = Fin 0.8, lightness = Fin 0.9 \<rparr>,
       armBaseColor = \<lparr> hue = Fin 0.5, saturation = Fin 0.7, lightness = Fin 0.5 \<rparr>,
       armEdgeColor = \<lparr> hue = Fin 0.5, saturation = Fin 0.6, lightness = Fin 0.6 \<rparr>,
       nebulaColor = \<lparr> hue = Fin 0.8, saturation = Fin 0.8, lightness = Fin 0.7 \<rparr>,
       nebulaProbability = Fin 0.1, starPointSize = Fin 0.004, numStarPoints = Fin 4000,
       dustColor = \<lparr> hue = Fin 0.5, saturation = Fin 0.2, lightness = Fin 0.1 \<rparr>,
       dustNebulaColor = \<lparr> hue = Fin 0.5, saturation = Fin 0.3, lightness = Fin 0.15 \<rparr>,
       dustNebulaProbability = Fin 0.05, dustPointSizeMultiplier = Fin 5, dustOpacity = Fin 0.3,
       dustThicknessMultiplier = Fin 1.5, wobbleAmplitude = Fin 0.1, wobbleFrequency = Fin 2,
       paramBaseArmSpeed = Fin 0.001, paramBaseOrbitSpeed = Fin 0.0005 \<rparr>"

definition zero_radius_params :: GalaxyParams where
  "zero_radius_params = sample_params\<lparr> radius := Fin 0, thickness := Fin 0 \<rparr>"

text \<open>
  An instance as the regeneration effect leaves it, the same instance after the trigger,
  and after the start of its disintegration; a state that holds the first, and a state that
  holds the last.
\<close>

definition sample_instance :: GalaxyInstance where
  "sample_instance =
     \<lparr> group = (new_Group 2)\<lparr> children := [0, 1] \<rparr>,
       baseOrbitSpeed = Fin 0.0005,
       baseArmSpeed = Fin 0.001,
       starSystem = new_Points 0 [Fin 0.25, Fin 0.01, Fin 0.5] 3 (Fin 0.004) (Fin 1),
       dustSystem = Some (new_Points 1 [Fin 0.5, Fin 0.02, Fin 0.25] 3 (Fin 0.02) (Fin 0.3)),
       disintegrationTriggerTime = None,
       disintegrationDelay = Fin 0,
       isDisintegrating = False,
       disintegrationAnimationStartTime = None,
       disintegrationDuration = Fin 0,
       disintegrationTargetCamPos = None,
       disintegrationInitialGroupPos = None,
       disintegrationRandomScaleFactor = Fin 1,
       originalStarMaterialOpacity = Fin 1,
       originalDustMaterialOpacity = Some (Fin 0.3) \<rparr>"

definition sample_primed :: GalaxyInstance where
  "sample_primed =
     sample_instance\<lparr> disintegrationTriggerTime := Some (Fin 0), disintegrationDelay := Fin 500 \<rparr>"

definition sample_disintegrating :: GalaxyInstance where
  "sample_disintegrating =
     sample_primed\<lparr> isDisintegrating := True,
                    disintegrationAnimationStartTime := Some (Fin 1000),
                    disintegrationDuration := Fin 2,
                    disintegrationTargetCamPos := Some (Vector3 (Fin 0) (Fin 45) (Fin 180)),
                    disintegrationInitialGroupPos := Some (Vector3 (Fin 0) (Fin 0) (Fin 0)),
                    disintegrationRandomScaleFactor := Fin 3 \<rparr>"

text \<open>The disintegrating instance later on, the material of its stars faded to 0.4.\<close>

definition sample_fading :: GalaxyInstance where
  "sample_fading =
     sample_disintegrating\<lparr> starSystem := (starSystem sample_disintegrating)\<lparr> materialOpacity := Fin 0.4 \<rparr> \<rparr>"

definition sample_world :: World where
  "sample_world =
     \<lparr> sceneRef = Some [2],
       cameraRef = Some (Vector3 (Fin 0) (Fin 45) (Fin 180)),
       galaxyInstancesRef = [sample_instance],
       galaxyOrbitSpeedMultiplierRefCurrent = Fin 0.03,
       armInternalSpeedMultiplierRefCurrent = Fin 0.03,
       disposed = [],
       nextObjectId = 3 \<rparr>"

definition sample_world_disintegrating :: World where
  "sample_world_disintegrating = sample_world\<lparr> galaxyInstancesRef := [sample_disintegrating] \<rparr>"

section \<open>Properties\<close>

subsection \<open>Rounding\<close>

lemma round_even_le: "y \<le> of_int k \<Longrightarrow> round_even y \<le> k"
  unfolding round_even_def Let_def by (auto; linarith)

lemma round_even_ge: "of_int k \<le> y \<Longrightarrow> k \<le> round_even y"
  unfolding round_even_def Let_def by (auto; linarith)

lemma round_even_of_int [simp]: "round_even (of_int k) = k"
  by (simp add: round_even_def)

lemma round_even_mono: "x \<le> y \<Longrightarrow> round_even x \<le> round_even y"
proof -
  assume xy: "x \<le> y"
  have fl: "\<lfloor>x\<rfloor> \<le> \<lfloor>y\<rfloor>" using xy by (rule floor_mono)
  show ?thesis
  proof (cases "\<lfloor>x\<rfloor> = \<lfloor>y\<rfloor>")
    case True
    then show ?thesis using xy unfolding round_even_def Let_def by auto
  next
    case False
    then have "\<lfloor>x\<rfloor> + 1 \<le> \<lfloor>y\<rfloor>" using fl by simp
    moreover have "round_even x \<le> \<lfloor>x\<rfloor> + 1" unfolding round_even_def Let_def by auto
    moreover have "\<lfloor>y\<rfloor> \<le> round_even y" by (rule round_even_ge) simp
    ultimately show ?thesis by linarith
  qed
qed

lemma round_even_err: "\<bar>of_int (round_even y) - y\<bar> \<le> 1 / 2"
  unfolding round_even_def Let_def by (auto; linarith)

lemma binade:
  assumes "x \<noteq> 0"
  shows "2 powi \<lfloor>log 2 \<bar>x\<bar>\<rfloor> \<le> \<bar>x\<bar>" and "\<bar>x\<bar> < 2 powi (\<lfloor>log 2 \<bar>x\<bar>\<rfloor> + 1)"
proof -
  have pos: "0 < \<bar>x\<bar>" using assms by simp
  have "2 powr (of_int \<lfloor>log 2 \<bar>x\<bar>\<rfloor>) \<le> \<bar>x\<bar> \<and> \<bar>x\<bar> < 2 powr (of_int (\<lfloor>log 2 \<bar>x\<bar>\<rfloor> + 1))"
    using floor_log_eq_powr_iff [OF pos, of 2 "\<lfloor>log 2 \<bar>x\<bar>\<rfloor>"] by simp
  then show "2 powi \<lfloor>log 2 \<bar>x\<bar>\<rfloor> \<le> \<bar>x\<bar>" and "\<bar>x\<bar> < 2 powi (\<lfloor>log 2 \<bar>x\<bar>\<rfloor> + 1)"
    using powr_real_of_int' [of 2 "\<lfloor>log 2 \<bar>x\<bar>\<rfloor>"] powr_real_of_int' [of 2 "\<lfloor>log 2 \<bar>x\<bar>\<rfloor> + 1"]
    by simp_all
qed

lemma floor_log_eq:
  assumes "2 powi e \<le> \<bar>x\<bar>" and "\<bar>x\<bar> < 2 powi (e + 1)"
  shows "\<lfloor>log 2 \<bar>x\<bar>\<rfloor> = e"
proof -
  have pos: "0 < \<bar>x\<bar>" using assms(1) by (smt (verit) zero_less_power_int)
  have "2 powr (of_int e) \<le> \<bar>x\<bar> \<and> \<bar>x\<bar> < 2 powr (of_int (e + 1))"
    using assms powr_real_of_int' [of 2 e] powr_real_of_int' [of 2 "e + 1"] by simp
  then show ?thesis using floor_log_eq_powr_iff [OF pos, of 2 e] by simp
qed


lemma pow2_le_abs_nonzero: "2 powi n \<le> \<bar>x :: real\<bar> \<Longrightarrow> x \<noteq> 0"
proof -
  assume a: "2 powi n \<le> \<bar>x\<bar>"
  have "(0::real) < 2 powi n" by simp
  with a have "0 < \<bar>x\<bar>" by linarith
  then show ?thesis by simp
qed

lemma pow2_le_pos: "2 powi n \<le> (x::real) \<Longrightarrow> 0 < x"
proof -
  assume a: "2 powi n \<le> x"
  have "(0::real) < 2 powi n" by simp
  with a show "0 < x" by linarith
qed

lemma pow2_le_iff: "(2::real) powi m \<le> 2 powi n \<longleftrightarrow> m \<le> n"
proof
  assume "(2::real) powi m \<le> 2 powi n"
  then show "m \<le> n" using power_int_strict_increasing [of n m "2::real"] by (cases "m \<le> n") auto
next
  assume "m \<le> n"
  then show "(2::real) powi m \<le> 2 powi n" by (rule power_int_increasing) simp
qed

lemma pow2_less_iff: "(2::real) powi m < 2 powi n \<longleftrightarrow> m < n"
  using pow2_le_iff [of n m] by (auto simp: not_le [symmetric])

lemma pow2_multiple: "m \<le> n \<Longrightarrow> (2::real) powi n = of_int (2 ^ nat (n - m)) * 2 powi m"
proof -
  assume mn: "m \<le> n"
  have "(2::real) powi n = 2 powi ((n - m) + m)" by simp
  also have "\<dots> = 2 powi (n - m) * 2 powi m" by (rule power_int_add) simp
  also have "(2::real) powi (n - m) = 2 ^ nat (n - m)" using mn by (simp add: power_int_def)
  finally show ?thesis by simp
qed

lemma floor_log_le: "x \<noteq> 0 \<Longrightarrow> \<bar>x\<bar> \<le> 2 powi n \<Longrightarrow> \<lfloor>log 2 \<bar>x\<bar>\<rfloor> \<le> n"
  using binade(1) [of x] pow2_le_iff [of "\<lfloor>log 2 \<bar>x\<bar>\<rfloor>" n] by linarith

lemma floor_log_less: "x \<noteq> 0 \<Longrightarrow> \<bar>x\<bar> < 2 powi n \<Longrightarrow> \<lfloor>log 2 \<bar>x\<bar>\<rfloor> < n"
  using binade(1) [of x] pow2_less_iff [of "\<lfloor>log 2 \<bar>x\<bar>\<rfloor>" n] by linarith

lemma floor_log_ge: "2 powi n \<le> \<bar>x\<bar> \<Longrightarrow> n \<le> \<lfloor>log 2 \<bar>x\<bar>\<rfloor>"
proof -
  assume a: "2 powi n \<le> \<bar>x\<bar>"
  have "x \<noteq> 0" using a by (rule pow2_le_abs_nonzero)
  then show ?thesis using a binade(2) [of x] pow2_less_iff [of n "\<lfloor>log 2 \<bar>x\<bar>\<rfloor> + 1"] by linarith
qed

lemma round_nearest_le:
  assumes "x \<le> of_int k * 2 powi quantum p emin x"
  shows "round_nearest p emin x \<le> of_int k * 2 powi quantum p emin x"
proof (cases "x = 0")
  case True
  then show ?thesis using assms by (simp add: round_nearest_def)
next
  case False
  have q: "(0::real) < 2 powi quantum p emin x" by simp
  have "x / 2 powi quantum p emin x \<le> of_int k" using assms q by (simp add: field_simps)
  then have "round_even (x / 2 powi quantum p emin x) \<le> k" by (rule round_even_le)
  then have "(of_int (round_even (x / 2 powi quantum p emin x)) :: real) \<le> of_int k" by simp
  then show ?thesis using False q by (simp add: round_nearest_def)
qed

lemma round_nearest_ge:
  assumes "of_int k * 2 powi quantum p emin x \<le> x"
  shows "of_int k * 2 powi quantum p emin x \<le> round_nearest p emin x"
proof (cases "x = 0")
  case True
  then show ?thesis using assms by (simp add: round_nearest_def)
next
  case False
  have q: "(0::real) < 2 powi quantum p emin x" by simp
  have "of_int k \<le> x / 2 powi quantum p emin x" using assms q by (simp add: field_simps)
  then have "k \<le> round_even (x / 2 powi quantum p emin x)" by (rule round_even_ge)
  then have "(of_int k :: real) \<le> of_int (round_even (x / 2 powi quantum p emin x))" by simp
  then show ?thesis using False q by (simp add: round_nearest_def)
qed

lemma round_nearest_le_pow2:
  assumes "x \<le> 2 powi n" and "quantum p emin x \<le> n"
  shows "round_nearest p emin x \<le> 2 powi n"
  using round_nearest_le [of x "2 ^ nat (n - quantum p emin x)" p emin]
    pow2_multiple [OF assms(2)] assms(1) by simp

lemma round_nearest_ge_pow2:
  assumes "2 powi n \<le> x" and "quantum p emin x \<le> n"
  shows "2 powi n \<le> round_nearest p emin x"
  using round_nearest_ge [of "2 ^ nat (n - quantum p emin x)" p emin x]
    pow2_multiple [OF assms(2)] assms(1) by simp

lemma round_nearest_ge_neg_pow2:
  assumes "- (2 powi n) \<le> x" and "quantum p emin x \<le> n"
  shows "- (2 powi n) \<le> round_nearest p emin x"
  using round_nearest_ge [of "- (2 ^ nat (n - quantum p emin x))" p emin x]
    pow2_multiple [OF assms(2)] assms(1) by simp

lemma quantum_le:
  assumes "x \<noteq> 0" and "\<bar>x\<bar> \<le> 2 powi n" and "emin \<le> n" and "0 < p"
  shows "quantum p emin x \<le> n"
  using floor_log_le [OF assms(1,2)] assms(3,4) by (simp add: quantum_def)

lemma round_nearest_abs_le_pow2:
  assumes "\<bar>x\<bar> \<le> 2 powi n" and "emin \<le> n" and "0 < p"
  shows "\<bar>round_nearest p emin x\<bar> \<le> 2 powi n"
proof (cases "x = 0")
  case True
  then show ?thesis by (simp add: round_nearest_def)
next
  case False
  have q: "quantum p emin x \<le> n" using quantum_le [OF False assms] .
  have "round_nearest p emin x \<le> 2 powi n"
    using round_nearest_le_pow2 [OF _ q] assms(1) by linarith
  moreover have "- (2 powi n) \<le> round_nearest p emin x"
    using round_nearest_ge_neg_pow2 [OF _ q] assms(1) by linarith
  ultimately show ?thesis by linarith
qed

lemma round_nearest_nonneg: "0 \<le> x \<Longrightarrow> 0 \<le> round_nearest p emin x"
  using round_nearest_ge [of 0 p emin x] by simp

lemma round_nearest_nonpos: "x \<le> 0 \<Longrightarrow> round_nearest p emin x \<le> 0"
  using round_nearest_le [of x 0 p emin] by simp

lemma round_nearest_ge_pow2':
  assumes "2 powi n \<le> x" and "emin \<le> n" and "0 < p"
  shows "2 powi n \<le> round_nearest p emin x"
proof -
  have "0 < x" using assms(1) by (rule pow2_le_pos)
  then have x: "x \<noteq> 0" "\<bar>x\<bar> = x" by auto
  let ?E = "\<lfloor>log 2 \<bar>x\<bar>\<rfloor>"
  have nE: "n \<le> ?E" using floor_log_ge [of n x] assms(1) x by simp
  have q: "quantum p emin x \<le> ?E" using nE assms(2,3) by (simp add: quantum_def)
  have "2 powi ?E \<le> x" using binade(1) [OF x(1)] x(2) by simp
  then have "2 powi ?E \<le> round_nearest p emin x" using q by (rule round_nearest_ge_pow2)
  moreover have "(2::real) powi n \<le> 2 powi ?E" using nE by (simp add: pow2_le_iff)
  ultimately show ?thesis by linarith
qed

lemma quantum_mono:
  assumes "0 < x" and "x \<le> y"
  shows "quantum p emin x \<le> quantum p emin y"
proof -
  have "log 2 \<bar>x\<bar> \<le> log 2 \<bar>y\<bar>" using assms by simp
  then have "\<lfloor>log 2 \<bar>x\<bar>\<rfloor> \<le> \<lfloor>log 2 \<bar>y\<bar>\<rfloor>" by (rule floor_mono)
  then show ?thesis by (simp add: quantum_def)
qed

lemma round_nearest_mono_pos:
  assumes "0 < x" and "x \<le> y" and "0 < p"
  shows "round_nearest p emin x \<le> round_nearest p emin y"
proof (cases "quantum p emin x = quantum p emin y")
  case True
  have q: "(0::real) < 2 powi quantum p emin y" by simp
  have "x / 2 powi quantum p emin y \<le> y / 2 powi quantum p emin y"
    using assms(2) q by (simp add: divide_right_mono)
  then have "round_even (x / 2 powi quantum p emin y) \<le> round_even (y / 2 powi quantum p emin y)"
    by (rule round_even_mono)
  then have "(of_int (round_even (x / 2 powi quantum p emin y)) :: real)
      \<le> of_int (round_even (y / 2 powi quantum p emin y))" by simp
  then show ?thesis using assms(1,2) True q by (simp add: round_nearest_def)
next
  case False
  let ?Ex = "\<lfloor>log 2 \<bar>x\<bar>\<rfloor>" and ?Ey = "\<lfloor>log 2 \<bar>y\<bar>\<rfloor>"
  have lt: "quantum p emin x < quantum p emin y" using quantum_mono [OF assms(1,2), of p emin] False by simp
  then have qy: "quantum p emin y = ?Ey - int p + 1" and e: "?Ex < ?Ey" and em: "emin \<le> ?Ey - int p + 1"
    by (auto simp: quantum_def max_def split: if_splits)
  have y0: "y \<noteq> 0" "\<bar>y\<bar> = y" and x0: "x \<noteq> 0" "\<bar>x\<bar> = x" using assms by auto
  have "x < 2 powi (?Ex + 1)" using binade(2) [OF x0(1)] x0(2) by simp
  moreover have "(2::real) powi (?Ex + 1) \<le> 2 powi ?Ey" using e by (simp add: pow2_le_iff)
  ultimately have xb: "x \<le> 2 powi ?Ey" by linarith
  have qx: "quantum p emin x \<le> ?Ey" using lt qy assms(3) by linarith
  have 1: "round_nearest p emin x \<le> 2 powi ?Ey" using xb qx by (rule round_nearest_le_pow2)
  have "2 powi ?Ey \<le> y" using binade(1) [OF y0(1)] y0(2) by simp
  moreover have "quantum p emin y \<le> ?Ey" using qy assms(3) by linarith
  ultimately have 2: "2 powi ?Ey \<le> round_nearest p emin y" by (rule round_nearest_ge_pow2)
  show ?thesis using 1 2 by linarith
qed

lemma round_nearest_mono_nonneg:
  assumes "0 \<le> x" and "x \<le> y" and "0 < p"
  shows "round_nearest p emin x \<le> round_nearest p emin y"
proof (cases "x = 0")
  case True
  then show ?thesis using round_nearest_nonneg [of y p emin] assms by (simp add: round_nearest_def)
next
  case False
  then show ?thesis using round_nearest_mono_pos [of x y p emin] assms by simp
qed

lemma round_nearest_err:
  "\<bar>round_nearest p emin x - x\<bar> \<le> 2 powi quantum p emin x / 2"
proof (cases "x = 0")
  case True
  then show ?thesis by (simp add: round_nearest_def)
next
  case False
  let ?q = "(2::real) powi quantum p emin x"
  have q: "0 < ?q" by simp
  have "\<bar>of_int (round_even (x / ?q)) - x / ?q\<bar> \<le> 1 / 2" by (rule round_even_err)
  then have "\<bar>of_int (round_even (x / ?q)) - x / ?q\<bar> * ?q \<le> 1 / 2 * ?q"
    using q by (simp add: mult_right_mono)
  moreover have "\<bar>of_int (round_even (x / ?q)) - x / ?q\<bar> * ?q = \<bar>of_int (round_even (x / ?q)) * ?q - x\<bar>"
  proof -
    have "\<bar>of_int (round_even (x / ?q)) - x / ?q\<bar> * ?q = \<bar>(of_int (round_even (x / ?q)) - x / ?q) * ?q\<bar>"
      using q by (simp add: abs_mult)
    also have "(of_int (round_even (x / ?q)) - x / ?q) * ?q = of_int (round_even (x / ?q)) * ?q - x"
      using q by (simp add: field_simps)
    finally show ?thesis .
  qed
  ultimately show ?thesis using False by (simp add: round_nearest_def)
qed

lemma round_nearest_rel_err:
  assumes "2 powi (emin + int p - 1) \<le> \<bar>x\<bar>"
  shows "\<bar>round_nearest p emin x - x\<bar> \<le> \<bar>x\<bar> * 2 powi (- int p)"
proof -
  let ?E = "\<lfloor>log 2 \<bar>x\<bar>\<rfloor>"
  have x0: "x \<noteq> 0" using assms by (rule pow2_le_abs_nonzero)
  have "emin + int p - 1 \<le> ?E" using floor_log_ge [OF assms] .
  then have q: "quantum p emin x = ?E - int p + 1" by (simp add: quantum_def)
  have "(2::real) powi (?E - int p + 1) = 2 powi ?E * 2 powi (- int p) * 2"
    by (simp add: power_int_add power_int_diff power_int_minus field_simps)
  then have "(2::real) powi quantum p emin x / 2 = 2 powi ?E * 2 powi (- int p)" using q by simp
  moreover have "2 powi ?E * 2 powi (- int p) \<le> \<bar>x\<bar> * 2 powi (- int p)"
    using binade(1) [OF x0] by (simp add: mult_right_mono)
  ultimately show ?thesis using round_nearest_err [of p emin x] by linarith
qed

lemma round_nearest_representable:
  assumes "\<bar>m\<bar> < 2 ^ p" and "emin \<le> e" and "0 < p"
  shows "round_nearest p emin (of_int m * 2 powi e) = of_int m * 2 powi e"
proof (cases "m = 0")
  case True
  then show ?thesis by (simp add: round_nearest_def)
next
  case False
  let ?x = "of_int m * (2::real) powi e"
  have x0: "?x \<noteq> 0" using False by simp
  have "\<bar>?x\<bar> = of_int \<bar>m\<bar> * 2 powi e" by (simp add: abs_mult)
  also have "\<dots> < of_int (2 ^ p) * 2 powi e" using assms(1) by (simp del: of_int_power)
  also have "\<dots> = 2 powi (int p + e)" by (simp add: power_int_add)
  finally have "\<lfloor>log 2 \<bar>?x\<bar>\<rfloor> < int p + e" using floor_log_less [OF x0] by simp
  then have q: "quantum p emin ?x \<le> e" using assms(2) by (simp add: quantum_def)
  have "?x = of_int (m * 2 ^ nat (e - quantum p emin ?x)) * 2 powi quantum p emin ?x"
    using pow2_multiple [OF q] by simp
  then obtain k :: int where k: "?x = of_int k * 2 powi quantum p emin ?x" by blast
  have "round_nearest p emin ?x \<le> ?x" using round_nearest_le [of ?x k p emin] k by simp
  moreover have "?x \<le> round_nearest p emin ?x" using round_nearest_ge [of k p emin ?x] k by simp
  ultimately show ?thesis by simp
qed

lemma round_nearest_le_representable:
  assumes "0 < x" and "x \<le> of_int m * 2 powi e" and "\<bar>m\<bar> < 2 ^ p" and "emin \<le> e" and "0 < p"
  shows "round_nearest p emin x \<le> of_int m * 2 powi e"
proof -
  have "round_nearest p emin x \<le> round_nearest p emin (of_int m * 2 powi e)"
    using assms(1,2,5) by (rule round_nearest_mono_pos)
  then show ?thesis using round_nearest_representable [OF assms(3,4,5)] by simp
qed

lemma round_nearest_eval:
  assumes "2 powi e \<le> \<bar>x\<bar>" and "\<bar>x\<bar> < 2 powi (e + 1)"
  shows "round_nearest p emin x =
    of_int (round_even (x / 2 powi max (e - int p + 1) emin)) * 2 powi max (e - int p + 1) emin"
proof -
  have "x \<noteq> 0" using assms(1) by (rule pow2_le_abs_nonzero)
  then show ?thesis using floor_log_eq [OF assms] by (simp add: round_nearest_def quantum_def)
qed

lemma round_nearest_le_representable0:
  assumes "0 \<le> x" and "x \<le> of_int m * 2 powi e" and "\<bar>m\<bar> < 2 ^ p" and "emin \<le> e" and "0 < p"
  shows "round_nearest p emin x \<le> of_int m * 2 powi e"
proof -
  have "round_nearest p emin x \<le> round_nearest p emin (of_int m * 2 powi e)"
    using assms(1,2,5) by (rule round_nearest_mono_nonneg)
  then show ?thesis using round_nearest_representable [OF assms(3,4,5)] by simp
qed

lemma round_nearest_ge_representable0:
  assumes "0 \<le> of_int m * (2::real) powi e" and "of_int m * 2 powi e \<le> x"
      and "\<bar>m\<bar> < 2 ^ p" and "emin \<le> e" and "0 < p"
  shows "of_int m * 2 powi e \<le> round_nearest p emin x"
proof -
  have "round_nearest p emin (of_int m * 2 powi e) \<le> round_nearest p emin x"
    using assms(1,2,5) by (rule round_nearest_mono_nonneg)
  then show ?thesis using round_nearest_representable [OF assms(3,4,5)] by simp
qed

lemma round_even_eval:
  "\<lfloor>y\<rfloor> = f \<Longrightarrow>
   round_even y = (if y - of_int f < 1 / 2 then f else if 1 / 2 < y - of_int f then f + 1
                   else if even f then f else f + 1)"
  by (simp add: round_even_def Let_def)

lemma round_nearest_eval':
  assumes "2 powi e \<le> \<bar>x\<bar>" and "\<bar>x\<bar> < 2 powi (e + 1)" and "emin \<le> e - int p + 1"
      and "x / 2 powi (e - int p + 1) = y" and "\<lfloor>y\<rfloor> = f"
  shows "round_nearest p emin x =
    of_int (if y - of_int f < 1 / 2 then f else if 1 / 2 < y - of_int f then f + 1
            else if even f then f else f + 1) * 2 powi (e - int p + 1)"
proof -
  have m: "max (e - int p + 1) emin = e - int p + 1" using assms(3) by simp
  show ?thesis
    unfolding round_nearest_eval [OF assms(1,2)] m assms(4) round_even_eval [OF assms(5)] ..
qed

lemma round_nearest_double_lower:
  assumes "2 powi (- 1022) \<le> x"
  shows "x * (1 - 1 / 2 ^ 53) \<le> round_nearest 53 (- 1074) x"
proof -
  have x: "0 < x" using assms by (rule pow2_le_pos)
  have ax: "\<bar>x\<bar> = x" using x by simp
  have "2 powi (- 1074 + int 53 - 1) \<le> \<bar>x\<bar>" using assms x by simp
  then have "\<bar>round_nearest 53 (- 1074) x - x\<bar> \<le> \<bar>x\<bar> * 2 powi (- int 53)"
    by (rule round_nearest_rel_err)
  then have "\<bar>round_nearest 53 (- 1074) x - x\<bar> \<le> x * 2 powi (- 53)"
    unfolding ax by simp
  then have "x - x * 2 powi (- 53) \<le> round_nearest 53 (- 1074) x" by linarith
  moreover have "x * (1 - 1 / 2 ^ 53) = x - x * 2 powi (- 53)"
    by (simp add: power_int_minus field_simps)
  ultimately show ?thesis by simp
qed

lemma to_format_zero [simp]: "to_format p emin emax 0 = Fin 0"
proof -
  have "\<not> (2::real) powi emax \<le> 0" by (simp add: not_le)
  then show ?thesis by (simp add: to_format_def round_nearest_def)
qed

lemma to_format_Fin:
  assumes "\<bar>x\<bar> \<le> 2 powi n" and "emin \<le> n" and "n < emax" and "0 < p"
  shows "to_format p emin emax x = Fin (round_nearest p emin x)"
proof -
  have "\<bar>round_nearest p emin x\<bar> \<le> 2 powi n"
    using assms(1,2,4) by (rule round_nearest_abs_le_pow2)
  moreover have "(2::real) powi n < 2 powi emax" using assms(3) by (simp add: pow2_less_iff)
  ultimately have "\<not> 2 powi emax \<le> \<bar>round_nearest p emin x\<bar>" by linarith
  then show ?thesis by (simp add: to_format_def)
qed

lemma to_double_Fin:
  assumes "\<bar>x\<bar> \<le> 2 powi n" and "- 1074 \<le> n" and "n < 1024"
  shows "to_double (Fin x) = Fin (round_nearest 53 (- 1074) x)"
  using to_format_Fin [OF assms(1,2,3), of 53] by simp

lemma to_double_Fin_nonneg:
  assumes "0 \<le> x" and "x \<le> 2 powi n" and "- 1074 \<le> n" and "n < 1024"
  shows "to_double (Fin x) = Fin (round_nearest 53 (- 1074) x)"
  using assms by (intro to_double_Fin [where n = n]) simp_all

lemma to_double_exact:
  assumes "x = of_int m * 2 powi e" and "\<bar>m\<bar> < 2 ^ 53" and "- 1074 \<le> e" and "e \<le> 970"
  shows "to_double (Fin x) = Fin x"
proof -
  have "\<bar>x\<bar> = of_int \<bar>m\<bar> * 2 powi e" using assms(1) by (simp add: abs_mult)
  also have "\<dots> \<le> of_int (2 ^ 53) * 2 powi e"
    using assms(2) by (intro mult_right_mono) (simp_all del: of_int_power)
  also have "\<dots> = 2 powi (53 + e)" by (simp add: power_int_add)
  finally have b: "\<bar>x\<bar> \<le> 2 powi (53 + e)" .
  have "to_double (Fin x) = Fin (round_nearest 53 (- 1074) x)"
    using b assms(3,4) by (intro to_double_Fin [where n = "53 + e"]) simp_all
  also have "round_nearest 53 (- 1074) x = x"
    unfolding assms(1) using assms(2,3) by (intro round_nearest_representable) simp_all
  finally show ?thesis .
qed

lemma to_double_of_int: "\<bar>m\<bar> < 2 ^ 53 \<Longrightarrow> to_double (Fin (of_int m)) = Fin (of_int m)"
  by (rule to_double_exact [where m = m and e = 0]) simp_all

lemma to_double_numeral:
  "numeral k < (2::int) ^ 53 \<Longrightarrow> to_double (Fin (numeral k)) = Fin (numeral k)"
  using to_double_of_int [of "numeral k"] by simp

lemma to_double_one [simp]: "to_double (Fin 1) = Fin 1"
  using to_double_of_int [of 1] by simp

lemma to_double_half: "to_double (Fin (1 / 2)) = Fin (1 / 2)"
  by (rule to_double_exact [where m = 1 and e = "- 1"]) (simp_all add: power_int_minus)

lemma to_float32_finite:
  assumes "\<bar>x\<bar> \<le> 2 powi 127"
  shows "is_finite (to_float32 (Fin x))"
  using to_format_Fin [OF assms, of "- 149" 128 24] by simp

lemma to_double_zero [simp]: "to_double (Fin 0) = Fin 0"
  by simp

lemma to_float32_zero [simp]: "to_float32 (Fin 0) = Fin 0"
  by simp

declare to_double.simps(1) [simp del]
declare to_float32.simps(1) [simp del]

subsection \<open>Draws\<close>

lemma rand_Fin [simp]:
  "rand rnd (Fin a) (Fin b) k = (Fin (rnd k * (b - a) + a), Suc k)"
  by (simp add: rand_def Math_random_def)

lemma randInt_snd [simp]: "snd (randInt rnd lo hi k) = Suc k"
  by (simp add: randInt_def rand_double_def Math_random_def split_def)

lemma rand_range:
  assumes "0 \<le> u" "u < 1" "a \<le> b"
  shows "a \<le> u * (b - a) + a" and "u * (b - a) + a \<le> (b::real)"
proof -
  have "0 \<le> u * (b - a)" using assms by simp
  then show "a \<le> u * (b - a) + a" by simp
  have "u * (b - a) \<le> 1 * (b - a)"
    using assms by (intro mult_right_mono) simp_all
  then show "u * (b - a) + a \<le> b" by simp
qed

lemma randInt_eq:
  assumes "unit_draws rnd" and "0 \<le> a" and "a \<le> b" and "b < 2 ^ 52"
  shows "randInt rnd (Fin (of_int a)) (Fin (of_int b)) k
           = (Fin (of_int \<lfloor>round_nearest 53 (- 1074)
                 (round_nearest 53 (- 1074) (rnd k * of_int (b + 1 - a)) + of_int a)\<rfloor>), Suc k)"
    and "of_int a \<le> round_nearest 53 (- 1074)
                 (round_nearest 53 (- 1074) (rnd k * of_int (b + 1 - a)) + of_int a)"
    and "round_nearest 53 (- 1074)
                 (round_nearest 53 (- 1074) (rnd k * of_int (b + 1 - a)) + of_int a) \<le> of_int (b + 1)"
proof -
  let ?c = "b + 1 - a"
  let ?x1 = "rnd k * of_int ?c"
  let ?y1 = "round_nearest 53 (- 1074) ?x1"
  let ?x2 = "?y1 + of_int a"
  let ?y2 = "round_nearest 53 (- 1074) ?x2"
  have u: "0 \<le> rnd k" "rnd k < 1" using assms(1) by (simp_all add: unit_draws_def)
  have c: "1 \<le> ?c" "?c \<le> 2 ^ 52" using assms(2,3,4) by simp_all
  have big: "(2::int) ^ 52 < 2 ^ 53" by simp
  have h1: "to_double (Fin (of_int b) + Fin 1) = Fin (of_int (b + 1))"
    using to_double_of_int [of "b + 1"] assms(2,3,4) by simp
  have h2: "to_double (Fin (of_int (b + 1)) - Fin (of_int a)) = Fin (of_int ?c)"
    using to_double_of_int [of ?c] c by simp
  have cr: "(of_int ?c :: real) \<le> 2 powi 53"
  proof -
    have "(of_int ?c :: real) \<le> of_int (2 ^ 52)" using c(2) by (simp only: of_int_le_iff)
    also have "\<dots> \<le> 2 powi 53" by simp
    finally show ?thesis .
  qed
  have x1: "0 \<le> ?x1" "?x1 \<le> of_int ?c"
  proof -
    have c0: "(0::real) \<le> of_int ?c" using c(1) by simp
    show "0 \<le> ?x1" using u(1) c0 by simp
    have "?x1 \<le> 1 * of_int ?c" using u(2) c0 by (intro mult_right_mono) simp_all
    then show "?x1 \<le> of_int ?c" by simp
  qed
  have h3: "to_double (Fin (rnd k) * Fin (of_int ?c)) = Fin ?y1"
    using to_double_Fin_nonneg [of ?x1 53] x1 cr by simp
  have y1: "0 \<le> ?y1" "?y1 \<le> of_int ?c"
  proof -
    show "0 \<le> ?y1" using x1(1) by (rule round_nearest_nonneg)
    have "?y1 \<le> of_int ?c * 2 powi 0"
      using x1 c by (intro round_nearest_le_representable0) simp_all
    then show "?y1 \<le> of_int ?c" by simp
  qed
  have x2: "of_int a \<le> ?x2" "?x2 \<le> of_int (b + 1)" using y1 by simp_all
  have a0: "(0::real) \<le> of_int a" using assms(2) by simp
  have br: "(of_int (b + 1) :: real) \<le> 2 powi 53"
  proof -
    have "(of_int (b + 1) :: real) \<le> of_int (2 ^ 52)" using assms(4) by (simp only: of_int_le_iff)
    also have "\<dots> \<le> 2 powi 53" by simp
    finally show ?thesis .
  qed
  have h4: "to_double (Fin ?y1 + Fin (of_int a)) = Fin ?y2"
    using to_double_Fin_nonneg [of ?x2 53] x2 a0 br by simp
  show lo: "of_int a \<le> ?y2"
  proof -
    have "of_int a * 2 powi 0 \<le> ?y2"
      using x2(1) a0 assms(2,3,4) by (intro round_nearest_ge_representable0) simp_all
    then show ?thesis by simp
  qed
  show hi: "?y2 \<le> of_int (b + 1)"
  proof -
    have "?y2 \<le> of_int (b + 1) * 2 powi 0"
      using x2 a0 assms(2,3,4) by (intro round_nearest_le_representable0) simp_all
    then show ?thesis by simp
  qed
  show "randInt rnd (Fin (of_int a)) (Fin (of_int b)) k = (Fin (of_int \<lfloor>?y2\<rfloor>), Suc k)"
    unfolding randInt_def rand_double_def Math_random_def h1 split_conv h2 h3 h4 by simp
qed

lemma randInt_range:
  assumes "unit_draws rnd" and "0 \<le> a" and "a \<le> b" and "b < 2 ^ 52"
  shows "\<exists>n. randInt rnd (Fin (of_int a)) (Fin (of_int b)) k = (Fin (of_int n), Suc k)
            \<and> a \<le> n \<and> n \<le> b + 1"
proof -
  note e = randInt_eq [OF assms, of k]
  have "a \<le> \<lfloor>round_nearest 53 (- 1074)
                 (round_nearest 53 (- 1074) (rnd k * of_int (b + 1 - a)) + of_int a)\<rfloor>"
    using e(2) by (simp add: le_floor_iff)
  moreover have "\<lfloor>round_nearest 53 (- 1074)
                 (round_nearest 53 (- 1074) (rnd k * of_int (b + 1 - a)) + of_int a)\<rfloor> \<le> b + 1"
    using e(3) by (simp only: floor_le_iff)
  ultimately show ?thesis using e(1) by blast
qed

lemma generate_fields:
  "radius (fst (generateRandomGalaxyParameters rnd (Fin R) k)) = Fin (rnd k * (R * 0.08 - R * 0.02) + R * 0.02)"
  "numArms (fst (generateRandomGalaxyParameters rnd (Fin R) k)) = fst (randInt rnd (Fin 2) (Fin 5) (k + 4))"
  "nebulaProbability (fst (generateRandomGalaxyParameters rnd (Fin R) k)) = Fin (rnd (k + 18) * (0.25 - 0.05) + 0.05)"
  "dustNebulaProbability (fst (generateRandomGalaxyParameters rnd (Fin R) k)) = Fin (rnd (k + 27) * (0.1 - 0.02) + 0.02)"
  "numStarPoints (fst (generateRandomGalaxyParameters rnd (Fin R) k)) = fst (randInt rnd (Fin 4000) (Fin 12000) (k + 20))"
  "snd (generateRandomGalaxyParameters rnd (Fin R) k) = k + 35"
  by (simp_all add: generateRandomGalaxyParameters_def Math_random_def Let_def split_def eval_nat_numeral)

subsection \<open>Numbers\<close>

lemma Math_min_Fin [simp]: "Math_min (Fin a) (Fin b) = Fin (min a b)"
  by (simp add: Math_min_def min_def)

lemma Math_max_Fin [simp]: "Math_max (Fin a) (Fin b) = Fin (max a b)"
  by (simp add: Math_max_def max_def)

lemma Math_pow_Fin: "0 \<le> a \<Longrightarrow> 0 < b \<Longrightarrow> Math_pow (Fin a) b = Fin (a powr b)"
  by simp

lemma unit_draws_half: "unit_draws (\<lambda>_. 1 / 2)"
  by (simp add: unit_draws_def)

subsection \<open>The generated parameters\<close>

text \<open>
  The number of arms is \<^verbatim>\<open>randInt(2, 5)\<close>, the floor of the double sum \<open>4 u + 2\<close> for the
  draw \<open>u\<close>. It is an integer from 2 to 6, and at most 5 for every draw up to \<open>1 - 2\<^sup>-\<^sup>5\<^sup>2\<close>.
\<close>

lemma numArms_draw:
  assumes "unit_draws rnd"
  shows "\<exists>n::int. fst (randInt rnd (Fin 2) (Fin 5) k) = Fin (of_int n) \<and> 2 \<le> n \<and> n \<le> 6
                \<and> (rnd k \<le> 1 - 1 / 2 ^ 52 \<longrightarrow> n \<le> 5)"
proof -
  let ?y1 = "round_nearest 53 (- 1074) (rnd k * 4)"
  let ?y2 = "round_nearest 53 (- 1074) (?y1 + 2)"
  have u: "0 \<le> rnd k" using assms by (simp add: unit_draws_def)
  have e: "randInt rnd (Fin 2) (Fin 5) k = (Fin (of_int \<lfloor>?y2\<rfloor>), Suc k)"
    using randInt_eq(1) [OF assms, of 2 5 k] by simp
  have lo: "2 \<le> ?y2" using randInt_eq(2) [OF assms, of 2 5 k] by simp
  have hi: "?y2 \<le> 6" using randInt_eq(3) [OF assms, of 2 5 k] by simp
  have n: "2 \<le> \<lfloor>?y2\<rfloor>" "\<lfloor>?y2\<rfloor> \<le> 6"
    using lo hi by (simp_all add: le_floor_iff floor_le_iff)
  have top: "\<lfloor>?y2\<rfloor> \<le> 5" if t: "rnd k \<le> 1 - 1 / 2 ^ 52"
  proof -
    have r1: "real_of_int (2 ^ 52 - 1) * 2 powi (- 50) = 4 - 1 / 2 ^ 50"
      by (simp add: power_int_minus field_simps)
    have r2: "real_of_int (6 * 2 ^ 50 - 1) * 2 powi (- 50) = 6 - 1 / 2 ^ 50"
      by (simp add: power_int_minus field_simps)
    have "rnd k * 4 \<le> 4 - 1 / 2 ^ 50" using t by simp
    then have "rnd k * 4 \<le> real_of_int (2 ^ 52 - 1) * 2 powi (- 50)" by (simp only: r1)
    then have "?y1 \<le> real_of_int (2 ^ 52 - 1) * 2 powi (- 50)"
      using u by (intro round_nearest_le_representable0) simp_all
    then have "?y1 + 2 \<le> 6 - 1 / 2 ^ 50" unfolding r1 by simp
    then have "?y1 + 2 \<le> real_of_int (6 * 2 ^ 50 - 1) * 2 powi (- 50)" by (simp only: r2)
    moreover have "0 \<le> ?y1 + 2" using round_nearest_nonneg [of "rnd k * 4" 53 "- 1074"] u by simp
    ultimately have "?y2 \<le> real_of_int (6 * 2 ^ 50 - 1) * 2 powi (- 50)"
      by (intro round_nearest_le_representable0) simp_all
    then have "?y2 < 6" unfolding r2 by simp
    then have "\<lfloor>?y2\<rfloor> < 6" by (simp add: floor_less_iff)
    then show ?thesis by simp
  qed
  show ?thesis using e n top by auto
qed







subsection \<open>The progress of the disintegration\<close>

text \<open>
  The three rounded steps of the progress, on reals: the elapsed milliseconds, the elapsed
  seconds and the quotient by the duration. They stay in the range of the doubles, they do
  not decrease when \<open>now\<close> grows, and each of them loses at most the factor \<open>1 - 2\<^sup>-\<^sup>5\<^sup>3\<close>.
\<close>

lemma progress_steps:
  fixes s d n :: real
  assumes "2 powi (- 500) \<le> d" and "d \<le> 2 powi 500" and "s \<le> n" and "n - s \<le> 2 powi 500"
  shows "0 \<le> round_nearest 53 (- 1074) (n - s)"
    and "round_nearest 53 (- 1074) (n - s) \<le> 2 powi 500"
    and "0 \<le> round_nearest 53 (- 1074) (round_nearest 53 (- 1074) (n - s) / 1000)"
    and "round_nearest 53 (- 1074) (round_nearest 53 (- 1074) (n - s) / 1000) \<le> 2 powi 500"
    and "0 \<le> round_nearest 53 (- 1074) (round_nearest 53 (- 1074) (round_nearest 53 (- 1074) (n - s) / 1000) / d)"
    and "round_nearest 53 (- 1074) (round_nearest 53 (- 1074) (round_nearest 53 (- 1074) (n - s) / 1000) / d)
           \<le> 2 powi 1000"
proof -
  let ?a = "round_nearest 53 (- 1074) (n - s)"
  let ?b = "round_nearest 53 (- 1074) (?a / 1000)"
  let ?c = "round_nearest 53 (- 1074) (?b / d)"
  have dpos: "0 < d" using assms(1) by (rule pow2_le_pos)
  have x0: "0 \<le> n - s" using assms(3) by simp
  show a0: "0 \<le> ?a" using x0 by (rule round_nearest_nonneg)
  have "\<bar>?a\<bar> \<le> 2 powi 500"
    using x0 assms(4) by (intro round_nearest_abs_le_pow2) simp_all
  then show a1: "?a \<le> 2 powi 500" by simp
  have x1: "0 \<le> ?a / 1000" "?a / 1000 \<le> 2 powi 500"
  proof -
    show "0 \<le> ?a / 1000" using a0 by simp
    have "?a / 1000 \<le> ?a" using a0 by simp
    then show "?a / 1000 \<le> 2 powi 500" using a1 by linarith
  qed
  show b0: "0 \<le> ?b" using x1(1) by (rule round_nearest_nonneg)
  have "\<bar>?b\<bar> \<le> 2 powi 500"
    using x1 by (intro round_nearest_abs_le_pow2) simp_all
  then show b1: "?b \<le> 2 powi 500" by simp
  have x2: "0 \<le> ?b / d" "?b / d \<le> 2 powi 1000"
  proof -
    show "0 \<le> ?b / d" using b0 dpos by simp
    have "?b / d \<le> 2 powi 500 / d" using b1 dpos by (simp add: divide_right_mono)
    also have "\<dots> \<le> 2 powi 500 / 2 powi (- 500)"
      using assms(1) by (intro divide_left_mono) simp_all
    also have "\<dots> = 2 powi 1000" by (simp add: power_int_minus power_add [symmetric])
    finally show "?b / d \<le> 2 powi 1000" .
  qed
  show "0 \<le> ?c" using x2(1) by (rule round_nearest_nonneg)
  have "\<bar>?c\<bar> \<le> 2 powi 1000"
    using x2 by (intro round_nearest_abs_le_pow2) simp_all
  then show "?c \<le> 2 powi 1000" by simp
qed

lemma progress_mono_real:
  fixes s d :: real
  assumes "0 < d" and "s \<le> n1" and "n1 \<le> n2"
  shows "round_nearest 53 (- 1074) (round_nearest 53 (- 1074) (round_nearest 53 (- 1074) (n1 - s) / 1000) / d)
       \<le> round_nearest 53 (- 1074) (round_nearest 53 (- 1074) (round_nearest 53 (- 1074) (n2 - s) / 1000) / d)"
proof -
  let ?a1 = "round_nearest 53 (- 1074) (n1 - s)" and ?a2 = "round_nearest 53 (- 1074) (n2 - s)"
  let ?b1 = "round_nearest 53 (- 1074) (?a1 / 1000)" and ?b2 = "round_nearest 53 (- 1074) (?a2 / 1000)"
  have a0: "0 \<le> ?a1" using assms(2) by (intro round_nearest_nonneg) simp
  have a: "?a1 \<le> ?a2" using assms(2,3) by (intro round_nearest_mono_nonneg) simp_all
  have b0: "0 \<le> ?b1" using a0 by (intro round_nearest_nonneg) simp
  have b: "?b1 \<le> ?b2" using a0 a by (intro round_nearest_mono_nonneg) simp_all
  show ?thesis
    using b0 b assms(1) by (intro round_nearest_mono_nonneg) (simp_all add: divide_right_mono)
qed

lemma progress_lower_real:
  fixes s d n :: real
  assumes "2 powi (- 500) \<le> d" and "s + d * 1000 \<le> n"
  shows "1 - 1 / 2 ^ 51
       \<le> round_nearest 53 (- 1074) (round_nearest 53 (- 1074) (round_nearest 53 (- 1074) (n - s) / 1000) / d)"
    and "(n - s) * (1 - 1 / 2 ^ 53) \<le> round_nearest 53 (- 1074) (n - s)"
    and "round_nearest 53 (- 1074) (n - s) / 1000 * (1 - 1 / 2 ^ 53)
           \<le> round_nearest 53 (- 1074) (round_nearest 53 (- 1074) (n - s) / 1000)"
proof -
  let ?e = "1 - 1 / 2 ^ 53 :: real"
  let ?a = "round_nearest 53 (- 1074) (n - s)"
  let ?b = "round_nearest 53 (- 1074) (?a / 1000)"
  let ?c = "round_nearest 53 (- 1074) (?b / d)"
  have dpos: "0 < d" using assms(1) by (rule pow2_le_pos)
  have small: "(2::real) powi (- 1022) \<le> 2 powi (- 502)" "(2::real) powi (- 1022) \<le> 2 powi (- 2)"
    by (simp_all add: pow2_le_iff)
  have d2: "2 powi (- 502) \<le> d / 4"
  proof -
    have "(2::real) powi (- 502) = 2 powi (- 500) / 4" by (simp add: power_int_minus field_simps)
    then show ?thesis using assms(1) by simp
  qed
  have x0: "d * 1000 \<le> n - s" using assms(2) by simp
  have "2 powi (- 1022) \<le> n - s" using x0 d2 small(1) dpos by linarith
  then show a: "(n - s) * ?e \<le> ?a" by (rule round_nearest_double_lower)
  have "d * 1000 * ?e \<le> (n - s) * ?e" using x0 by (intro mult_right_mono) simp_all
  then have a1: "d * ?e \<le> ?a / 1000" using a by simp
  have "d / 4 \<le> d * ?e" using dpos by simp
  then have "2 powi (- 1022) \<le> ?a / 1000" using a1 d2 small(1) by linarith
  then show b: "?a / 1000 * ?e \<le> ?b" by (rule round_nearest_double_lower)
  have "d * ?e * ?e \<le> ?a / 1000 * ?e" using a1 by (intro mult_right_mono) simp_all
  then have b1: "d * (?e * ?e) \<le> ?b" using b by (simp add: mult.assoc)
  then have b2: "?e * ?e \<le> ?b / d" using dpos by (simp add: le_divide_eq mult.commute)
  have "(2::real) powi (- 2) \<le> ?e * ?e" by (simp add: power_int_minus)
  then have "2 powi (- 1022) \<le> ?b / d" using b2 small(2) by linarith
  then have c: "?b / d * ?e \<le> ?c" by (rule round_nearest_double_lower)
  have "?e * ?e * ?e \<le> ?b / d * ?e" using b2 by (intro mult_right_mono) simp_all
  moreover have "1 - 1 / 2 ^ 51 \<le> ?e * ?e * ?e" by simp
  ultimately show "1 - 1 / 2 ^ 51 \<le> ?c" using c by linarith
qed

lemma progress_one_real:
  fixes s d n :: real
  assumes "2 powi (- 500) \<le> d" and "s + d * 1000 * (1 + 1 / 2 ^ 51) \<le> n"
  shows "1 \<le> round_nearest 53 (- 1074) (round_nearest 53 (- 1074) (round_nearest 53 (- 1074) (n - s) / 1000) / d)"
proof -
  let ?e = "1 - 1 / 2 ^ 53 :: real"
  let ?m = "1 + 1 / 2 ^ 51 :: real"
  let ?a = "round_nearest 53 (- 1074) (n - s)"
  let ?b = "round_nearest 53 (- 1074) (?a / 1000)"
  let ?c = "round_nearest 53 (- 1074) (?b / d)"
  have dpos: "0 < d" using assms(1) by (rule pow2_le_pos)
  have "d * 1000 * 1 \<le> d * 1000 * ?m" using dpos by (intro mult_left_mono) simp_all
  then have w: "s + d * 1000 \<le> n" using assms(2) by simp
  note l = progress_lower_real [OF assms(1) w]
  have "d * 1000 * ?m \<le> n - s" using assms(2) by simp
  then have "d * 1000 * ?m * ?e \<le> (n - s) * ?e" by (intro mult_right_mono) simp_all
  then have "d * ?m * ?e \<le> ?a / 1000" using l(2) by simp
  then have "d * ?m * ?e * ?e \<le> ?a / 1000 * ?e" by (intro mult_right_mono) simp_all
  then have "d * (?m * ?e * ?e) \<le> ?b" using l(3) by (simp add: mult.assoc)
  moreover have "1 \<le> ?m * ?e * ?e" by simp
  then have "d * 1 \<le> d * (?m * ?e * ?e)" using dpos by (intro mult_left_mono) simp_all
  ultimately have "d \<le> ?b" by simp
  then have "2 powi 0 \<le> ?b / d" using dpos by simp
  then have "2 powi 0 \<le> ?c" by (rule round_nearest_ge_pow2') simp_all
  then show "1 \<le> ?c" by simp
qed

lemma progress_eq:
  assumes "2 powi (- 500) \<le> d" and "d \<le> 2 powi 500" and "s \<le> n" and "n - s \<le> 2 powi 500"
  shows "disintegration_progress (Fin n) (Fin s) (Fin d)
           = Fin (min 1 (round_nearest 53 (- 1074)
                 (round_nearest 53 (- 1074) (round_nearest 53 (- 1074) (n - s) / 1000) / d)))"
proof -
  let ?a = "round_nearest 53 (- 1074) (n - s)"
  let ?b = "round_nearest 53 (- 1074) (?a / 1000)"
  let ?c = "round_nearest 53 (- 1074) (?b / d)"
  note st = progress_steps [OF assms]
  have d0: "d \<noteq> 0" using pow2_le_pos [OF assms(1)] by simp
  have a: "to_double (Fin n - Fin s) = Fin ?a"
    using to_double_Fin_nonneg [of "n - s" 500] assms(3,4) by simp
  have b: "to_double (Fin ?a / Fin 1000) = Fin ?b"
  proof -
    have "?a / 1000 \<le> ?a" using st(1) by simp
    then have "?a / 1000 \<le> 2 powi 500" using st(2) by linarith
    then show ?thesis using to_double_Fin_nonneg [of "?a / 1000" 500] st(1) by simp
  qed
  have c: "to_double (Fin ?b / Fin d) = Fin ?c"
  proof -
    have dpos: "0 < d" using assms(1) by (rule pow2_le_pos)
    have "?b / d \<le> 2 powi 500 / d" using st(4) dpos by (simp add: divide_right_mono)
    also have "\<dots> \<le> 2 powi 500 / 2 powi (- 500)"
      using assms(1) by (intro divide_left_mono) simp_all
    also have "\<dots> = 2 powi 1000" by (simp add: power_int_minus power_add [symmetric])
    finally have "?b / d \<le> 2 powi 1000" .
    moreover have "0 \<le> ?b / d" using st(3) dpos by simp
    ultimately show ?thesis using to_double_Fin_nonneg [of "?b / d" 1000] d0 by simp
  qed
  show ?thesis
    unfolding disintegration_progress_def Let_def a b c by simp
qed

lemma sample_elapsed_ms: "round_nearest 53 (- 1074) (2500 + 125 / 2 ^ 42) = 2500 + 62 / 2 ^ 41"
proof -
  have y: "(2500 + 125 / 2 ^ 42) / 2 powi (11 - int 53 + 1) = (10995116277760125 / 2 :: real)"
    by (simp add: power_int_minus field_simps)
  have f: "\<lfloor>10995116277760125 / 2 :: real\<rfloor> = 5497558138880062" by simp
  show ?thesis
    by (subst round_nearest_eval' [where e = 11, OF _ _ _ y f]) (simp_all add: power_int_minus)
qed

lemma sample_elapsed_s: "round_nearest 53 (- 1074) ((2500 + 62 / 2 ^ 41) / 1000) = 5 / 2 + 63 / 2 ^ 51"
proof -
  have y: "((2500 + 62 / 2 ^ 41) / 1000) / 2 powi (1 - int 53 + 1) = (703687441776647936 / 125 :: real)"
    by (simp add: power_int_minus field_simps)
  have f: "\<lfloor>703687441776647936 / 125 :: real\<rfloor> = 5629499534213183" by simp
  show ?thesis
    by (subst round_nearest_eval' [where e = 1, OF _ _ _ y f]) (simp_all add: power_int_minus)
qed

lemma sample_quotient: "round_nearest 53 (- 1074) ((5 / 2 + 63 / 2 ^ 51) / (5 / 2 + 1 / 2 ^ 45)) = 1 - 1 / 2 ^ 52"
proof -
  have y: "((5 / 2 + 63 / 2 ^ 51) / (5 / 2 + 1 / 2 ^ 45)) / 2 powi (- 1 - int 53 + 1)
             = (792281625142652242397205889024 / 87960930222081 :: real)"
    by (simp add: power_int_minus field_simps)
  have f: "\<lfloor>792281625142652242397205889024 / 87960930222081 :: real\<rfloor> = 9007199254740990" by simp
  show ?thesis
    by (subst round_nearest_eval' [where e = "- 1", OF _ _ _ y f]) (simp_all add: power_int_minus)
qed

text \<open>
  Claim C3 says that the progress is exactly 1 for every \<open>now \<ge> startTime + duration \<times> 1000\<close>.
  With the start time \<open>1024 + 2\<^sup>-\<^sup>4\<^sup>2\<close>, the duration \<open>2.5 + 2\<^sup>-\<^sup>4\<^sup>5\<close> and
  \<open>now = 3524 + 63 \<times> 2\<^sup>-\<^sup>4\<^sup>1\<close>, three doubles with \<open>now = startTime + duration \<times> 1000\<close>, the
  difference \<open>now - startTime = 2500 + 125 \<times> 2\<^sup>-\<^sup>4\<^sup>2\<close> lies half way between two doubles and is
  rounded down, the elapsed seconds come out one unit in the last place below the duration,
  and the progress is \<open>1 - 2\<^sup>-\<^sup>5\<^sup>2\<close>: the frame loop does not dispose the instance at this
  \<open>now\<close>.
\<close>

theorem progress_below_one_counterexample:
  "(1024 + 1 / 2 ^ 42) + (5 / 2 + 1 / 2 ^ 45) * 1000 \<le> (3524 + 63 / 2 ^ 41 :: real)
   \<and> disintegration_progress (Fin (3524 + 63 / 2 ^ 41)) (Fin (1024 + 1 / 2 ^ 42))
        (Fin (5 / 2 + 1 / 2 ^ 45)) = Fin (1 - 1 / 2 ^ 52)"
proof -
  have h: "2 powi (- 500) \<le> (5 / 2 + 1 / 2 ^ 45 :: real)" "(5 / 2 + 1 / 2 ^ 45 :: real) \<le> 2 powi 500"
    "(1024 + 1 / 2 ^ 42 :: real) \<le> 3524 + 63 / 2 ^ 41"
    "(3524 + 63 / 2 ^ 41) - (1024 + 1 / 2 ^ 42) \<le> (2 powi 500 :: real)"
    by (simp_all add: power_int_minus)
  have x: "(3524 + 63 / 2 ^ 41) - (1024 + 1 / 2 ^ 42) = (2500 + 125 / 2 ^ 42 :: real)" by simp
  have "disintegration_progress (Fin (3524 + 63 / 2 ^ 41)) (Fin (1024 + 1 / 2 ^ 42))
        (Fin (5 / 2 + 1 / 2 ^ 45)) = Fin (1 - 1 / 2 ^ 52)"
    unfolding progress_eq [OF h] x sample_elapsed_ms sample_elapsed_s sample_quotient by simp
  then show ?thesis by simp
qed

text \<open>
  Claim C3, amended. For a fixed start time and a duration \<open>d\<close> (in seconds, between
  \<open>2\<^sup>-\<^sup>5\<^sup>0\<^sup>0\<close> and \<open>2\<^sup>5\<^sup>0\<^sup>0\<close>, which the durations \<open>[2, 4.5]\<close> of the program are), and for the
  values of \<open>now\<close> from the start time on, the progress that the frame loop computes does
  not decrease when \<open>now\<close> grows and is never above 1; it is at least \<open>1 - 2\<^sup>-\<^sup>5\<^sup>1\<close> for every
  \<open>now \<ge> startTime + d \<times> 1000\<close> milliseconds, and exactly 1 for every
  \<open>now \<ge> startTime + d \<times> 1000 \<times> (1 + 2\<^sup>-\<^sup>5\<^sup>1)\<close>.
\<close>

theorem progress_monotone_reaches_one:
  assumes "2 powi (- 500) \<le> d" and "d \<le> 2 powi 500"
      and "s \<le> n1" and "n1 \<le> n2" and "n2 - s \<le> 2 powi 500"
  shows "disintegration_progress (Fin n1) (Fin s) (Fin d)
           \<le> disintegration_progress (Fin n2) (Fin s) (Fin d)
       \<and> disintegration_progress (Fin n2) (Fin s) (Fin d) \<le> Fin 1
       \<and> (s + d * 1000 \<le> n2 \<longrightarrow>
            Fin (1 - 1 / 2 ^ 51) \<le> disintegration_progress (Fin n2) (Fin s) (Fin d))
       \<and> (s + d * 1000 * (1 + 1 / 2 ^ 51) \<le> n2 \<longrightarrow>
            disintegration_progress (Fin n2) (Fin s) (Fin d) = Fin 1)"
proof -
  have dpos: "0 < d" using assms(1) by (rule pow2_le_pos)
  have h2: "s \<le> n2" using assms(3,4) by simp
  have h1: "n1 - s \<le> 2 powi 500" using assms(4,5) by simp
  note p1 = progress_eq [OF assms(1,2,3) h1]
  note p2 = progress_eq [OF assms(1,2) h2 assms(5)]
  let ?c1 = "round_nearest 53 (- 1074)
               (round_nearest 53 (- 1074) (round_nearest 53 (- 1074) (n1 - s) / 1000) / d)"
  let ?c2 = "round_nearest 53 (- 1074)
               (round_nearest 53 (- 1074) (round_nearest 53 (- 1074) (n2 - s) / 1000) / d)"
  have m: "?c1 \<le> ?c2" by (rule progress_mono_real [OF dpos assms(3,4)])
  show ?thesis
  proof (intro conjI impI)
    show "disintegration_progress (Fin n1) (Fin s) (Fin d)
            \<le> disintegration_progress (Fin n2) (Fin s) (Fin d)"
      unfolding p1 p2 using m by (simp add: min_le_iff_disj)
    show "disintegration_progress (Fin n2) (Fin s) (Fin d) \<le> Fin 1"
      unfolding p2 by simp
  next
    assume "s + d * 1000 \<le> n2"
    then have "1 - 1 / 2 ^ 51 \<le> ?c2" by (rule progress_lower_real(1) [OF assms(1)])
    moreover have "1 - 1 / 2 ^ 51 \<le> (1::real)" by simp
    ultimately have "1 - 1 / 2 ^ 51 \<le> min 1 ?c2" by (simp only: min_def split: if_splits) simp
    then show "Fin (1 - 1 / 2 ^ 51) \<le> disintegration_progress (Fin n2) (Fin s) (Fin d)"
      unfolding p2 by (simp only: less_eq_jsnum.simps)
  next
    assume "s + d * 1000 * (1 + 1 / 2 ^ 51) \<le> n2"
    then have "1 \<le> ?c2" by (rule progress_one_real [OF assms(1)])
    then have "min 1 ?c2 = 1" by simp
    then show "disintegration_progress (Fin n2) (Fin s) (Fin d) = Fin 1"
      unfolding p2 by simp
  qed
qed

theorem progress_monotone_reaches_one_witness:
  "2 powi (- 500) \<le> (2::real) \<and> (2::real) \<le> 2 powi 500
   \<and> (0::real) \<le> 1000 \<and> (1000::real) \<le> 2001 \<and> (2001::real) - 0 \<le> 2 powi 500
   \<and> (0::real) + 2 * 1000 * (1 + 1 / 2 ^ 51) \<le> 2001
   \<and> disintegration_progress (Fin 1000) (Fin 0) (Fin 2)
        \<le> disintegration_progress (Fin 2001) (Fin 0) (Fin 2)
   \<and> Fin (1 - 1 / 2 ^ 51) \<le> disintegration_progress (Fin 2001) (Fin 0) (Fin 2)
   \<and> disintegration_progress (Fin 2001) (Fin 0) (Fin 2) = Fin 1"
proof -
  have h: "2 powi (- 500) \<le> (2::real)" "(2::real) \<le> 2 powi 500"
    "(0::real) \<le> 1000" "(1000::real) \<le> 2001" "(2001::real) - 0 \<le> 2 powi 500"
    by (simp_all add: power_int_minus)
  have t: "(0::real) + 2 * 1000 \<le> 2001" "(0::real) + 2 * 1000 * (1 + 1 / 2 ^ 51) \<le> 2001"
    by simp_all
  show ?thesis
    using h t progress_monotone_reaches_one [OF h] by blast
qed

subsection \<open>The radial distance of a point\<close>

text \<open>
  Claim C6 says that the radial distance of a point, before the edge extension, is
  \<open>progress\<^sup>p\<close> times the radius, with \<open>p = 1.6\<close> for a star and \<open>p = 1.3\<close> for a dust point.
  For a dust point the source computes something else: at the draw 0 and the radius 1 the
  distance is 0.05, where the claim gives 0.
\<close>

theorem dust_radial_base_counterexample:
  "snd (fst (dust_radial_base (\<lambda>_. 0) sample_params 0)) = Fin 0.05
   \<and> Math_pow (Fin 0) 1.3 * radius sample_params = Fin 0"
  by (simp add: dust_radial_base_def Math_random_def sample_params_def)

text \<open>
  Claim C6, amended. For every draw \<open>progress\<close> from \<open>[0, 1)\<close> and every finite radius, the
  radial distance before the edge extension is \<open>progress\<^sup>1\<^sup>.\<^sup>6 \<times> radius\<close> for a star point, and
  \<open>progress\<^sup>1\<^sup>.\<^sup>3 \<times> radius \<times> 0.95 + radius \<times> 0.05\<close> for a dust point.
\<close>

theorem radial_distance_before_extension:
  assumes "unit_draws rnd" and "radius params = Fin R"
  shows "star_radial_base rnd params k = ((Fin (rnd k), Fin (rnd k powr 1.6 * R)), Suc k)
       \<and> dust_radial_base rnd params k
           = ((Fin (rnd k), Fin (rnd k powr 1.3 * R * 0.95 + R * 0.05)), Suc k)"
proof -
  have "0 \<le> rnd k" using assms(1) by (simp add: unit_draws_def)
  then show ?thesis
    using assms(2)
    by (simp add: star_radial_base_def dust_radial_base_def Math_random_def Math_pow_Fin
             del: Math_pow.simps)
qed

theorem radial_distance_before_extension_witness:
  "unit_draws (\<lambda>_. 1 / 2) \<and> radius sample_params = Fin 1
   \<and> star_radial_base (\<lambda>_. 1 / 2) sample_params 0 = ((Fin (1 / 2), Fin ((1 / 2) powr 1.6 * 1)), Suc 0)
   \<and> dust_radial_base (\<lambda>_. 1 / 2) sample_params 0
       = ((Fin (1 / 2), Fin ((1 / 2) powr 1.3 * 1 * 0.95 + 1 * 0.05)), Suc 0)"
proof -
  have b: "radius sample_params = Fin 1" by (simp add: sample_params_def)
  show ?thesis
    using unit_draws_half b radial_distance_before_extension [OF unit_draws_half b, of 0] by simp
qed

subsection \<open>The frame loop\<close>

lemma unit_draws_range:
  assumes "unit_draws rnd" and "a \<le> b"
  shows "a \<le> rnd k * (b - a) + a" and "rnd k * (b - a) + a \<le> b"
proof -
  have u: "0 \<le> rnd k" "rnd k < 1" using assms(1) by (simp_all add: unit_draws_def)
  show "a \<le> rnd k * (b - a) + a" "rnd k * (b - a) + a \<le> b"
    using rand_range [OF u assms(2)] by simp_all
qed

lemma jsnum_times_one [simp]: "x * Fin 1 = (x::jsnum)"
  by (cases x) simp_all


lemma rotate_instance_eq:
  "rotate_instance rnd w inst k =
     (set_y_rotations
        (vy (rotation (group inst))
           + baseOrbitSpeed inst * galaxyOrbitSpeedMultiplierRefCurrent w * Fin 100)
        (vy (rotation (starSystem inst))
           + baseArmSpeed inst * armInternalSpeedMultiplierRefCurrent w * Fin 100)
        (case dustSystem inst of
           None \<Rightarrow> NaN
         | Some d \<Rightarrow> vy (rotation d)
             + baseArmSpeed inst * armInternalSpeedMultiplierRefCurrent w * Fin 100
               * Fin (rnd k * (1.1 - 0.9) + 0.9))
        inst,
      case dustSystem inst of None \<Rightarrow> k | Some d \<Rightarrow> Suc k)"
  by (cases "dustSystem inst")
     (simp_all add: rotate_instance_def set_y_rotations_def add_rotation_y_def Let_def)

lemma set_y_rotations_fields [simp]:
  "disintegrationTriggerTime (set_y_rotations a b c inst) = disintegrationTriggerTime inst"
  "disintegrationDelay (set_y_rotations a b c inst) = disintegrationDelay inst"
  "isDisintegrating (set_y_rotations a b c inst) = isDisintegrating inst"
  "disintegrationAnimationStartTime (set_y_rotations a b c inst) = disintegrationAnimationStartTime inst"
  "disintegrationDuration (set_y_rotations a b c inst) = disintegrationDuration inst"
  "disintegrationTargetCamPos (set_y_rotations a b c inst) = disintegrationTargetCamPos inst"
  "disintegrationInitialGroupPos (set_y_rotations a b c inst) = disintegrationInitialGroupPos inst"
  "disintegrationRandomScaleFactor (set_y_rotations a b c inst) = disintegrationRandomScaleFactor inst"
  "originalStarMaterialOpacity (set_y_rotations a b c inst) = originalStarMaterialOpacity inst"
  "originalDustMaterialOpacity (set_y_rotations a b c inst) = originalDustMaterialOpacity inst"
  "baseOrbitSpeed (set_y_rotations a b c inst) = baseOrbitSpeed inst"
  "baseArmSpeed (set_y_rotations a b c inst) = baseArmSpeed inst"
  "position (group (set_y_rotations a b c inst)) = position (group inst)"
  "scale (group (set_y_rotations a b c inst)) = scale (group inst)"
  "vy (rotation (group (set_y_rotations a b c inst))) = a"
  "vy (rotation (starSystem (set_y_rotations a b c inst))) = b"
  "scale (starSystem (set_y_rotations a b c inst)) = scale (starSystem inst)"
  "materialOpacity (starSystem (set_y_rotations a b c inst)) = materialOpacity (starSystem inst)"
  "map_option scale (dustSystem (set_y_rotations a b c inst)) = map_option scale (dustSystem inst)"
  "map_option materialOpacity (dustSystem (set_y_rotations a b c inst))
     = map_option materialOpacity (dustSystem inst)"
  "map_option (\<lambda>d. vy (rotation d)) (dustSystem (set_y_rotations a b c inst))
     = map_option (\<lambda>d. c) (dustSystem inst)"
  by (simp_all add: set_y_rotations_def option.map_comp comp_def)

lemma start_disintegration_rotation:
  "rotation (group (fst (start_disintegration rnd now w inst k))) = rotation (group inst)"
  "rotation (starSystem (fst (start_disintegration rnd now w inst k))) = rotation (starSystem inst)"
  "map_option rotation (dustSystem (fst (start_disintegration rnd now w inst k)))
     = map_option rotation (dustSystem inst)"
  by (simp_all add: start_disintegration_def Let_def split_def split: option.splits)

lemma disintegrate_rotation:
  "rotation (group (fst (disintegrate now w inst))) = rotation (group inst)"
  "rotation (starSystem (fst (disintegrate now w inst))) = rotation (starSystem inst)"
  "map_option rotation (dustSystem (fst (disintegrate now w inst)))
     = map_option rotation (dustSystem inst)"
  by (simp_all add: disintegrate_def Let_def split_def split: option.splits)

lemma update_instance_fst:
  "fst (fst (update_instance rnd now w inst k))
     = fst (disintegrate now w
         (fst (start_disintegration rnd now w (fst (rotate_instance rnd w inst k))
                (snd (rotate_instance rnd w inst k)))))"
  by (simp add: update_instance_def split_def Let_def)

lemma map_option_vy:
  "map_option rotation x = map_option rotation y
    \<Longrightarrow> map_option (\<lambda>d. vy (rotation d)) x = map_option (\<lambda>d. vy (rotation d)) y"
  by (cases x; cases y) simp_all

lemma start_disintegration_skip:
  "isDisintegrating i \<Longrightarrow> start_disintegration rnd now w i k = (i, k)"
  "disintegrationTriggerTime i = None \<Longrightarrow> start_disintegration rnd now w i k = (i, k)"
  by (simp_all add: start_disintegration_def split: option.splits)

lemma disintegrate_idle:
  "\<not> isDisintegrating i \<Longrightarrow> disintegrate now w i = (i, True, w)"
  by (simp add: disintegrate_def split: option.splits)


lemma map_option_const_comp [simp]:
  "map_option (\<lambda>_. v) (dustSystem (set_y_rotations a b c inst)) = map_option (\<lambda>_. v) (dustSystem inst)"
  by (simp add: set_y_rotations_def option.map_comp comp_def)

lemma faded_opacity_values:
  "faded_opacity (Fin a) (Fin 0) = Fin a"
  "faded_opacity (Fin a) (Fin 0.5) = Fin (0.75 * a)"
  "faded_opacity (Fin a) (Fin 1) = Fin 0"
  by (simp_all add: faded_opacity_def)



lemma progress_samples:
  "disintegration_progress (Fin 2000) (Fin 1000) (Fin 2) = Fin (1 / 2)"
  "disintegration_progress (Fin 4000) (Fin 1000) (Fin 2) = Fin 1"
proof -
  have t: "to_double (Fin (3 / 2)) = Fin (3 / 2)"
    by (rule to_double_exact [where m = 3 and e = "- 1"]) (simp_all add: power_int_minus)
  show "disintegration_progress (Fin 2000) (Fin 1000) (Fin 2) = Fin (1 / 2)"
    "disintegration_progress (Fin 4000) (Fin 1000) (Fin 2) = Fin 1"
    by (simp_all add: disintegration_progress_def to_double_numeral to_double_half t)
qed

lemma update_instance_active:
  assumes "disintegrationTriggerTime inst = None" and "\<not> isDisintegrating inst"
  shows "\<exists>a b c k'. update_instance rnd now w inst k = ((set_y_rotations a b c inst, True), w, k')"
proof -
  let ?r = "fst (rotate_instance rnd w inst k)"
  let ?k1 = "snd (rotate_instance rnd w inst k)"
  have r: "disintegrationTriggerTime ?r = None" "\<not> isDisintegrating ?r"
    using assms by (simp_all add: rotate_instance_eq)
  have "update_instance rnd now w inst k = ((?r, True), w, ?k1)"
    by (simp add: update_instance_def split_def Let_def
          start_disintegration_skip(2) [OF r(1)] disintegrate_idle [OF r(2)])
  then show ?thesis
    unfolding rotate_instance_eq fst_conv snd_conv by blast
qed

lemma animate_instances_acc:
  "x \<in> set acc \<Longrightarrow> x \<in> set (fst (animate_instances rnd now insts acc w k))"
  by (induction insts arbitrary: acc w k) (simp_all split: prod.splits)

lemma animate_instances_keeps_active:
  assumes "inst \<in> set insts"
      and "disintegrationTriggerTime inst = None" and "\<not> isDisintegrating inst"
  shows "\<exists>a b c. set_y_rotations a b c inst \<in> set (fst (animate_instances rnd now insts acc w k))"
  using assms(1)
proof (induction insts arbitrary: acc w k)
  case Nil
  then show ?case by simp
next
  case (Cons i rest)
  show ?case
  proof (cases "inst = i")
    case True
    obtain a b c k' where
      u: "update_instance rnd now w i k = ((set_y_rotations a b c inst, True), w, k')"
      using update_instance_active [OF assms(2,3), of rnd now w k] True by blast
    have "set_y_rotations a b c inst
            \<in> set (fst (animate_instances rnd now rest (acc @ [set_y_rotations a b c inst]) w k'))"
      by (rule animate_instances_acc) simp
    then show ?thesis using u by auto
  next
    case False
    then have "inst \<in> set rest" using Cons.prems by simp
    from Cons.IH [OF this] show ?thesis
      by (simp split: prod.splits)
  qed
qed

lemma update_instance_rotation:
  "vy (rotation (group (fst (fst (update_instance rnd now w inst k)))))
     = vy (rotation (group inst))
       + baseOrbitSpeed inst * galaxyOrbitSpeedMultiplierRefCurrent w * Fin 100"
  "vy (rotation (starSystem (fst (fst (update_instance rnd now w inst k)))))
     = vy (rotation (starSystem inst))
       + baseArmSpeed inst * armInternalSpeedMultiplierRefCurrent w * Fin 100"
  "map_option (\<lambda>d. vy (rotation d)) (dustSystem (fst (fst (update_instance rnd now w inst k))))
     = map_option (\<lambda>d. vy (rotation d)
          + baseArmSpeed inst * armInternalSpeedMultiplierRefCurrent w * Fin 100
            * Fin (rnd k * (1.1 - 0.9) + 0.9))
         (dustSystem inst)"
proof -
  let ?r = "fst (rotate_instance rnd w inst k)"
  show "vy (rotation (group (fst (fst (update_instance rnd now w inst k)))))
     = vy (rotation (group inst))
       + baseOrbitSpeed inst * galaxyOrbitSpeedMultiplierRefCurrent w * Fin 100"
    by (simp add: update_instance_fst disintegrate_rotation start_disintegration_rotation rotate_instance_eq)
  show "vy (rotation (starSystem (fst (fst (update_instance rnd now w inst k)))))
     = vy (rotation (starSystem inst))
       + baseArmSpeed inst * armInternalSpeedMultiplierRefCurrent w * Fin 100"
    by (simp add: update_instance_fst disintegrate_rotation start_disintegration_rotation rotate_instance_eq)
  have d: "map_option (\<lambda>d. vy (rotation d)) (dustSystem (fst (fst (update_instance rnd now w inst k))))
             = map_option (\<lambda>d. vy (rotation d)) (dustSystem ?r)"
    unfolding update_instance_fst
    by (intro map_option_vy) (simp add: disintegrate_rotation start_disintegration_rotation)
  have d2: "map_option (\<lambda>d. vy (rotation d)) (dustSystem ?r)
             = map_option (\<lambda>d. vy (rotation d)
                    + baseArmSpeed inst * armInternalSpeedMultiplierRefCurrent w * Fin 100
                      * Fin (rnd k * (1.1 - 0.9) + 0.9))
                   (dustSystem inst)"
    by (cases "dustSystem inst") (simp_all add: rotate_instance_eq)
  show "map_option (\<lambda>d. vy (rotation d)) (dustSystem (fst (fst (update_instance rnd now w inst k))))
     = map_option (\<lambda>d. vy (rotation d)
          + baseArmSpeed inst * armInternalSpeedMultiplierRefCurrent w * Fin 100
            * Fin (rnd k * (1.1 - 0.9) + 0.9))
         (dustSystem inst)"
    using d d2 by simp
qed

lemma release_instance_multipliers [simp]:
  "galaxyOrbitSpeedMultiplierRefCurrent (release_instance inst w) = galaxyOrbitSpeedMultiplierRefCurrent w"
  "armInternalSpeedMultiplierRefCurrent (release_instance inst w) = armInternalSpeedMultiplierRefCurrent w"
  by (simp_all add: release_instance_def disposePoints_def scene_remove_def Let_def split: option.splits)

lemma update_instance_multipliers:
  "galaxyOrbitSpeedMultiplierRefCurrent (fst (snd (update_instance rnd now w inst k)))
     = galaxyOrbitSpeedMultiplierRefCurrent w"
  "armInternalSpeedMultiplierRefCurrent (fst (snd (update_instance rnd now w inst k)))
     = armInternalSpeedMultiplierRefCurrent w"
  by (simp_all add: update_instance_def disintegrate_def split_def Let_def split: option.splits)

lemma length_frame_updates [simp]: "length (frame_updates rnd now insts w k) = length insts"
  by (induction insts arbitrary: w k) (simp_all add: split_def)

lemma frame_updates_Nil_iff [simp]: "frame_updates rnd now insts w k = [] \<longleftrightarrow> insts = []"
  by (cases insts) (simp_all add: split_def)

lemma animate_instances_updates:
  "animate_instances rnd now insts acc w k
     = (acc @ map (\<lambda>u. fst (fst u)) (filter (\<lambda>u. snd (fst u)) (frame_updates rnd now insts w k)),
        if insts = [] then (w, k) else snd (last (frame_updates rnd now insts w k)))"
  by (induction insts arbitrary: acc w k) (simp_all add: split_def)

lemma frame_updates_nth:
  assumes "i < length insts"
  shows "\<exists>w' k'. frame_updates rnd now insts w k ! i = update_instance rnd now w' (insts ! i) k'
           \<and> galaxyOrbitSpeedMultiplierRefCurrent w' = galaxyOrbitSpeedMultiplierRefCurrent w
           \<and> armInternalSpeedMultiplierRefCurrent w' = armInternalSpeedMultiplierRefCurrent w"
  using assms
proof (induction insts arbitrary: i w k)
  case Nil
  then show ?case by simp
next
  case (Cons inst rest)
  show ?case
  proof (cases i)
    case 0
    then show ?thesis by (auto simp: split_def)
  next
    case (Suc j)
    then have j: "j < length rest" using Cons.prems by simp
    let ?w = "fst (snd (update_instance rnd now w inst k))"
    let ?k = "snd (snd (update_instance rnd now w inst k))"
    obtain w' k' where
      "frame_updates rnd now rest ?w ?k ! j = update_instance rnd now w' (rest ! j) k'"
      "galaxyOrbitSpeedMultiplierRefCurrent w' = galaxyOrbitSpeedMultiplierRefCurrent ?w"
      "armInternalSpeedMultiplierRefCurrent w' = armInternalSpeedMultiplierRefCurrent ?w"
      using Cons.IH [OF j, of ?w ?k] by blast
    then show ?thesis
      using Suc by (auto simp: split_def update_instance_multipliers)
  qed
qed

text \<open>
  Claim C4. A frame updates every instance of the collection, one after the other and none
  skipped: the state and the count of draws after the frame are those that the last update
  leaves, and the collection after the frame holds the updated instances that are kept, in
  their order. The update of an instance, whatever its phase, and also when the update
  disposes it, adds \<open>baseOrbitSpeed \<times> orbitMultiplier \<times> 100\<close> to the rotation of its group
  about the vertical axis, \<open>baseArmSpeed \<times> armMultiplier \<times> 100\<close> to that of its star cloud,
  and, when there is a dust cloud, \<open>baseArmSpeed \<times> armMultiplier \<times> 100 \<times> j\<close> to that of the
  dust cloud, where \<open>j = 0.9 + 0.2 u\<close> (that is \<^verbatim>\<open>rand(0.9, 1.1)\<close>) for the draw \<open>u\<close> at
  which the update starts, a factor in \<open>[0.9, 1.1]\<close>.
\<close>

theorem rotation_always_applied:
  assumes "unit_draws rnd"
  shows "length (frame_updates rnd now (galaxyInstancesRef w) w k) = length (galaxyInstancesRef w)
       \<and> animate rnd now w k
           = (fst (if galaxyInstancesRef w = [] then (w, k)
                   else snd (last (frame_updates rnd now (galaxyInstancesRef w) w k)))
                \<lparr> galaxyInstancesRef :=
                    map (\<lambda>u. fst (fst u))
                      (filter (\<lambda>u. snd (fst u)) (frame_updates rnd now (galaxyInstancesRef w) w k)) \<rparr>,
              snd (if galaxyInstancesRef w = [] then (w, k)
                   else snd (last (frame_updates rnd now (galaxyInstancesRef w) w k))))
       \<and> (\<forall>i < length (galaxyInstancesRef w).
            \<exists>w' k' j.
              frame_updates rnd now (galaxyInstancesRef w) w k ! i
                = update_instance rnd now w' (galaxyInstancesRef w ! i) k'
            \<and> j = rnd k' * (1.1 - 0.9) + 0.9 \<and> 0.9 \<le> j \<and> j \<le> 1.1
            \<and> vy (rotation (group (fst (fst (frame_updates rnd now (galaxyInstancesRef w) w k ! i)))))
                = vy (rotation (group (galaxyInstancesRef w ! i)))
                  + baseOrbitSpeed (galaxyInstancesRef w ! i)
                    * galaxyOrbitSpeedMultiplierRefCurrent w * Fin 100
            \<and> vy (rotation (starSystem (fst (fst (frame_updates rnd now (galaxyInstancesRef w) w k ! i)))))
                = vy (rotation (starSystem (galaxyInstancesRef w ! i)))
                  + baseArmSpeed (galaxyInstancesRef w ! i)
                    * armInternalSpeedMultiplierRefCurrent w * Fin 100
            \<and> map_option (\<lambda>d. vy (rotation d))
                  (dustSystem (fst (fst (frame_updates rnd now (galaxyInstancesRef w) w k ! i))))
                = map_option (\<lambda>d. vy (rotation d)
                      + baseArmSpeed (galaxyInstancesRef w ! i)
                        * armInternalSpeedMultiplierRefCurrent w * Fin 100 * Fin j)
                    (dustSystem (galaxyInstancesRef w ! i)))"
proof (intro conjI allI impI)
  show "length (frame_updates rnd now (galaxyInstancesRef w) w k) = length (galaxyInstancesRef w)"
    by simp
  show "animate rnd now w k
           = (fst (if galaxyInstancesRef w = [] then (w, k)
                   else snd (last (frame_updates rnd now (galaxyInstancesRef w) w k)))
                \<lparr> galaxyInstancesRef :=
                    map (\<lambda>u. fst (fst u))
                      (filter (\<lambda>u. snd (fst u)) (frame_updates rnd now (galaxyInstancesRef w) w k)) \<rparr>,
              snd (if galaxyInstancesRef w = [] then (w, k)
                   else snd (last (frame_updates rnd now (galaxyInstancesRef w) w k))))"
    unfolding animate_def animate_instances_updates by (simp add: split_def)
next
  fix i
  assume i: "i < length (galaxyInstancesRef w)"
  obtain w' k' where u:
    "frame_updates rnd now (galaxyInstancesRef w) w k ! i
       = update_instance rnd now w' (galaxyInstancesRef w ! i) k'"
    "galaxyOrbitSpeedMultiplierRefCurrent w' = galaxyOrbitSpeedMultiplierRefCurrent w"
    "armInternalSpeedMultiplierRefCurrent w' = armInternalSpeedMultiplierRefCurrent w"
    using frame_updates_nth [OF i, of rnd now w k] by blast
  have j: "0.9 \<le> rnd k' * (1.1 - 0.9) + 0.9" "rnd k' * (1.1 - 0.9) + 0.9 \<le> 1.1"
    using unit_draws_range [OF assms, of "0.9" "1.1" k'] by simp_all
  note r = update_instance_rotation [of rnd now w' "galaxyInstancesRef w ! i" k', unfolded u(2,3)]
  show "\<exists>w' k' j.
              frame_updates rnd now (galaxyInstancesRef w) w k ! i
                = update_instance rnd now w' (galaxyInstancesRef w ! i) k'
            \<and> j = rnd k' * (1.1 - 0.9) + 0.9 \<and> 0.9 \<le> j \<and> j \<le> 1.1
            \<and> vy (rotation (group (fst (fst (frame_updates rnd now (galaxyInstancesRef w) w k ! i)))))
                = vy (rotation (group (galaxyInstancesRef w ! i)))
                  + baseOrbitSpeed (galaxyInstancesRef w ! i)
                    * galaxyOrbitSpeedMultiplierRefCurrent w * Fin 100
            \<and> vy (rotation (starSystem (fst (fst (frame_updates rnd now (galaxyInstancesRef w) w k ! i)))))
                = vy (rotation (starSystem (galaxyInstancesRef w ! i)))
                  + baseArmSpeed (galaxyInstancesRef w ! i)
                    * armInternalSpeedMultiplierRefCurrent w * Fin 100
            \<and> map_option (\<lambda>d. vy (rotation d))
                  (dustSystem (fst (fst (frame_updates rnd now (galaxyInstancesRef w) w k ! i))))
                = map_option (\<lambda>d. vy (rotation d)
                      + baseArmSpeed (galaxyInstancesRef w ! i)
                        * armInternalSpeedMultiplierRefCurrent w * Fin 100 * Fin j)
                    (dustSystem (galaxyInstancesRef w ! i))"
    apply (rule exI [of _ w'], rule exI [of _ k'], rule exI [of _ "rnd k' * (1.1 - 0.9) + 0.9"])
    unfolding u(1) using j r by simp
qed

lemma sample_active_update:
  "update_instance (\<lambda>_. 1 / 2) (Fin 16) sample_world sample_instance 0
     = ((set_y_rotations (Fin 0.0015) (Fin 0.003) (Fin 0.003) sample_instance, True), sample_world, 1)"
proof -
  have t: "disintegrationTriggerTime sample_instance = None" "\<not> isDisintegrating sample_instance"
    by (simp_all add: sample_instance_def)
  have r: "rotate_instance (\<lambda>_. 1 / 2) sample_world sample_instance 0
             = (set_y_rotations (Fin 0.0015) (Fin 0.003) (Fin 0.003) sample_instance, 1)"
    unfolding rotate_instance_eq
    by (simp add: sample_instance_def sample_world_def new_Group_def new_Points_def Vector3_def)
  show ?thesis
    unfolding update_instance_def r using t
    by (simp add: start_disintegration_skip(2) disintegrate_idle)
qed

lemma sample_final_update:
  "\<not> snd (fst (update_instance (\<lambda>_. 1 / 2) (Fin 4000) sample_world_disintegrating sample_disintegrating 0))"
  "\<not> snd (fst (update_instance (\<lambda>_. 1 / 2) (Fin 4000) sample_world sample_fading 0))"
  "materialOpacity (starSystem (fst (fst
       (update_instance (\<lambda>_. 1 / 2) (Fin 4000) sample_world sample_fading 0)))) = Fin 0.4"
  by (simp_all add: update_instance_def rotate_instance_eq start_disintegration_skip disintegrate_def
        sample_fading_def sample_disintegrating_def sample_primed_def sample_instance_def
        progress_samples Let_def split_def set_y_rotations_def)

theorem rotation_always_applied_witness:
  "unit_draws (\<lambda>_. 1 / 2)
   \<and> length (galaxyInstancesRef sample_world) = 1
   \<and> galaxyInstancesRef (fst (animate (\<lambda>_. 1 / 2) (Fin 16) sample_world 0))
       = [set_y_rotations (Fin 0.0015) (Fin 0.003) (Fin 0.003) sample_instance]
   \<and> length (galaxyInstancesRef sample_world_disintegrating) = 1
   \<and> galaxyInstancesRef (fst (animate (\<lambda>_. 1 / 2) (Fin 4000) sample_world_disintegrating 0)) = []
   \<and> vy (rotation (group (fst (fst (frame_updates (\<lambda>_. 1 / 2) (Fin 4000)
         (galaxyInstancesRef sample_world_disintegrating) sample_world_disintegrating 0 ! 0)))))
       = Fin 0.0015"
proof -
  have l: "galaxyInstancesRef sample_world = [sample_instance]"
    "galaxyInstancesRef sample_world_disintegrating = [sample_disintegrating]"
    by (simp_all add: sample_world_def sample_world_disintegrating_def)
  have v: "vy (rotation (group sample_disintegrating)) = Fin 0"
    "baseOrbitSpeed sample_disintegrating = Fin 0.0005"
    "galaxyOrbitSpeedMultiplierRefCurrent sample_world_disintegrating = Fin 0.03"
    by (simp_all add: sample_disintegrating_def sample_primed_def sample_instance_def
          sample_world_disintegrating_def sample_world_def new_Group_def Vector3_def)
  note t1 = rotation_always_applied [OF unit_draws_half, of "Fin 16" sample_world 0]
  note t2 = rotation_always_applied [OF unit_draws_half, of "Fin 4000" sample_world_disintegrating 0]
  have a: "galaxyInstancesRef (fst (animate (\<lambda>_. 1 / 2) (Fin 16) sample_world 0))
       = [set_y_rotations (Fin 0.0015) (Fin 0.003) (Fin 0.003) sample_instance]"
    unfolding conjunct1 [OF conjunct2 [OF t1]] l
    by (simp add: sample_active_update)
  have b: "galaxyInstancesRef (fst (animate (\<lambda>_. 1 / 2) (Fin 4000) sample_world_disintegrating 0)) = []"
    unfolding conjunct1 [OF conjunct2 [OF t2]] l
    using sample_final_update(1) by (simp add: split_def)
  have "0 < length (galaxyInstancesRef sample_world_disintegrating)" by (simp add: l)
  from conjunct2 [OF conjunct2 [OF t2], rule_format, OF this]
  have g: "vy (rotation (group (fst (fst (frame_updates (\<lambda>_. 1 / 2) (Fin 4000)
         (galaxyInstancesRef sample_world_disintegrating) sample_world_disintegrating 0 ! 0)))))
       = vy (rotation (group (galaxyInstancesRef sample_world_disintegrating ! 0)))
           + baseOrbitSpeed (galaxyInstancesRef sample_world_disintegrating ! 0)
             * galaxyOrbitSpeedMultiplierRefCurrent sample_world_disintegrating * Fin 100"
    by blast
  have c: "vy (rotation (group (fst (fst (frame_updates (\<lambda>_. 1 / 2) (Fin 4000)
         (galaxyInstancesRef sample_world_disintegrating) sample_world_disintegrating 0 ! 0)))))
       = Fin 0.0015"
    unfolding g by (simp add: l v)
  show ?thesis
    using unit_draws_half a b c by (simp add: l)
qed








text \<open>
  Claim C10. For an instance with no trigger time that is not disintegrating, an update
  changes the three rotations about the vertical axis and nothing else, of the instance or
  of the state, and keeps the instance; after a frame the collection holds the instance,
  changed in these three rotations only.
\<close>

theorem active_frame_condition:
  assumes "inst \<in> set (galaxyInstancesRef w)"
      and "disintegrationTriggerTime inst = None" and "\<not> isDisintegrating inst"
  shows "(\<exists>a b c k'. update_instance rnd now w0 inst k0 = ((set_y_rotations a b c inst, True), w0, k'))
       \<and> (\<exists>a b c. set_y_rotations a b c inst \<in> set (galaxyInstancesRef (fst (animate rnd now w k))))"
proof
  show "\<exists>a b c k'. update_instance rnd now w0 inst k0 = ((set_y_rotations a b c inst, True), w0, k')"
    by (rule update_instance_active [OF assms(2,3)])
  show "\<exists>a b c. set_y_rotations a b c inst \<in> set (galaxyInstancesRef (fst (animate rnd now w k)))"
    using animate_instances_keeps_active [OF assms, of rnd now "[]" w k]
    by (simp add: animate_def split_def)
qed

theorem active_frame_condition_witness:
  "sample_instance \<in> set (galaxyInstancesRef sample_world)
   \<and> disintegrationTriggerTime sample_instance = None
   \<and> \<not> isDisintegrating sample_instance
   \<and> (\<exists>a b c k'. update_instance (\<lambda>_. 1 / 2) (Fin 16) sample_world sample_instance 0
                    = ((set_y_rotations a b c sample_instance, True), sample_world, k'))
   \<and> (\<exists>a b c. set_y_rotations a b c sample_instance
                 \<in> set (galaxyInstancesRef (fst (animate (\<lambda>_. 1 / 2) (Fin 16) sample_world 0))))"
proof -
  have h: "sample_instance \<in> set (galaxyInstancesRef sample_world)"
    "disintegrationTriggerTime sample_instance = None"
    "\<not> isDisintegrating sample_instance"
    by (simp_all add: sample_world_def sample_instance_def)
  show ?thesis
    using h active_frame_condition [OF h, of "\<lambda>_. 1 / 2" "Fin 16" sample_world 0 0]
    by simp
qed

subsection \<open>The builder\<close>

declare for_points.simps [simp del]

lemma length_write3 [simp]: "length (write3 buf i p) = length buf"
  by (simp add: write3_def split: prod.splits)

lemma length_for_points [simp]: "length (fst (for_points body n i buf k)) = length buf"
proof (induction body n i buf k rule: for_points.induct)
  case (1 body n i buf k)
  show ?case
  proof (cases "real i < n")
    case True
    obtain p k' where b: "body k = (p, k')" by (cases "body k")
    from "1.IH" [OF True b [symmetric]] True b show ?thesis
      by (subst for_points.simps) simp
  next
    case False
    then show ?thesis by (subst for_points.simps) simp
  qed
qed

lemma length_for_each_point [simp]: "length (fst (for_each_point body n buf k)) = length buf"
  by (cases n) simp_all

lemma new_Points_fields [simp]:
  "positionAttribute (new_Points oid ps nc sz op) = ps"
  "colorAttributeLength (new_Points oid ps nc sz op) = nc"
  "materialOpacity (new_Points oid ps nc sz op) = op"
  "objectId (new_Points oid ps nc sz op) = oid"
  by (simp_all add: new_Points_def)



subsection \<open>Finite coordinates\<close>

lemma is_finite_iff: "is_finite x \<longleftrightarrow> (\<exists>a. x = Fin a)"
  by (cases x) simp_all

lemma unit_drawsD: "unit_draws rnd \<Longrightarrow> 0 \<le> rnd k" "unit_draws rnd \<Longrightarrow> rnd k < 1"
  by (simp_all add: unit_draws_def)

lemma Math_pow_pos: "0 < a \<Longrightarrow> Math_pow (Fin a) b = Fin (a powr b)"
  by simp

lemma Math_pow_draw:
  "unit_draws rnd \<Longrightarrow> 0 < b \<Longrightarrow> Math_pow (Fin (rnd k)) b = Fin (rnd k powr b)"
  using unit_drawsD(1) [of rnd k] by simp

lemma star_radial_base_finite:
  assumes "unit_draws rnd" and "is_finite (radius params)"
  shows "is_finite (snd (fst (star_radial_base rnd params k)))"
proof -
  obtain R where "radius params = Fin R" using assms(2) by (auto simp: is_finite_iff)
  then show ?thesis
    by (simp add: star_radial_base_def Math_random_def Math_pow_draw [OF assms(1)]
          del: Math_pow.simps)
qed

lemma dust_radial_base_finite:
  assumes "unit_draws rnd" and "is_finite (radius params)"
  shows "is_finite (snd (fst (dust_radial_base rnd params k)))"
proof -
  obtain R where "radius params = Fin R" using assms(2) by (auto simp: is_finite_iff)
  then show ?thesis
    by (simp add: dust_radial_base_def Math_random_def Math_pow_draw [OF assms(1)]
          del: Math_pow.simps)
qed

lemma star_extension_finite:
  assumes "is_finite d"
  shows "is_finite (fst (fst (star_extension rnd p d k)))"
proof -
  obtain x where "d = Fin x" using assms by (auto simp: is_finite_iff)
  then show ?thesis
    by (simp add: star_extension_def Math_random_def Let_def)
qed

lemma dust_extension_finite:
  assumes "is_finite d"
  shows "is_finite (fst (fst (dust_extension rnd p d k)))"
proof -
  obtain x where "d = Fin x" using assms by (auto simp: is_finite_iff)
  then show ?thesis
    by (simp add: dust_extension_def Math_random_def Let_def)
qed

lemma star_angle_finite:
  assumes "unit_draws rnd" and "finite_params params" and "is_finite d"
  shows "is_finite (fst (fst (star_angle rnd params d k)))"
    and "is_finite (snd (fst (star_angle rnd params d k)))"
proof -
  obtain A G W x where p: "numArms params = Fin A" "A \<noteq> 0" "armTightness params = Fin G"
    "armAngularWidth params = Fin W" "d = Fin x"
    using assms(2,3) by (auto simp: finite_params_def is_finite_iff)
  show "is_finite (fst (fst (star_angle rnd params d k)))"
    "is_finite (snd (fst (star_angle rnd params d k)))"
    by (simp_all add: star_angle_def Math_random_def Let_def p Math_PI_def
          Math_pow_draw [OF assms(1)] del: Math_pow.simps)
qed

lemma dust_angle_finite:
  assumes "finite_params params" and "is_finite d"
  shows "is_finite (fst (fst (dust_angle rnd params d k)))"
    and "is_finite (snd (fst (dust_angle rnd params d k)))"
proof -
  obtain A G W x where p: "numArms params = Fin A" "A \<noteq> 0" "armTightness params = Fin G"
    "armAngularWidth params = Fin W" "d = Fin x"
    using assms by (auto simp: finite_params_def is_finite_iff)
  show "is_finite (fst (fst (dust_angle rnd params d k)))"
    "is_finite (snd (fst (dust_angle rnd params d k)))"
    by (simp_all add: dust_angle_def Math_random_def Let_def p Math_PI_def)
qed

lemma getArmWobble_finite:
  assumes "finite_params params" and "R \<noteq> 0" and "is_finite d" and "is_finite c"
  shows "is_finite (fst (getArmWobble rnd params d (Fin R) c k))"
proof -
  obtain WA WF x y where p: "wobbleAmplitude params = Fin WA" "wobbleFrequency params = Fin WF"
    "d = Fin x" "c = Fin y"
    using assms(1,3,4) by (auto simp: finite_params_def is_finite_iff)
  show ?thesis
    using assms(2) by (simp add: getArmWobble_def Let_def p Math_PI_def)
qed

lemma star_wobble_finite:
  assumes "finite_params params" and "radius params = Fin R" and "R \<noteq> 0"
      and "is_finite d" and "is_finite c" and "is_finite a"
  shows "is_finite (fst (star_wobble rnd params d c a k))"
proof -
  obtain v where v: "fst (getArmWobble rnd params d (Fin R) c k) = Fin v"
    using getArmWobble_finite [OF assms(1,3,4,5), of rnd k] by (auto simp: is_finite_iff)
  obtain x where x: "a = Fin x"
    using assms(6) by (auto simp: is_finite_iff)
  from v x show ?thesis
    by (simp add: star_wobble_def assms(2) Let_def split_def)
qed

lemma dust_wobble_finite:
  assumes "finite_params params" and "radius params = Fin R" and "R \<noteq> 0"
      and "is_finite d" and "is_finite c" and "is_finite a"
  shows "is_finite (fst (dust_wobble rnd params d c a k))"
proof -
  obtain v where v: "fst (getArmWobble rnd params d (Fin R) c k) = Fin v"
    using getArmWobble_finite [OF assms(1,3,4,5), of rnd k] by (auto simp: is_finite_iff)
  obtain x where x: "a = Fin x"
    using assms(6) by (auto simp: is_finite_iff)
  from v x show ?thesis
    by (simp add: dust_wobble_def assms(2) Let_def split_def)
qed

lemma star_core_finite:
  assumes "unit_draws rnd" and "is_finite d" and "is_finite a"
  shows "is_finite (fst (fst (star_core rnd params d a k)))"
    and "is_finite (snd (fst (star_core rnd params d a k)))"
proof -
  obtain x y where p: "d = Fin x" "a = Fin y"
    using assms(2,3) by (auto simp: is_finite_iff)
  show "is_finite (fst (fst (star_core rnd params d a k)))"
    "is_finite (snd (fst (star_core rnd params d a k)))"
    by (simp_all add: star_core_def Math_random_def Let_def Math_PI_def p
          Math_pow_draw [OF assms(1)] del: Math_pow.simps)
qed

lemma dust_core_finite:
  assumes "is_finite d" and "is_finite a"
  shows "is_finite (fst (fst (dust_core rnd params d a k)))"
    and "is_finite (snd (fst (dust_core rnd params d a k)))"
proof -
  obtain x y where p: "d = Fin x" "a = Fin y"
    using assms by (auto simp: is_finite_iff)
  show "is_finite (fst (fst (dust_core rnd params d a k)))"
    "is_finite (snd (fst (dust_core rnd params d a k)))"
    by (simp_all add: dust_core_def Math_random_def Let_def p)
qed

lemma taper_finite:
  assumes "0 \<le> c" and "c < 1"
  shows "is_finite (Math_pow (Fin 1.0 - Math_min (Fin 1.0) (Fin q) * Fin c) b)"
proof -
  have "min 1 q * c \<le> 1 * c" using assms(1) by (intro mult_right_mono) simp_all
  then have "0 < 1 - min 1 q * c" using assms(2) by simp
  then show ?thesis by simp
qed

lemma is_finite_times: "is_finite a \<Longrightarrow> is_finite b \<Longrightarrow> is_finite (a * b)"
  by (auto simp: is_finite_iff)

lemma star_height_finite:
  assumes "finite_params params" and "radius params = Fin R" and "R \<noteq> 0" and "is_finite d"
  shows "is_finite (fst (star_height rnd params d k))"
proof -
  obtain T x where p: "thickness params = Fin T" "d = Fin x"
    using assms(1,4) by (auto simp: finite_params_def is_finite_iff)
  have q: "Fin x / (Fin R * Fin 1.25) = Fin (x / (R * 1.25))" using assms(3) by simp
  have t: "is_finite (Math_pow (Fin 1.0 - Math_min (Fin 1.0) (Fin (x / (R * 1.25))) * Fin 0.9) 1.3)"
    by (rule taper_finite) simp_all
  have y: "is_finite ((Fin (rnd k) - Fin 0.5) * (Fin (rnd (Suc k)) - Fin 0.5) * Fin 3.8 * Fin T
            * Math_pow (Fin 1.0 - Math_min (Fin 1.0) (Fin (x / (R * 1.25))) * Fin 0.9) 1.3)"
    by (intro is_finite_times t) simp_all
  have m: "is_finite (Math_max (Fin 0)
       ((Fin 1.0 - (Math_min (Fin 1.0) (Fin (x / (R * 1.25))) - Fin 0.7) / Fin 0.3) * Fin 0.3 + Fin 0.7))"
    by simp
  show ?thesis
    unfolding star_height_def Math_random_def Let_def split_def fst_conv snd_conv p assms(2) q
    using y m by (auto intro: is_finite_times)
qed

lemma dust_height_finite:
  assumes "finite_params params" and "radius params = Fin R" and "R \<noteq> 0" and "is_finite d"
  shows "is_finite (fst (dust_height rnd params d k))"
proof -
  obtain T M x where p: "thickness params = Fin T" "dustThicknessMultiplier params = Fin M" "d = Fin x"
    using assms(1,4) by (auto simp: finite_params_def is_finite_iff)
  have q: "Fin x / (Fin R * Fin 1.25) = Fin (x / (R * 1.25))" using assms(3) by simp
  have t: "is_finite (Math_pow (Fin 1.0 - Math_min (Fin 1.0) (Fin (x / (R * 1.25))) * Fin 0.85) 1.2)"
    by (rule taper_finite) simp_all
  have y: "is_finite ((Fin (rnd k) - Fin 0.5) * (Fin (rnd (Suc k)) - Fin 0.5) * Fin 3.0 * Fin T
            * Math_pow (Fin 1.0 - Math_min (Fin 1.0) (Fin (x / (R * 1.25))) * Fin 0.85) 1.2
            * Fin M * Fin 0.7)"
    by (intro is_finite_times t) simp_all
  have m: "is_finite (Math_max (Fin 0.05)
       ((Fin 1.0 - (Math_min (Fin 1.0) (Fin (x / (R * 1.25))) - Fin 0.8) / Fin 0.2) * Fin 0.4 + Fin 0.6))"
    by simp
  show ?thesis
    unfolding dust_height_def Math_random_def Let_def split_def fst_conv snd_conv p assms(2) q
    using y m by (auto intro: is_finite_times)
qed

lemma is_finite_cos: "is_finite a \<Longrightarrow> is_finite (Math_cos a)"
  by (auto simp: is_finite_iff)

lemma is_finite_sin: "is_finite a \<Longrightarrow> is_finite (Math_sin a)"
  by (auto simp: is_finite_iff)

lemma star_point_finite:
  assumes "unit_draws rnd" and "finite_params params" and "radius params = Fin R" and "R \<noteq> 0"
  shows "is_finite (fst (fst (star_point rnd params k)))
       \<and> is_finite (fst (snd (fst (star_point rnd params k))))
       \<and> is_finite (snd (snd (fst (star_point rnd params k))))"
proof -
  have r: "is_finite (radius params)" using assms(3) by simp
  show ?thesis
    unfolding star_point_def Let_def split_def fst_conv snd_conv
    by (intro conjI is_finite_times is_finite_cos is_finite_sin
          star_height_finite [OF assms(2,3,4)] star_core_finite [OF assms(1)]
          star_wobble_finite [OF assms(2,3,4)] star_angle_finite [OF assms(1,2)]
          star_extension_finite star_radial_base_finite [OF assms(1) r])
qed

lemma dust_point_finite:
  assumes "unit_draws rnd" and "finite_params params" and "radius params = Fin R" and "R \<noteq> 0"
  shows "is_finite (fst (fst (dust_point rnd params k)))
       \<and> is_finite (fst (snd (fst (dust_point rnd params k))))
       \<and> is_finite (snd (snd (fst (dust_point rnd params k))))"
proof -
  have r: "is_finite (radius params)" using assms(3) by simp
  show ?thesis
    unfolding dust_point_def Let_def split_def fst_conv snd_conv
    by (intro conjI is_finite_times is_finite_cos is_finite_sin
          dust_height_finite [OF assms(2,3,4)] dust_core_finite
          dust_wobble_finite [OF assms(2,3,4)] dust_angle_finite [OF assms(2)]
          dust_extension_finite dust_radial_base_finite [OF assms(1) r])
qed

lemma set_write3:
  "set (write3 buf i (a, b, c)) \<subseteq> {to_float32 a, to_float32 b, to_float32 c} \<union> set buf"
proof -
  have "set (buf[i * 3 := to_float32 a, i * 3 + 1 := to_float32 b, i * 3 + 2 := to_float32 c])
          \<subseteq> insert (to_float32 c) (set (buf[i * 3 := to_float32 a, i * 3 + 1 := to_float32 b]))"
    by (rule set_update_subset_insert)
  also have "\<dots> \<subseteq> insert (to_float32 c) (insert (to_float32 b) (set (buf[i * 3 := to_float32 a])))"
    by (intro insert_mono set_update_subset_insert)
  also have "\<dots> \<subseteq> insert (to_float32 c) (insert (to_float32 b) (insert (to_float32 a) (set buf)))"
    by (intro insert_mono set_update_subset_insert)
  finally show ?thesis by (auto simp: write3_def)
qed

lemma for_points_all:
  assumes "\<And>k. P (to_float32 (fst (fst (body k)))) \<and> P (to_float32 (fst (snd (fst (body k)))))
                \<and> P (to_float32 (snd (snd (fst (body k)))))"
      and "\<forall>v\<in>set buf. P v"
  shows "\<forall>v\<in>set (fst (for_points body n i buf k)). P v"
  using assms
proof (induction body n i buf k rule: for_points.induct)
  case (1 body n i buf k)
  show ?case
  proof (cases "real i < n")
    case True
    obtain a b c k' where b: "body k = ((a, b, c), k')" by (cases "body k") auto
    have p: "P (to_float32 a) \<and> P (to_float32 b) \<and> P (to_float32 c)"
      using "1.prems"(1) [of k] b by simp
    have "\<forall>v\<in>set (write3 buf i (a, b, c)). P v"
      using set_write3 [of buf i a b c] p "1.prems"(2) by auto
    from "1.IH" [OF True b [symmetric] "1.prems"(1) this] True b show ?thesis
      by (subst for_points.simps) simp
  next
    case False
    then show ?thesis using "1.prems"(2) by (subst for_points.simps) simp
  qed
qed

lemma createSingleGalaxyGroup_eq:
  assumes "unit_draws rnd" and "numStarPoints params = Fin n" and "0 \<le> n"
  shows "createSingleGalaxyGroup rnd params k oid =
    (let c = \<lfloor>n / (rnd k * 3 + 3)\<rfloor>;
         sp = for_points (star_point rnd params) n 0 (replicate (nat \<lfloor>n * 3\<rfloor>) (Fin 0)) (Suc k);
         star = new_Points oid (fst sp) (nat \<lfloor>n * 3\<rfloor>) (starPointSize params) (Fin 1)
     in if 0 < c
        then (let dp = for_points (dust_point rnd params) (of_int c) 0
                         (replicate (3 * nat c) (Fin 0)) (snd sp)
              in Inr ((star,
                       Some (new_Points (Suc oid) (fst dp) (3 * nat c)
                               (starPointSize params * dustPointSizeMultiplier params)
                               (dustOpacity params)),
                       Fin 1, Some (dustOpacity params)), snd dp, Suc (Suc oid)))
        else Inr ((star, None, Fin 1, None), snd sp, Suc oid))"
proof -
  let ?u = "rnd k * 3 + 3"
  let ?c = "\<lfloor>n / ?u\<rfloor>"
  have u: "3 \<le> ?u" using assms(1) by (simp add: unit_draws_def)
  then have u0: "?u \<noteq> 0" by simp
  have star: "Float32Array_new (numStarPoints params * Fin 3) = Inr (replicate (nat \<lfloor>n * 3\<rfloor>) (Fin 0))"
    using assms(2,3) by simp
  have nd: "Math_floor (numStarPoints params / Fin ?u) = Fin (of_int ?c)"
    using assms(2) u0 by simp
  have fl: "for_each_point (star_point rnd params) (numStarPoints params) buf j
              = for_points (star_point rnd params) n 0 buf j" for buf j
    by (simp add: assms(2))
  show ?thesis
  proof (cases "0 < ?c")
    case True
    have "\<lfloor>real_of_int ?c * 3\<rfloor> = ?c * 3"
      by (metis floor_of_int of_int_mult of_int_numeral)
    then have len: "nat \<lfloor>real_of_int ?c * 3\<rfloor> = 3 * nat ?c"
      using True by (simp add: nat_mult_distrib)
    have "\<not> real_of_int ?c * 3 \<le> - 1" using True by linarith
    then have dust: "Float32Array_new (Fin (of_int ?c) * Fin 3)
                  = Inr (replicate (3 * nat ?c) (Fin 0))"
      using len by simp
    have lt: "Fin 0 < Fin (real_of_int ?c)" using True by simp
    show ?thesis
      unfolding createSingleGalaxyGroup_def rand_Fin
      using True
      by (simp add: Let_def split_def star nd dust fl lt
               del: Float32Array_new.simps Math_floor.simps times_jsnum.simps divide_jsnum.simps
                    less_jsnum.simps)
  next
    case False
    then have lt: "\<not> Fin 0 < Fin (real_of_int ?c)" by simp
    show ?thesis
      unfolding createSingleGalaxyGroup_def rand_Fin
      using False
      by (simp add: Let_def split_def star nd fl lt
               del: Float32Array_new.simps Math_floor.simps times_jsnum.simps divide_jsnum.simps
                    less_jsnum.simps)
  qed
qed

subsection \<open>Bounded coordinates\<close>

text \<open>
  For a positive radius \<open>R\<close> the radial distance of a point stays between 0 and \<open>4 R\<close>, so
  its \<open>x\<close> and \<open>z\<close> do, in magnitude, and the height is at most the thickness in magnitude,
  times the dust multiplier for a dust point. With the radius at most \<open>2\<^sup>1\<^sup>0\<^sup>0\<close> these values
  are far below the largest single-precision float, and the store keeps them finite.
\<close>

lemma in_range_finite: "in_range lo hi v \<Longrightarrow> is_finite v"
  by (auto simp: in_range_def)

lemma in_rangeI: "lo \<le> a \<Longrightarrow> a \<le> hi \<Longrightarrow> in_range lo hi (Fin a)"
  by (simp add: in_range_def)

lemma in_range_weaken: "in_range lo hi v \<Longrightarrow> lo' \<le> lo \<Longrightarrow> hi \<le> hi' \<Longrightarrow> in_range lo' hi' v"
  by (auto simp: in_range_def)

lemma in_range_times_unit:
  assumes "in_range 0 B x" and "in_range 0 1 y"
  shows "in_range 0 B (x * y)"
proof -
  obtain a b where v: "x = Fin a" "0 \<le> a" "a \<le> B" "y = Fin b" "0 \<le> b" "b \<le> 1"
    using assms by (auto simp: in_range_def)
  have "a * b \<le> B * 1" using v by (intro mult_mono) simp_all
  then show ?thesis using v by (simp add: in_range_def)
qed

lemma in_range_times_two:
  assumes "in_range 0 B x" and "in_range 0 2 y"
  shows "in_range 0 (2 * B) (x * y)"
proof -
  obtain a b where v: "x = Fin a" "0 \<le> a" "a \<le> B" "y = Fin b" "0 \<le> b" "b \<le> 2"
    using assms by (auto simp: in_range_def)
  have "a * b \<le> B * 2" using v by (intro mult_mono) simp_all
  then show ?thesis using v by (simp add: in_range_def mult.commute)
qed

lemma in_range_double: "in_range 0 B x \<Longrightarrow> in_range 0 (2 * B) x"
  by (auto simp: in_range_def)

lemma mag_times_unit:
  assumes "in_range (- B) B x" and "in_range (- 1) 1 y"
  shows "in_range (- B) B (x * y)"
proof -
  obtain a b where v: "x = Fin a" "\<bar>a\<bar> \<le> B" "y = Fin b" "\<bar>b\<bar> \<le> 1"
    using assms by (auto simp: in_range_def)
  have "\<bar>a\<bar> * \<bar>b\<bar> \<le> B * 1" using v by (intro mult_mono) simp_all
  then have "\<bar>a * b\<bar> \<le> B" by (simp add: abs_mult)
  then show ?thesis using v by (simp add: in_range_def abs_le_iff)
qed

lemma unit_times_mag:
  assumes "in_range (- 1) 1 x" and "in_range (- B) B y"
  shows "in_range (- B) B (x * y)"
proof -
  obtain a b where v: "x = Fin a" "\<bar>a\<bar> \<le> 1" "y = Fin b" "\<bar>b\<bar> \<le> B"
    using assms by (auto simp: in_range_def)
  have "\<bar>a\<bar> * \<bar>b\<bar> \<le> 1 * B" using v by (intro mult_mono) simp_all
  then have "\<bar>a * b\<bar> \<le> B" by (simp add: abs_mult)
  then show ?thesis using v by (simp add: in_range_def abs_le_iff)
qed

lemma mag_times_mag:
  assumes "in_range (- A) A x" and "in_range (- B) B y"
  shows "in_range (- (A * B)) (A * B) (x * y)"
proof -
  obtain a b where v: "x = Fin a" "\<bar>a\<bar> \<le> A" "y = Fin b" "\<bar>b\<bar> \<le> B"
    using assms by (auto simp: in_range_def)
  have "\<bar>a\<bar> * \<bar>b\<bar> \<le> A * B" using v by (intro mult_mono) simp_all
  then have "\<bar>a * b\<bar> \<le> A * B" by (simp add: abs_mult)
  then show ?thesis using v by (simp add: in_range_def abs_le_iff)
qed

lemma unit_of_pos: "in_range 0 1 x \<Longrightarrow> in_range (- 1) 1 x"
  by (auto simp: in_range_def)

lemma radial_cos:
  assumes "in_range 0 B d" and "is_finite a"
  shows "in_range (- B) B (d * Math_cos a)"
proof -
  obtain x y where v: "d = Fin x" "0 \<le> x" "x \<le> B" "a = Fin y"
    using assms by (auto simp: in_range_def is_finite_iff)
  have "\<bar>x\<bar> * \<bar>cos y\<bar> \<le> B * 1" using v by (intro mult_mono) simp_all
  then have "\<bar>x * cos y\<bar> \<le> B" by (simp add: abs_mult)
  then show ?thesis using v by (simp add: in_range_def abs_le_iff)
qed

lemma radial_sin:
  assumes "in_range 0 B d" and "is_finite a"
  shows "in_range (- B) B (d * Math_sin a)"
proof -
  obtain x y where v: "d = Fin x" "0 \<le> x" "x \<le> B" "a = Fin y"
    using assms by (auto simp: in_range_def is_finite_iff)
  have "\<bar>x\<bar> * \<bar>sin y\<bar> \<le> B * 1" using v by (intro mult_mono) simp_all
  then have "\<bar>x * sin y\<bar> \<le> B" by (simp add: abs_mult)
  then show ?thesis using v by (simp add: in_range_def abs_le_iff)
qed

lemma pow_draw_range:
  assumes "unit_draws rnd" and "0 < b"
  shows "in_range 0 1 (Math_pow (Fin (rnd k)) b)"
proof -
  have u: "0 \<le> rnd k" "rnd k < 1" using assms(1) by (simp_all add: unit_draws_def)
  have "rnd k powr b \<le> 1" using u assms(2) by (intro powr_le1) simp_all
  then show ?thesis
    unfolding Math_pow_draw [OF assms] by (simp add: in_range_def)
qed

lemma star_radial_base_range:
  assumes "unit_draws rnd" and "radius params = Fin R" and "0 \<le> R"
  shows "in_range 0 1 (fst (fst (star_radial_base rnd params k)))"
    and "in_range 0 R (snd (fst (star_radial_base rnd params k)))"
proof -
  have u: "0 \<le> rnd k" "rnd k < 1" using assms(1) by (simp_all add: unit_draws_def)
  show "in_range 0 1 (fst (fst (star_radial_base rnd params k)))"
    using u by (simp add: star_radial_base_def Math_random_def in_range_def)
  have r: "in_range 0 R (Fin R)" using assms(3) by (simp add: in_range_def)
  have "in_range 0 R (Fin R * Math_pow (Fin (rnd k)) 1.6)"
    by (intro in_range_times_unit r pow_draw_range [OF assms(1)]) simp
  moreover have "Fin R * Math_pow (Fin (rnd k)) 1.6 = Math_pow (Fin (rnd k)) 1.6 * Fin R"
    unfolding Math_pow_draw [OF assms(1), of "1.6" k, simplified] by (simp add: mult.commute)
  ultimately show "in_range 0 R (snd (fst (star_radial_base rnd params k)))"
    by (simp add: star_radial_base_def Math_random_def assms(2) del: Math_pow.simps)
qed

lemma dust_radial_base_range:
  assumes "unit_draws rnd" and "radius params = Fin R" and "0 \<le> R"
  shows "in_range 0 1 (fst (fst (dust_radial_base rnd params k)))"
    and "in_range 0 R (snd (fst (dust_radial_base rnd params k)))"
proof -
  have u: "0 \<le> rnd k" "rnd k < 1" using assms(1) by (simp_all add: unit_draws_def)
  show "in_range 0 1 (fst (fst (dust_radial_base rnd params k)))"
    using u by (simp add: dust_radial_base_def Math_random_def in_range_def)
  obtain c where c: "Math_pow (Fin (rnd k)) 1.3 = Fin c" "0 \<le> c" "c \<le> 1"
    using pow_draw_range [OF assms(1), of "1.3" k] by (auto simp: in_range_def)
  have "c * R \<le> 1 * R" using c(3) assms(3) by (intro mult_right_mono)
  moreover have "0 \<le> c * R" using c(2) assms(3) by simp
  ultimately have "0 \<le> c * R * 0.95 + R * 0.05" "c * R * 0.95 + R * 0.05 \<le> R" by simp_all
  then show "in_range 0 R (snd (fst (dust_radial_base rnd params k)))"
    unfolding dust_radial_base_def Math_random_def Let_def split_def fst_conv snd_conv c(1) assms(2)
    by (simp add: in_range_def)
qed

lemma star_extension_range:
  assumes "unit_draws rnd" and "in_range 0 B d"
  shows "in_range 0 (2 * B) (fst (fst (star_extension rnd p d k)))"
proof -
  have u: "0 \<le> rnd k" "rnd k < 1" using assms(1) by (simp_all add: unit_draws_def)
  have "0 \<le> 1.0 + (rnd k - 0.4) * 0.7" using u by (simp; argo)
  moreover have "1.0 + (rnd k - 0.4) * 0.7 \<le> 2" using u by (simp; argo)
  ultimately have "in_range 0 2 (Fin (1.0 + (rnd k - 0.4) * 0.7))" by (rule in_rangeI)
  then have e: "in_range 0 2 (Fin 1.0 + (Fin (rnd k) - Fin 0.4) * Fin 0.7)" by simp
  have "in_range 0 (2 * B) (d * (Fin 1.0 + (Fin (rnd k) - Fin 0.4) * Fin 0.7))"
    using assms(2) e by (rule in_range_times_two)
  then show ?thesis
    using in_range_double [OF assms(2)]
    by (simp add: star_extension_def Math_random_def Let_def)
qed

lemma dust_extension_range:
  assumes "unit_draws rnd" and "in_range 0 B d"
  shows "in_range 0 (2 * B) (fst (fst (dust_extension rnd p d k)))"
proof -
  have u: "0 \<le> rnd k" "rnd k < 1" using assms(1) by (simp_all add: unit_draws_def)
  have "0 \<le> 1.0 + (rnd k - 0.35) * 0.6" using u by (simp; argo)
  moreover have "1.0 + (rnd k - 0.35) * 0.6 \<le> 2" using u by (simp; argo)
  ultimately have "in_range 0 2 (Fin (1.0 + (rnd k - 0.35) * 0.6))" by (rule in_rangeI)
  then have e: "in_range 0 2 (Fin 1.0 + (Fin (rnd k) - Fin 0.35) * Fin 0.6)" by simp
  have "in_range 0 (2 * B) (d * (Fin 1.0 + (Fin (rnd k) - Fin 0.35) * Fin 0.6))"
    using assms(2) e by (rule in_range_times_two)
  then show ?thesis
    using in_range_double [OF assms(2)]
    by (simp add: dust_extension_def Math_random_def Let_def)
qed

lemma star_core_range:
  assumes "unit_draws rnd" and "in_range 0 B d"
  shows "in_range 0 B (snd (fst (star_core rnd params d a k)))"
proof -
  obtain c where c: "Math_pow (Fin (rnd (Suc (Suc k)))) 1.8 = Fin c" "0 \<le> c" "c \<le> 1"
    using pow_draw_range [OF assms(1), of "1.8" "Suc (Suc k)"] by (auto simp: in_range_def)
  have "0 \<le> c * 0.85" using c(2,3) by (simp; argo)
  moreover have "c * 0.85 \<le> 1" using c(2,3) by (simp; argo)
  ultimately have "in_range 0 1 (Fin (c * 0.85))" by (rule in_rangeI)
  then have f: "in_range 0 1 (Fin c * Fin 0.85)" by simp
  have "in_range 0 B (d * (Fin c * Fin 0.85))"
    using assms(2) f by (rule in_range_times_unit)
  then show ?thesis
    unfolding star_core_def Math_random_def Let_def split_def fst_conv snd_conv c(1)
    using assms(2) by simp
qed

lemma dust_core_range:
  assumes "unit_draws rnd" and "in_range 0 B d"
  shows "in_range 0 (2 * B) (snd (fst (dust_core rnd params d a k)))"
proof -
  have u: "0 \<le> rnd (Suc k)" "rnd (Suc k) < 1" using assms(1) by (simp_all add: unit_draws_def)
  have "0 \<le> 1.0 + rnd (Suc k) * 0.4" using u by (simp; argo)
  moreover have "1.0 + rnd (Suc k) * 0.4 \<le> 2" using u by (simp; argo)
  ultimately have "in_range 0 2 (Fin (1.0 + rnd (Suc k) * 0.4))" by (rule in_rangeI)
  then have f: "in_range 0 2 (Fin 1.0 + Fin (rnd (Suc k)) * Fin 0.4)" by simp
  have "in_range 0 (2 * B) (d * (Fin 1.0 + Fin (rnd (Suc k)) * Fin 0.4))"
    using assms(2) f by (rule in_range_times_two)
  then show ?thesis
    unfolding dust_core_def Math_random_def Let_def split_def fst_conv snd_conv
    using in_range_double [OF assms(2)] by simp
qed

lemma taper_range:
  assumes "0 \<le> q" and "0 \<le> c" and "c < 1" and "0 < b"
  shows "in_range 0 1 (Math_pow (Fin 1.0 - Math_min (Fin 1.0) (Fin q) * Fin c) b)"
proof -
  have "min 1 q * c \<le> 1 * c" using assms(2) by (intro mult_right_mono) simp_all
  then have p: "0 < 1 - min 1 q * c" using assms(3) by simp
  have "0 \<le> min 1 q * c" using assms(1,2) by simp
  then have "\<bar>1 - min 1 q * c\<bar> \<le> 1" using p by simp
  then have "(1 - min 1 q * c) powr b \<le> 1" using assms(4) by (intro powr_le1) simp_all
  then show ?thesis using p assms(4) by (simp add: in_range_def)
qed

lemma yrand_range:
  assumes "unit_draws rnd" and "0 \<le> s" and "s \<le> 4"
  shows "in_range (- 1) 1 ((Fin (rnd k) - Fin 0.5) * (Fin (rnd (Suc k)) - Fin 0.5) * Fin s)"
proof -
  have u: "0 \<le> rnd k" "rnd k < 1" "0 \<le> rnd (Suc k)" "rnd (Suc k) < 1"
    using assms(1) by (simp_all add: unit_draws_def)
  let ?a = "rnd k - 1 / 2" and ?b = "rnd (Suc k) - 1 / 2"
  have a: "\<bar>?a\<bar> \<le> 1 / 2" "\<bar>?b\<bar> \<le> 1 / 2" using u by linarith+
  have "\<bar>?a\<bar> * \<bar>?b\<bar> \<le> 1 / 2 * (1 / 2)"
    by (rule mult_mono) (use a in simp_all)
  then have p: "\<bar>?a * ?b\<bar> \<le> 1 / 4" by (simp add: abs_mult)
  have "\<bar>?a * ?b\<bar> * \<bar>s\<bar> \<le> 1 / 4 * 4"
    by (rule mult_mono) (use p assms(2,3) in simp_all)
  then have "\<bar>?a * ?b * s\<bar> \<le> 1" by (simp add: abs_mult)
  then have "- 1 \<le> ?a * ?b * s" "?a * ?b * s \<le> 1" by linarith+
  then have "in_range (- 1) 1 (Fin (?a * ?b * s))" by (rule in_rangeI)
  then show ?thesis by simp
qed

lemma edge_factor:
  assumes "lo \<le> n" and "n \<le> 1" and "0 < w" and "0 \<le> f" and "lo + w = 1"
      and "0 \<le> g" and "g + f \<le> 1" and "0 \<le> m" and "m \<le> 1"
  shows "in_range (- 1) 1 (Math_max (Fin m) ((Fin 1.0 - (Fin n - Fin lo) / Fin w) * Fin g + Fin f))"
proof -
  let ?e = "(1 - (n - lo) / w) * g + f"
  have q: "0 \<le> (n - lo) / w" "(n - lo) / w \<le> 1"
    using assms(1,2,3,5) by (simp_all add: field_simps)
  have "0 \<le> (1 - (n - lo) / w) * g" using q(2) assms(6) by simp
  then have lo: "0 \<le> ?e" using assms(4) by linarith
  have "(1 - (n - lo) / w) * g \<le> 1 * g" using q(1) assms(6) by (intro mult_right_mono) simp_all
  then have hi: "?e \<le> 1" using assms(7) by linarith
  have "- 1 \<le> max m ?e" "max m ?e \<le> 1" using lo hi assms(8,9) by simp_all
  then have "in_range (- 1) 1 (Fin (max m ?e))" by (rule in_rangeI)
  then show ?thesis using assms(3) by simp
qed

lemma mag_abs: "in_range (- \<bar>T\<bar>) \<bar>T\<bar> (Fin T)"
  by (simp add: in_range_def) linarith

lemma star_height_range:
  assumes "unit_draws rnd" and "radius params = Fin R" and "0 < R"
      and "thickness params = Fin T" and "in_range 0 B d"
  shows "in_range (- \<bar>T\<bar>) \<bar>T\<bar> (fst (star_height rnd params d k))"
proof -
  obtain x where p: "d = Fin x" and x: "0 \<le> x" using assms(5) by (auto simp: in_range_def)
  have q: "Fin x / (Fin R * Fin 1.25) = Fin (x / (R * 1.25))" using assms(3) by simp
  have q0: "0 \<le> x / (R * 1.25)" using x assms(3) by simp
  have t: "in_range (- 1) 1 (Math_pow (Fin 1.0 - Math_min (Fin 1.0) (Fin (x / (R * 1.25))) * Fin 0.9) 1.3)"
    by (intro unit_of_pos taper_range q0) simp_all
  have y: "in_range (- \<bar>T\<bar>) \<bar>T\<bar>
             ((Fin (rnd k) - Fin 0.5) * (Fin (rnd (Suc k)) - Fin 0.5) * Fin 3.8 * Fin T
               * Math_pow (Fin 1.0 - Math_min (Fin 1.0) (Fin (x / (R * 1.25))) * Fin 0.9) 1.3)"
    by (intro mag_times_unit unit_times_mag yrand_range [OF assms(1)] mag_abs t) simp_all
  have m: "in_range (- 1) 1 (Math_max (Fin 0)
       ((Fin 1.0 - (Math_min (Fin 1.0) (Fin (x / (R * 1.25))) - Fin 0.7) / Fin 0.3) * Fin 0.3 + Fin 0.7))"
    if "Fin 0.7 < Math_min (Fin 1.0) (Fin (x / (R * 1.25)))"
  proof -
    have n: "0.7 \<le> min 1 (x / (R * 1.25))" using that by simp
    have "in_range (- 1) 1 (Math_max (Fin 0)
       ((Fin 1.0 - (Fin (min 1 (x / (R * 1.25))) - Fin 0.7) / Fin 0.3) * Fin 0.3 + Fin 0.7))"
      by (rule edge_factor [OF n]) simp_all
    then show ?thesis by simp
  qed
  have ym: "in_range (- \<bar>T\<bar>) \<bar>T\<bar>
             ((Fin (rnd k) - Fin 0.5) * (Fin (rnd (Suc k)) - Fin 0.5) * Fin 3.8 * Fin T
               * Math_pow (Fin 1.0 - Math_min (Fin 1.0) (Fin (x / (R * 1.25))) * Fin 0.9) 1.3
               * Math_max (Fin 0)
       ((Fin 1.0 - (Math_min (Fin 1.0) (Fin (x / (R * 1.25))) - Fin 0.7) / Fin 0.3) * Fin 0.3 + Fin 0.7))"
    if "Fin 0.7 < Math_min (Fin 1.0) (Fin (x / (R * 1.25)))"
    using y m [OF that] by (rule mag_times_unit)
  show ?thesis
    unfolding star_height_def Math_random_def Let_def split_def fst_conv snd_conv p assms(2,4) q
    using y ym by (simp only: if_split) blast
qed

lemma dust_height_range:
  assumes "unit_draws rnd" and "radius params = Fin R" and "0 < R"
      and "thickness params = Fin T" and "dustThicknessMultiplier params = Fin M"
      and "in_range 0 B d"
  shows "in_range (- (\<bar>T\<bar> * \<bar>M\<bar>)) (\<bar>T\<bar> * \<bar>M\<bar>) (fst (dust_height rnd params d k))"
proof -
  obtain x where p: "d = Fin x" and x: "0 \<le> x" using assms(6) by (auto simp: in_range_def)
  have q: "Fin x / (Fin R * Fin 1.25) = Fin (x / (R * 1.25))" using assms(3) by simp
  have q0: "0 \<le> x / (R * 1.25)" using x assms(3) by simp
  have t: "in_range (- 1) 1 (Math_pow (Fin 1.0 - Math_min (Fin 1.0) (Fin (x / (R * 1.25))) * Fin 0.85) 1.2)"
    by (intro unit_of_pos taper_range q0) simp_all
  have c: "in_range (- 1) 1 (Fin 0.7)" by (rule in_rangeI) simp_all
  have y: "in_range (- (\<bar>T\<bar> * \<bar>M\<bar>)) (\<bar>T\<bar> * \<bar>M\<bar>)
             ((Fin (rnd k) - Fin 0.5) * (Fin (rnd (Suc k)) - Fin 0.5) * Fin 3.0 * Fin T
               * Math_pow (Fin 1.0 - Math_min (Fin 1.0) (Fin (x / (R * 1.25))) * Fin 0.85) 1.2
               * Fin M * Fin 0.7)"
    by (intro mag_times_unit mag_times_mag unit_times_mag yrand_range [OF assms(1)] mag_abs t c)
       simp_all
  have m: "in_range (- 1) 1 (Math_max (Fin 0.05)
       ((Fin 1.0 - (Math_min (Fin 1.0) (Fin (x / (R * 1.25))) - Fin 0.8) / Fin 0.2) * Fin 0.4 + Fin 0.6))"
    if "Fin 0.8 < Math_min (Fin 1.0) (Fin (x / (R * 1.25)))"
  proof -
    have n: "0.8 \<le> min 1 (x / (R * 1.25))" using that by simp
    have "in_range (- 1) 1 (Math_max (Fin 0.05)
       ((Fin 1.0 - (Fin (min 1 (x / (R * 1.25))) - Fin 0.8) / Fin 0.2) * Fin 0.4 + Fin 0.6))"
      by (rule edge_factor [OF n]) simp_all
    then show ?thesis by simp
  qed
  have ym: "in_range (- (\<bar>T\<bar> * \<bar>M\<bar>)) (\<bar>T\<bar> * \<bar>M\<bar>)
             ((Fin (rnd k) - Fin 0.5) * (Fin (rnd (Suc k)) - Fin 0.5) * Fin 3.0 * Fin T
               * Math_pow (Fin 1.0 - Math_min (Fin 1.0) (Fin (x / (R * 1.25))) * Fin 0.85) 1.2
               * Fin M * Fin 0.7
               * Math_max (Fin 0.05)
       ((Fin 1.0 - (Math_min (Fin 1.0) (Fin (x / (R * 1.25))) - Fin 0.8) / Fin 0.2) * Fin 0.4 + Fin 0.6))"
    if "Fin 0.8 < Math_min (Fin 1.0) (Fin (x / (R * 1.25)))"
    using y m [OF that] by (rule mag_times_unit)
  show ?thesis
    unfolding dust_height_def Math_random_def Let_def split_def fst_conv snd_conv p assms(2,4,5) q
    using y ym by (simp only: if_split) blast
qed

lemma star_point_range:
  assumes "unit_draws rnd" and "finite_params params" and "radius params = Fin R" and "0 < R"
      and "thickness params = Fin T"
  shows "in_range (- (2 * R)) (2 * R) (fst (fst (star_point rnd params k)))
       \<and> in_range (- \<bar>T\<bar>) \<bar>T\<bar> (fst (snd (fst (star_point rnd params k))))
       \<and> in_range (- (2 * R)) (2 * R) (snd (snd (fst (star_point rnd params k))))"
proof -
  have r: "is_finite (radius params)" using assms(3) by simp
  have R: "R \<noteq> 0" "0 \<le> R" using assms(4) by simp_all
  show ?thesis
    unfolding star_point_def Let_def split_def fst_conv snd_conv
    by (intro conjI radial_cos radial_sin
          star_height_range [OF assms(1,3,4,5), where B = "2 * R"] star_core_range [OF assms(1)]
          star_extension_range [OF assms(1)] star_radial_base_range(2) [OF assms(1,3) R(2)]
          star_core_finite [OF assms(1)]
          star_wobble_finite [OF assms(2,3) R(1)] star_angle_finite [OF assms(1,2)]
          star_extension_finite star_radial_base_finite [OF assms(1) r])
qed

lemma dust_point_range:
  assumes "unit_draws rnd" and "finite_params params" and "radius params = Fin R" and "0 < R"
      and "thickness params = Fin T" and "dustThicknessMultiplier params = Fin M"
  shows "in_range (- (2 * (2 * R))) (2 * (2 * R)) (fst (fst (dust_point rnd params k)))
       \<and> in_range (- (\<bar>T\<bar> * \<bar>M\<bar>)) (\<bar>T\<bar> * \<bar>M\<bar>) (fst (snd (fst (dust_point rnd params k))))
       \<and> in_range (- (2 * (2 * R))) (2 * (2 * R)) (snd (snd (fst (dust_point rnd params k))))"
proof -
  have r: "is_finite (radius params)" using assms(3) by simp
  have R: "R \<noteq> 0" "0 \<le> R" using assms(4) by simp_all
  show ?thesis
    unfolding dust_point_def Let_def split_def fst_conv snd_conv
    by (intro conjI radial_cos radial_sin
          dust_height_range [OF assms(1,3,4,5,6), where B = "2 * (2 * R)"] dust_core_range [OF assms(1)]
          dust_extension_range [OF assms(1)] dust_radial_base_range(2) [OF assms(1,3) R(2)]
          dust_core_finite
          dust_wobble_finite [OF assms(2,3) R(1)] dust_angle_finite [OF assms(2)]
          dust_extension_finite dust_radial_base_finite [OF assms(1) r])
qed

lemma stored_finite:
  assumes "in_range (- B) B v" and "B \<le> 2 powi 127"
  shows "is_finite (to_float32 v)"
proof -
  obtain a where a: "v = Fin a" "- B \<le> a" "a \<le> B" using assms(1) by (auto simp: in_range_def)
  have "\<bar>a\<bar> \<le> 2 powi 127" using a(2,3) assms(2) by linarith
  then show ?thesis unfolding a(1) by (rule to_float32_finite)
qed

lemma createSingleGalaxyGroup_finite:
  assumes "unit_draws rnd" and "finite_params params" and "radius params = Fin R" and "0 < R"
      and "R \<le> 2 powi 100"
      and "thickness params = Fin T" and "\<bar>T\<bar> \<le> R"
      and "dustThicknessMultiplier params = Fin M" and "\<bar>M\<bar> \<le> 2"
      and "numStarPoints params = Fin n" and "0 \<le> n"
  shows "\<exists>star dust starOp dustOp k' oid'.
           createSingleGalaxyGroup rnd params k oid = Inr ((star, dust, starOp, dustOp), k', oid')
         \<and> (\<forall>v\<in>set (positionAttribute star). is_finite v)
         \<and> (\<forall>d. dust = Some d \<longrightarrow> (\<forall>v\<in>set (positionAttribute d). is_finite v))"
proof -
  have p: "(2::real) powi 100 * 4 = 2 powi 102" by (simp add: power_int_add [of 2 100 2, simplified])
  have "(2::real) powi 102 \<le> 2 powi 127" by (simp add: pow2_le_iff)
  then have b4: "2 * (2 * R) \<le> 2 powi 127" using assms(5) p by linarith
  then have b2: "2 * R \<le> 2 powi 127" using assms(4) by linarith
  have bT: "\<bar>T\<bar> \<le> 2 powi 127" using assms(7) b2 assms(4) by linarith
  have "\<bar>T\<bar> * \<bar>M\<bar> \<le> R * 2" using assms(7,9) by (intro mult_mono) simp_all
  then have bM: "\<bar>T\<bar> * \<bar>M\<bar> \<le> 2 powi 127" using b2 by linarith
  note sp = star_point_range [OF assms(1,2,3,4,6)]
  note dp = dust_point_range [OF assms(1,2,3,4,6,8)]
  have sf: "is_finite (to_float32 (fst (fst (star_point rnd params j))))
          \<and> is_finite (to_float32 (fst (snd (fst (star_point rnd params j)))))
          \<and> is_finite (to_float32 (snd (snd (fst (star_point rnd params j)))))" for j
    using sp [of j] b2 bT by (blast intro: stored_finite)
  have df: "is_finite (to_float32 (fst (fst (dust_point rnd params j))))
          \<and> is_finite (to_float32 (fst (snd (fst (dust_point rnd params j)))))
          \<and> is_finite (to_float32 (snd (snd (fst (dust_point rnd params j)))))" for j
    using dp [of j] b4 bM by (blast intro: stored_finite)
  have s: "\<forall>v\<in>set (fst (for_points (star_point rnd params) m 0 (replicate l (Fin 0)) j)). is_finite v"
    for m l j
    by (rule for_points_all [where P = is_finite, OF sf]) simp
  have d: "\<forall>v\<in>set (fst (for_points (dust_point rnd params) m 0 (replicate l (Fin 0)) j)). is_finite v"
    for m l j
    by (rule for_points_all [where P = is_finite, OF df]) simp
  show ?thesis
    unfolding createSingleGalaxyGroup_eq [OF assms(1,10,11)] Let_def
    using s d by (cases "0 < \<lfloor>n / (rnd k * 3 + 3)\<rfloor>") simp_all
qed

subsection \<open>A radius of zero\<close>

lemma jsnum_NaN_times [simp]: "x * NaN = NaN" "NaN * x = NaN"
  by (cases x; simp)+

lemma zero_height:
  assumes "radius params = Fin 0"
  shows "fst (star_height rnd params (Fin 0) k) = NaN"
    and "fst (dust_height rnd params (Fin 0) k) = NaN"
  using assms
  by (simp_all add: star_height_def dust_height_def Math_random_def Let_def Math_min_def)

lemma zero_not_below: "\<not> Fin 0 < Fin 0 * c" "\<not> Fin 0 * c < Fin 0" "\<not> Fin 0 < Fin 0 * c * e"
  by (cases c; cases e; simp)+

lemma zero_wobble_core:
  assumes "radius params = Fin 0"
  shows "star_wobble rnd params (Fin 0) c a k = (a, k)"
    and "dust_wobble rnd params (Fin 0) c a k = (a, k)"
    and "star_core rnd params (Fin 0) a k = ((a, Fin 0), k)"
    and "dust_core rnd params (Fin 0) a k = ((a, Fin 0), k)"
  using assms
  by (simp_all add: star_wobble_def dust_wobble_def star_core_def dust_core_def zero_not_below
        del: times_jsnum.simps less_jsnum.simps)

lemma zero_radial:
  assumes "unit_draws rnd" and "radius params = Fin 0"
  shows "fst (fst (star_extension rnd (fst (fst (star_radial_base rnd params k)))
                     (snd (fst (star_radial_base rnd params k))) j)) = Fin 0"
    and "fst (fst (dust_extension rnd (fst (fst (dust_radial_base rnd params k)))
                     (snd (fst (dust_radial_base rnd params k))) j)) = Fin 0"
  using assms(2)
  by (simp_all add: star_radial_base_def dust_radial_base_def star_extension_def dust_extension_def
        Math_random_def Let_def Math_pow_draw [OF assms(1)] del: Math_pow.simps)

lemma zero_times_finite: "is_finite a \<Longrightarrow> Fin 0 * a = Fin 0"
  by (auto simp: is_finite_iff)

lemma star_point_zero_radius:
  assumes "unit_draws rnd" and "finite_params params" and "radius params = Fin 0"
  shows "fst (star_point rnd params k) = (Fin 0, NaN, Fin 0)"
  unfolding star_point_def Let_def split_def
  by (simp add: zero_radial [OF assms(1,3)] zero_wobble_core [OF assms(3)] zero_height [OF assms(3)]
        zero_times_finite is_finite_cos is_finite_sin star_angle_finite [OF assms(1,2)]
        del: times_jsnum.simps)

lemma dust_point_zero_radius:
  assumes "unit_draws rnd" and "finite_params params" and "radius params = Fin 0"
  shows "fst (dust_point rnd params k) = (Fin 0, NaN, Fin 0)"
  unfolding dust_point_def Let_def split_def
  by (simp add: zero_radial [OF assms(1,3)] zero_wobble_core [OF assms(3)] zero_height [OF assms(3)]
        zero_times_finite is_finite_cos is_finite_sin dust_angle_finite [OF assms(2)]
        del: times_jsnum.simps)

lemma write3_nth:
  "j < length buf \<Longrightarrow>
     write3 buf i (a, b, c) ! j
       = (if j = i * 3 + 2 then to_float32 c else if j = i * 3 + 1 then to_float32 b
          else if j = i * 3 then to_float32 a else buf ! j)"
  by (simp add: write3_def nth_list_update)

lemma for_points_zero_radius:
  assumes "\<And>k. fst (body k) = (Fin 0, NaN, Fin 0)"
      and "\<forall>j. j < i * 3 \<longrightarrow> j < length buf \<longrightarrow> buf ! j = zero_radius_slot j"
      and "real (j div 3) < n \<or> j < i * 3" and "j < length buf"
  shows "fst (for_points body n i buf k) ! j = zero_radius_slot j"
  using assms
proof (induction body n i buf k rule: for_points.induct)
  case (1 body n i buf k)
  show ?case
  proof (cases "real i < n")
    case True
    obtain k' where b: "body k = ((Fin 0, NaN, Fin 0), k')"
      using "1.prems"(1) [of k] by (cases "body k") auto
    have inv: "\<forall>j. j < Suc i * 3 \<longrightarrow> j < length (write3 buf i (Fin 0, NaN, Fin 0))
                 \<longrightarrow> write3 buf i (Fin 0, NaN, Fin 0) ! j = zero_radius_slot j"
    proof (intro allI impI)
      fix j' assume a: "j' < Suc i * 3" "j' < length (write3 buf i (Fin 0, NaN, Fin 0))"
      then have l: "j' < length buf" by simp
      show "write3 buf i (Fin 0, NaN, Fin 0) ! j' = zero_radius_slot j'"
      proof (cases "j' < i * 3")
        case True
        then show ?thesis using "1.prems"(2) l by (simp add: write3_nth)
      next
        case False
        then have "j' = i * 3 \<or> j' = i * 3 + 1 \<or> j' = i * 3 + 2" using a(1) by auto
        moreover have "(i * 3) mod 3 = 0" "(i * 3 + 1) mod 3 = 1" "(i * 3 + 2) mod 3 = 2"
          by presburger+
        ultimately show ?thesis
          using l by (auto simp: write3_nth zero_radius_slot_def simp del: One_nat_def)
      qed
    qed
    have r: "real (j div 3) < n \<or> j < Suc i * 3" using "1.prems"(3) by auto
    have l: "j < length (write3 buf i (Fin 0, NaN, Fin 0))" using "1.prems"(4) by simp
    from "1.IH" [OF True b [symmetric] "1.prems"(1) inv r l] True b show ?thesis
      by (subst for_points.simps) simp
  next
    case False
    have "j < i * 3"
    proof (rule ccontr)
      assume n: "\<not> j < i * 3"
      then have "i \<le> j div 3" by (simp add: less_mult_imp_div_less not_less)
      moreover have "real (j div 3) < n" using "1.prems"(3) n by simp
      ultimately show False using False by linarith
    qed
    then show ?thesis using "1.prems"(2,4) False by (subst for_points.simps) simp
  qed
qed

lemma createSingleGalaxyGroup_zero_radius:
  assumes "unit_draws rnd" and "finite_params params" and "radius params = Fin 0"
      and "numStarPoints params = Fin (real N)"
  shows "\<exists>star dust starOp dustOp k' oid'.
           createSingleGalaxyGroup rnd params k oid = Inr ((star, dust, starOp, dustOp), k', oid')
         \<and> length (positionAttribute star) = 3 * N
         \<and> (\<forall>j<length (positionAttribute star). positionAttribute star ! j = zero_radius_slot j)
         \<and> (\<forall>d. dust = Some d \<longrightarrow>
               (\<forall>j<length (positionAttribute d). positionAttribute d ! j = zero_radius_slot j))"
proof -
  let ?c = "\<lfloor>real N / (rnd k * 3 + 3)\<rfloor>"
  have n: "nat \<lfloor>real N * 3\<rfloor> = 3 * N"
  proof -
    have "real N * 3 = of_int (int (3 * N))" by simp
    then have "\<lfloor>real N * 3\<rfloor> = int (3 * N)" by (simp only: floor_of_int)
    then show ?thesis by simp
  qed
  have s: "fst (for_points (star_point rnd params) (real N) 0 (replicate (3 * N) (Fin 0)) j') ! j
             = zero_radius_slot j" if "j < 3 * N" for j j'
  proof (rule for_points_zero_radius)
    show "fst (star_point rnd params k) = (Fin 0, NaN, Fin 0)" for k
      by (rule star_point_zero_radius [OF assms(1,2,3)])
    show "\<forall>j. j < 0 * 3 \<longrightarrow> j < length (replicate (3 * N) (Fin 0))
            \<longrightarrow> replicate (3 * N) (Fin 0) ! j = zero_radius_slot j" by simp
    have "j div 3 < N" using that by (simp add: less_mult_imp_div_less mult.commute)
    then show "real (j div 3) < real N \<or> j < 0 * 3" by simp
    show "j < length (replicate (3 * N) (Fin 0))" using that by simp
  qed
  have d: "fst (for_points (dust_point rnd params) (of_int ?c) 0 (replicate (3 * nat ?c) (Fin 0)) j') ! j
             = zero_radius_slot j" if "j < 3 * nat ?c" for j j'
  proof (rule for_points_zero_radius)
    show "fst (dust_point rnd params k) = (Fin 0, NaN, Fin 0)" for k
      by (rule dust_point_zero_radius [OF assms(1,2,3)])
    show "\<forall>j. j < 0 * 3 \<longrightarrow> j < length (replicate (3 * nat ?c) (Fin 0))
            \<longrightarrow> replicate (3 * nat ?c) (Fin 0) ! j = zero_radius_slot j" by simp
    have "j div 3 < nat ?c" using that by (simp add: less_mult_imp_div_less mult.commute)
    then have "int (j div 3) < ?c" by linarith
    then have "real (j div 3) < real_of_int ?c"
      by (metis of_int_less_iff of_int_of_nat_eq)
    then show "real (j div 3) < real_of_int ?c \<or> j < 0 * 3" by simp
    show "j < length (replicate (3 * nat ?c) (Fin 0))" using that by simp
  qed
  have e: "(0::real) \<le> real N" by simp
  show ?thesis
    unfolding createSingleGalaxyGroup_eq [OF assms(1,4) e] Let_def n
    using s d by (cases "0 < ?c") simp_all
qed

lemma finite_params_sample: "finite_params sample_params" "finite_params zero_radius_params"
  by (simp_all add: finite_params_def sample_params_def zero_radius_params_def)

lemma generated_ranges_finite: "generated_ranges p \<Longrightarrow> finite_params p"
  unfolding generated_ranges_def finite_params_def in_range_def by fastforce

lemma generated_ranges_thickness:
  assumes "generated_ranges p" and "radius p = Fin R" and "0 \<le> R"
  shows "\<exists>T. thickness p = Fin T \<and> \<bar>T\<bar> \<le> R"
proof -
  obtain t where t: "thickness p = Fin (R * t)" "0.04 \<le> t" "t \<le> 0.1"
    using assms(1,2) by (auto simp: generated_ranges_def)
  have t01: "0 \<le> t" "t \<le> 1" using t(2,3) by simp_all
  have "0 \<le> R * t" using t01(1) assms(3) by simp
  moreover have "R * t \<le> R * 1" using t01(2) assms(3) by (rule mult_left_mono)
  ultimately have "\<bar>R * t\<bar> \<le> R" by simp
  then show ?thesis using t(1) by blast
qed

lemma generated_ranges_sample:
  "generated_ranges sample_params" "generated_ranges zero_radius_params"
proof -
  have t: "thickness sample_params = Fin (1 * 0.07)" "thickness zero_radius_params = Fin (0 * 0.07)"
    by (simp_all add: sample_params_def zero_radius_params_def)
  have a: "numArms sample_params = Fin (of_int 2)" "numArms zero_radius_params = Fin (of_int 2)"
    by (simp_all add: sample_params_def zero_radius_params_def)
  have n: "numStarPoints sample_params = Fin (real 4000)"
    "numStarPoints zero_radius_params = Fin (real 4000)"
    by (simp_all add: sample_params_def zero_radius_params_def)
  have r: "radius sample_params = Fin 1" "radius zero_radius_params = Fin 0"
    by (simp_all add: sample_params_def zero_radius_params_def)
  have o: "in_range 0.15 0.8 (armTightness sample_params)"
    "in_range 0.4 1.5 (armAngularWidth sample_params)"
    "in_range 0.05 0.15 (coreRatio sample_params)"
    "in_range 1.2 2.0 (dustThicknessMultiplier sample_params)"
    "in_range 0.05 0.2 (wobbleAmplitude sample_params)"
    "in_range 1.5 4.0 (wobbleFrequency sample_params)"
    by (simp_all add: sample_params_def in_rangeI)
  have oz: "armTightness zero_radius_params = armTightness sample_params"
    "armAngularWidth zero_radius_params = armAngularWidth sample_params"
    "coreRatio zero_radius_params = coreRatio sample_params"
    "dustThicknessMultiplier zero_radius_params = dustThicknessMultiplier sample_params"
    "wobbleAmplitude zero_radius_params = wobbleAmplitude sample_params"
    "wobbleFrequency zero_radius_params = wobbleFrequency sample_params"
    by (simp_all add: zero_radius_params_def)
  have c: "(0.04::real) \<le> 0.07" "(0.07::real) \<le> 0.1" "(2::int) \<le> 2" "(2::int) \<le> 6"
    "(4000::nat) \<le> 4000" "(4000::nat) \<le> 12001" by simp_all
  show "generated_ranges sample_params"
    unfolding generated_ranges_def using r(1) t(1) a(1) n(1) o c by blast
  show "generated_ranges zero_radius_params"
    unfolding generated_ranges_def oz using r(2) t(2) a(2) n(2) o c by blast
qed

text \<open>
  Claim C7 says that with a radius of 0 every coordinate of the position buffers is finite
  and equal to 0. In the source the height of a point is computed from
  \<^verbatim>\<open>radialDistance / (radius * 1.25)\<close>, which is \<open>0/0\<close> when the radius is 0: the second slot
  of the star buffer, the \<open>y\<close> of the first star, holds NaN.
\<close>

theorem zero_radius_counterexample:
  "case createSingleGalaxyGroup (\<lambda>_. 1 / 2) zero_radius_params 0 0 of
     Inl e \<Rightarrow> False
   | Inr ((star, dust, starOp, dustOp), k', oid') \<Rightarrow> positionAttribute star ! 1 = NaN"
proof -
  have r: "radius zero_radius_params = Fin 0"
    and n: "numStarPoints zero_radius_params = Fin (real 4000)"
    by (simp_all add: zero_radius_params_def sample_params_def)
  obtain star dust starOp dustOp k' oid' where
    b: "createSingleGalaxyGroup (\<lambda>_. 1 / 2) zero_radius_params 0 0
          = Inr ((star, dust, starOp, dustOp), k', oid')"
    "length (positionAttribute star) = 3 * 4000"
    "\<forall>j<length (positionAttribute star). positionAttribute star ! j = zero_radius_slot j"
    using createSingleGalaxyGroup_zero_radius [OF unit_draws_half finite_params_sample(2) r n, of 0 0]
    by blast
  have "positionAttribute star ! 1 = zero_radius_slot 1" using b(2,3) by simp
  then show ?thesis by (simp add: b(1) zero_radius_slot_def)
qed

text \<open>
  Claim C7, amended. For parameters within their generated ranges and a radius from 0 to
  \<open>2\<^sup>1\<^sup>0\<^sup>0\<close>: when the radius is 0 the build returns, every \<open>x\<close> and \<open>z\<close> coordinate of the
  star and dust buffers is 0 and every \<open>y\<close> coordinate is NaN; when the radius is positive
  the build returns and no coordinate of the star and dust buffers is NaN or infinite. (The
  bound on the radius keeps the coordinates inside the single-precision range of the
  buffers, which a radius such as \<open>10\<^sup>4\<^sup>0\<close> leaves.)
\<close>

theorem positions_by_radius:
  assumes "unit_draws rnd" and "generated_ranges params" and "radius params = Fin R"
      and "0 \<le> R" and "R \<le> 2 powi 100"
  shows "\<exists>star dust starOp dustOp k' oid'.
           createSingleGalaxyGroup rnd params k oid = Inr ((star, dust, starOp, dustOp), k', oid')
         \<and> (R = 0 \<longrightarrow>
               (\<forall>j<length (positionAttribute star).
                   positionAttribute star ! j = (if j mod 3 = 1 then NaN else Fin 0))
             \<and> (\<forall>d. dust = Some d \<longrightarrow>
                   (\<forall>j<length (positionAttribute d).
                       positionAttribute d ! j = (if j mod 3 = 1 then NaN else Fin 0))))
         \<and> (0 < R \<longrightarrow>
               (\<forall>v\<in>set (positionAttribute star). is_finite v)
             \<and> (\<forall>d. dust = Some d \<longrightarrow> (\<forall>v\<in>set (positionAttribute d). is_finite v)))"
proof -
  have f: "finite_params params" using assms(2) by (rule generated_ranges_finite)
  obtain N :: nat where n: "numStarPoints params = Fin (real N)"
    using assms(2) by (auto simp: generated_ranges_def)
  show ?thesis
  proof (cases "R = 0")
    case True
    then have r: "radius params = Fin 0" using assms(3) by simp
    show ?thesis
      using createSingleGalaxyGroup_zero_radius [OF assms(1) f r n, of k oid] True
      unfolding zero_radius_slot_def by blast
  next
    case False
    then have p: "0 < R" using assms(4) by simp
    have e: "(0::real) \<le> real N" by simp
    obtain T where t: "thickness params = Fin T" "\<bar>T\<bar> \<le> R"
      using generated_ranges_thickness [OF assms(2,3,4)] by blast
    obtain M where m: "dustThicknessMultiplier params = Fin M" "\<bar>M\<bar> \<le> 2"
      using assms(2) by (auto simp: generated_ranges_def in_range_def)
    show ?thesis
      using createSingleGalaxyGroup_finite [OF assms(1) f assms(3) p assms(5) t m n e, of k oid] False
      by blast
  qed
qed

theorem positions_by_radius_witness:
  "unit_draws (\<lambda>_. 1 / 2)
   \<and> generated_ranges zero_radius_params \<and> radius zero_radius_params = Fin 0
   \<and> (0::real) \<le> 0 \<and> (0::real) \<le> 2 powi 100
   \<and> (\<exists>star dust starOp dustOp k' oid'.
         createSingleGalaxyGroup (\<lambda>_. 1 / 2) zero_radius_params 0 0
           = Inr ((star, dust, starOp, dustOp), k', oid')
       \<and> (\<forall>j<length (positionAttribute star).
             positionAttribute star ! j = (if j mod 3 = 1 then NaN else Fin 0)))
   \<and> generated_ranges sample_params \<and> radius sample_params = Fin 1
   \<and> (0::real) < 1 \<and> (1::real) \<le> 2 powi 100
   \<and> (\<exists>star dust starOp dustOp k' oid'.
         createSingleGalaxyGroup (\<lambda>_. 1 / 2) sample_params 0 0
           = Inr ((star, dust, starOp, dustOp), k', oid')
       \<and> (\<forall>v\<in>set (positionAttribute star). is_finite v))"
proof -
  have z: "radius zero_radius_params = Fin 0" "(0::real) \<le> 0" "(0::real) \<le> 2 powi 100"
    by (simp_all add: zero_radius_params_def sample_params_def)
  have s: "radius sample_params = Fin 1" "(0::real) \<le> 1" "(1::real) \<le> 2 powi 100"
    by (simp_all add: sample_params_def)
  have a: "\<exists>star dust starOp dustOp k' oid'.
         createSingleGalaxyGroup (\<lambda>_. 1 / 2) zero_radius_params 0 0
           = Inr ((star, dust, starOp, dustOp), k', oid')
       \<and> (\<forall>j<length (positionAttribute star).
             positionAttribute star ! j = (if j mod 3 = 1 then NaN else Fin 0))"
    using positions_by_radius [OF unit_draws_half generated_ranges_sample(2) z, of 0 0] by blast
  have b: "\<exists>star dust starOp dustOp k' oid'.
         createSingleGalaxyGroup (\<lambda>_. 1 / 2) sample_params 0 0
           = Inr ((star, dust, starOp, dustOp), k', oid')
       \<and> (\<forall>v\<in>set (positionAttribute star). is_finite v)"
    using positions_by_radius [OF unit_draws_half generated_ranges_sample(1) s, of 0 0] by simp blast
  show ?thesis
    using unit_draws_half generated_ranges_sample z s a b by simp
qed

subsection \<open>The regeneration pass\<close>

lemma sphere_norm:
  "sqrt ((r * sin p * cos t)\<^sup>2 + (r * sin p * sin t)\<^sup>2 + (r * cos p)\<^sup>2) = \<bar>r\<bar>"
proof -
  have "(r * sin p * cos t)\<^sup>2 + (r * sin p * sin t)\<^sup>2 + (r * cos p)\<^sup>2
          = r\<^sup>2 * (sin p)\<^sup>2 * ((cos t)\<^sup>2 + (sin t)\<^sup>2) + r\<^sup>2 * (cos p)\<^sup>2"
    by (simp only: power_mult_distrib distrib_left)
  also have "\<dots> = r\<^sup>2 * (sin p)\<^sup>2 + r\<^sup>2 * (cos p)\<^sup>2"
    by simp
  also have "\<dots> = r\<^sup>2 * ((sin p)\<^sup>2 + (cos p)\<^sup>2)"
    by (simp only: distrib_left)
  also have "\<dots> = r\<^sup>2"
    by (simp only: sin_squared_eq) simp
  finally show ?thesis by simp
qed

lemma builder_returns:
  assumes "unit_draws rnd" and "numStarPoints params = Fin n" and "0 \<le> n"
  shows "\<exists>star dust starOp dustOp k' oid'.
           createSingleGalaxyGroup rnd params k oid = Inr ((star, dust, starOp, dustOp), k', oid')
         \<and> oid < oid'
         \<and> objectId star = oid"
  unfolding createSingleGalaxyGroup_eq [OF assms] Let_def
  by (cases "0 < \<lfloor>n / (rnd k * 3 + 3)\<rfloor>") simp_all

lemma generated_point_count:
  assumes "unit_draws rnd"
  shows "\<exists>n. numStarPoints (fst (generateRandomGalaxyParameters rnd (Fin s) k)) = Fin n \<and> 0 \<le> n"
proof -
  obtain n :: int where n: "randInt rnd (Fin 4000) (Fin 12000) (k + 20) = (Fin (of_int n), Suc (k + 20))"
      "4000 \<le> n"
    using randInt_range [OF assms, of 4000 12000 "k + 20"] by auto
  have "(0::real) \<le> of_int n" using n(2) by simp
  then show ?thesis
    unfolding generate_fields(5) n(1) by auto
qed

lemma placement:
  assumes "0 \<le> u1" and "u1 < 1"
  shows "\<exists>x y z.
           Vector3 (Fin r * Math_sin (Math_acos (Fin 2 * Fin u1 - Fin 1)) * Math_cos (Fin u2 * Math_PI * Fin 2))
                   (Fin r * Math_sin (Math_acos (Fin 2 * Fin u1 - Fin 1)) * Math_sin (Fin u2 * Math_PI * Fin 2))
                   (Fin r * Math_cos (Math_acos (Fin 2 * Fin u1 - Fin 1)))
             = Vector3 (Fin x) (Fin y) (Fin z)
         \<and> sqrt (x\<^sup>2 + y\<^sup>2 + z\<^sup>2) = \<bar>r\<bar>"
proof -
  have a: "Math_acos (Fin 2 * Fin u1 - Fin 1) = Fin (arccos (2 * u1 - 1))"
    using assms by simp
  show ?thesis
    unfolding a Math_PI_def
    apply (rule exI [of _ "r * sin (arccos (2 * u1 - 1)) * cos (u2 * pi * 2)"])
    apply (rule exI [of _ "r * sin (arccos (2 * u1 - 1)) * sin (u2 * pi * 2)"])
    apply (rule exI [of _ "r * cos (arccos (2 * u1 - 1))"])
    by (simp add: sphere_norm)
qed

lemma newly_placed_I:
  assumes "position (group inst)
             = Vector3 (Fin r * Math_sin (Math_acos (Fin 2 * Fin u1 - Fin 1)) * Math_cos (Fin u2 * Math_PI * Fin 2))
                       (Fin r * Math_sin (Math_acos (Fin 2 * Fin u1 - Fin 1)) * Math_sin (Fin u2 * Math_PI * Fin 2))
                       (Fin r * Math_cos (Math_acos (Fin 2 * Fin u1 - Fin 1)))"
      and "0 \<le> u1" and "u1 < 1" and "0 \<le> s" and "0.05 * s \<le> r" and "r \<le> 0.9 * s"
      and "scale (group inst) = Vector3 (Fin c) (Fin c) (Fin c)" and "0.4 \<le> c" and "c \<le> 1.2"
      and "disintegrationTriggerTime inst = None" and "\<not> isDisintegrating inst"
      and "disintegrationAnimationStartTime inst = None"
  shows "newly_placed s inst"
proof -
  obtain x y z where p: "position (group inst) = Vector3 (Fin x) (Fin y) (Fin z)"
    "sqrt (x\<^sup>2 + y\<^sup>2 + z\<^sup>2) = \<bar>r\<bar>"
    using placement [OF assms(2,3), of r u2] assms(1) by auto
  have "0 \<le> 0.05 * s" using assms(4) by simp
  then have "0 \<le> r" using assms(5) by linarith
  then have "sqrt (x\<^sup>2 + y\<^sup>2 + z\<^sup>2) = r" using p(2) by simp
  then show ?thesis
    unfolding newly_placed_def using p(1) assms(5-12) by blast
qed

lemma create_galaxy_result:
  assumes "unit_draws rnd" and "0 \<le> s"
  shows "\<exists>w' k' inst oid.
           create_galaxy rnd (Fin s) w k = Inr (w', k')
         \<and> galaxyInstancesRef w' = galaxyInstancesRef w @ [inst]
         \<and> disposed w' = disposed w
         \<and> nextObjectId w' = Suc oid \<and> nextObjectId w < oid
         \<and> sceneRef w' = map_option (\<lambda>cs. remove1 oid cs @ [oid]) (sceneRef w)
         \<and> objectId (group inst) = oid
         \<and> newly_placed s inst"
proof -
  let ?g = "generateRandomGalaxyParameters rnd (Fin s) k"
  obtain n where n: "numStarPoints (fst ?g) = Fin n" "0 \<le> n"
    using generated_point_count [OF assms(1)] by blast
  obtain star dust starOp dustOp k2 oid where
    b: "createSingleGalaxyGroup rnd (fst ?g) (snd ?g) (nextObjectId w)
          = Inr ((star, dust, starOp, dustOp), k2, oid)"
    and o: "nextObjectId w < oid"
    using builder_returns [OF assms(1) n, of "snd ?g" "nextObjectId w"] by blast
  have u: "\<And>j. 0 \<le> rnd j" "\<And>j. rnd j < 1"
    using assms(1) by (simp_all add: unit_draws_def)
  have r: "0.05 * s \<le> rnd k2 * (s * 0.9 - s * 0.05) + s * 0.05"
    "rnd k2 * (s * 0.9 - s * 0.05) + s * 0.05 \<le> 0.9 * s"
    using rand_range [OF u(1) u(2), of "s * 0.05" "s * 0.9" k2] assms(2) by simp_all
  have c: "0.4 \<le> rnd j * (1.2 - 0.4) + 0.4" "rnd j * (1.2 - 0.4) + 0.4 \<le> 1.2" for j
    using rand_range [OF u(1) u(2), of "0.4" "1.2" j] by simp_all
  show ?thesis
    unfolding create_galaxy_def split_def Let_def b sum.case prod.case fst_conv snd_conv
    apply (intro exI conjI)
           apply (rule refl)
          apply (simp add: scene_add_def)
         apply (simp add: scene_add_def)
        apply (simp add: scene_add_def)
       apply (rule o)
      apply (simp add: scene_add_def new_Group_def)
     apply (simp add: new_Group_def)
    apply (rule newly_placed_I [where r = "rnd k2 * (s * 0.9 - s * 0.05) + s * 0.05"
            and ?u1.0 = "rnd (Suc k2)" and ?u2.0 = "rnd (Suc (Suc k2))"
            and c = "rnd (Suc (Suc (Suc (Suc (Suc (Suc k2)))))) * (1.2 - 0.4) + 0.4"])
    using u r c assms(2) by (simp_all add: Math_random_def Math_PI_def)
qed

lemma create_galaxies_result:
  assumes "unit_draws rnd" and "0 \<le> s"
  shows "\<exists>w' k'.
           create_galaxies rnd (Fin s) n w k = Inr (w', k')
         \<and> length (galaxyInstancesRef w') = length (galaxyInstancesRef w) + n
         \<and> disposed w' = disposed w
         \<and> nextObjectId w \<le> nextObjectId w'
         \<and> (\<forall>cs. sceneRef w = Some cs \<longrightarrow>
               (\<exists>cs'. sceneRef w' = Some cs' \<and> (\<forall>x\<in>set cs'. x \<in> set cs \<or> nextObjectId w < x)))
         \<and> (\<forall>inst\<in>set (galaxyInstancesRef w').
               inst \<in> set (galaxyInstancesRef w) \<or> newly_placed s inst)"
proof (induction n arbitrary: w k)
  case 0
  show ?case by simp
next
  case (Suc n)
  obtain w1 k1 inst oid where
    c: "create_galaxy rnd (Fin s) w k = Inr (w1, k1)"
       "galaxyInstancesRef w1 = galaxyInstancesRef w @ [inst]"
       "disposed w1 = disposed w"
       "nextObjectId w1 = Suc oid" "nextObjectId w < oid"
       "sceneRef w1 = map_option (\<lambda>cs. remove1 oid cs @ [oid]) (sceneRef w)"
       "newly_placed s inst"
    using create_galaxy_result [OF assms, of w k] by blast
  obtain w' k' where
    r: "create_galaxies rnd (Fin s) n w1 k1 = Inr (w', k')"
       "length (galaxyInstancesRef w') = length (galaxyInstancesRef w1) + n"
       "disposed w' = disposed w1"
       "nextObjectId w1 \<le> nextObjectId w'"
       "\<forall>cs. sceneRef w1 = Some cs \<longrightarrow>
               (\<exists>cs'. sceneRef w' = Some cs' \<and> (\<forall>x\<in>set cs'. x \<in> set cs \<or> nextObjectId w1 < x))"
       "\<forall>inst\<in>set (galaxyInstancesRef w').
               inst \<in> set (galaxyInstancesRef w1) \<or> newly_placed s inst"
    using Suc.IH [of w1 k1] by blast
  have scene: "\<exists>cs'. sceneRef w' = Some cs' \<and> (\<forall>x\<in>set cs'. x \<in> set cs \<or> nextObjectId w < x)"
    if "sceneRef w = Some cs" for cs
  proof -
    have s1: "sceneRef w1 = Some (remove1 oid cs @ [oid])" using c(6) that by simp
    then obtain cs' where
      s': "sceneRef w' = Some cs'"
          "\<forall>x\<in>set cs'. x \<in> set (remove1 oid cs @ [oid]) \<or> nextObjectId w1 < x"
      using r(5) by blast
    have "x \<in> set cs \<or> nextObjectId w < x" if "x \<in> set cs'" for x
    proof -
      from s'(2) that have "x \<in> set (remove1 oid cs @ [oid]) \<or> nextObjectId w1 < x" by blast
      then show ?thesis
      proof
        assume "x \<in> set (remove1 oid cs @ [oid])"
        then have "x \<in> set cs \<or> x = oid" using set_remove1_subset [of oid cs] by auto
        then show ?thesis using c(5) by auto
      next
        assume "nextObjectId w1 < x"
        then show ?thesis using c(4,5) by simp
      qed
    qed
    then show ?thesis using s'(1) by blast
  qed
  have insts: "i \<in> set (galaxyInstancesRef w) \<or> newly_placed s i"
    if "i \<in> set (galaxyInstancesRef w')" for i
    using r(6) that c(2,7) by auto
  show ?case
    apply (rule exI [of _ w'], rule exI [of _ k'])
    using c(1) r(1,2,3,4) c(2,3,4,5) scene insts by simp
qed

lemma release_instance_fields:
  "galaxyInstancesRef (release_instance i w) = galaxyInstancesRef w"
  "nextObjectId (release_instance i w) = nextObjectId w"
  "disposed (release_instance i w)
     = disposed w @ objectId (starSystem i) # (case dustSystem i of None \<Rightarrow> [] | Some d \<Rightarrow> [objectId d])"
  "sceneRef (release_instance i w)
     = map_option (\<lambda>cs. remove1 (objectId (group i))
         (case dustSystem i of
            None \<Rightarrow> remove1 (objectId (starSystem i)) cs
          | Some d \<Rightarrow> remove1 (objectId d) (remove1 (objectId (starSystem i)) cs))) (sceneRef w)"
  by (cases "dustSystem i";
      simp add: release_instance_def disposePoints_def scene_remove_def Let_def
                option.map_comp comp_def)+

lemma fold_release:
  assumes "sceneRef w = Some cs" and "distinct cs"
  shows "(\<exists>cs'. sceneRef (fold release_instance insts w) = Some cs' \<and> distinct cs'
            \<and> set cs' \<subseteq> set cs \<and> (\<forall>i\<in>set insts. objectId (group i) \<notin> set cs'))
       \<and> set (disposed w) \<subseteq> set (disposed (fold release_instance insts w))
       \<and> (\<forall>i\<in>set insts. objectId (starSystem i) \<in> set (disposed (fold release_instance insts w))
            \<and> (\<forall>d. dustSystem i = Some d
                  \<longrightarrow> objectId d \<in> set (disposed (fold release_instance insts w))))
       \<and> nextObjectId (fold release_instance insts w) = nextObjectId w"
  using assms
proof (induction insts arbitrary: w cs)
  case Nil
  then show ?case by simp
next
  case (Cons i rest)
  let ?w1 = "release_instance i w"
  let ?cs1 = "remove1 (objectId (group i))
         (case dustSystem i of
            None \<Rightarrow> remove1 (objectId (starSystem i)) cs
          | Some d \<Rightarrow> remove1 (objectId d) (remove1 (objectId (starSystem i)) cs))"
  let ?w' = "fold release_instance rest ?w1"
  have s1: "sceneRef ?w1 = Some ?cs1"
    using Cons.prems(1) by (auto simp add: release_instance_fields)
  have d1: "distinct ?cs1" using Cons.prems(2) by (simp split: option.splits)
  have sub: "set ?cs1 \<subseteq> set cs"
    using Cons.prems(2) by (auto split: option.splits)
  have gone: "objectId (group i) \<notin> set ?cs1"
    using Cons.prems(2) by (simp split: option.splits)
  have here: "objectId (starSystem i) \<in> set (disposed ?w1)"
    "\<forall>d. dustSystem i = Some d \<longrightarrow> objectId d \<in> set (disposed ?w1)"
    "set (disposed w) \<subseteq> set (disposed ?w1)"
    by (auto simp: release_instance_fields)
  obtain cs' where
    r: "sceneRef ?w' = Some cs'" "distinct cs'"
       "set cs' \<subseteq> set ?cs1" "\<forall>j\<in>set rest. objectId (group j) \<notin> set cs'"
    and dsub: "set (disposed ?w1) \<subseteq> set (disposed ?w')"
    and dall: "\<forall>j\<in>set rest. objectId (starSystem j) \<in> set (disposed ?w')
            \<and> (\<forall>d. dustSystem j = Some d \<longrightarrow> objectId d \<in> set (disposed ?w'))"
    and nid: "nextObjectId ?w' = nextObjectId ?w1"
    using Cons.IH [OF s1 d1] by blast
  have f: "fold release_instance (i # rest) w = ?w'" by simp
  have a: "\<exists>cs'. sceneRef ?w' = Some cs' \<and> distinct cs'
            \<and> set cs' \<subseteq> set cs \<and> (\<forall>j\<in>set (i # rest). objectId (group j) \<notin> set cs')"
    apply (rule exI [of _ cs'])
    using r sub gone by auto
  have b: "set (disposed w) \<subseteq> set (disposed ?w')" using here(3) dsub by blast
  have c: "\<forall>j\<in>set (i # rest). objectId (starSystem j) \<in> set (disposed ?w')
            \<and> (\<forall>d. dustSystem j = Some d \<longrightarrow> objectId d \<in> set (disposed ?w'))"
    using here(1,2) dsub dall by auto
  have d: "nextObjectId ?w' = nextObjectId w" using nid by (simp add: release_instance_fields)
  show ?case unfolding f using a b c d by blast
qed

text \<open>
  Claim C9. In a state with a scene, whose children are distinct and whose instances have
  group identifiers below the library's counter, a regeneration pass with the galaxy count
  \<open>n\<close> and the spread \<open>s \<ge> 0\<close> returns; afterwards the collection holds exactly \<open>n\<close>
  instances, the star and dust clouds of every prior instance have been disposed and its
  group is no longer a child of the scene, and every instance of the collection is newly
  placed: the position of its group has the Euclidean norm \<open>r\<close> with
  \<open>0.05 s \<le> r \<le> 0.9 s\<close>, its scale is uniform and between 0.4 and 1.2, and it has no
  trigger time and is not disintegrating.
\<close>

theorem regeneration_pass:
  assumes "unit_draws rnd" and "0 \<le> s"
      and "sceneRef w = Some sc" and "distinct sc"
      and "\<forall>old\<in>set (galaxyInstancesRef w). objectId (group old) < nextObjectId w"
  shows "\<exists>w' k' sc'.
           regenerate rnd (Fin s) n w k = Inr (w', k')
         \<and> length (galaxyInstancesRef w') = n
         \<and> sceneRef w' = Some sc'
         \<and> (\<forall>old\<in>set (galaxyInstancesRef w).
               objectId (starSystem old) \<in> set (disposed w')
             \<and> (\<forall>d. dustSystem old = Some d \<longrightarrow> objectId d \<in> set (disposed w'))
             \<and> objectId (group old) \<notin> set sc')
         \<and> (\<forall>inst\<in>set (galaxyInstancesRef w'). newly_placed s inst)"
proof -
  let ?w1 = "fold release_instance (galaxyInstancesRef w) w"
  let ?w2 = "?w1\<lparr> galaxyInstancesRef := [] \<rparr>"
  obtain cs1 where
    f: "sceneRef ?w1 = Some cs1" "set cs1 \<subseteq> set sc"
       "\<forall>i\<in>set (galaxyInstancesRef w). objectId (group i) \<notin> set cs1"
    and fd: "\<forall>i\<in>set (galaxyInstancesRef w). objectId (starSystem i) \<in> set (disposed ?w1)
            \<and> (\<forall>d. dustSystem i = Some d \<longrightarrow> objectId d \<in> set (disposed ?w1))"
    and fn: "nextObjectId ?w1 = nextObjectId w"
    using fold_release [OF assms(3,4), of "galaxyInstancesRef w"] by blast
  obtain w' k' where
    c: "create_galaxies rnd (Fin s) n ?w2 k = Inr (w', k')"
       "length (galaxyInstancesRef w') = length (galaxyInstancesRef ?w2) + n"
       "disposed w' = disposed ?w2"
       "\<forall>cs. sceneRef ?w2 = Some cs \<longrightarrow>
               (\<exists>cs'. sceneRef w' = Some cs' \<and> (\<forall>x\<in>set cs'. x \<in> set cs \<or> nextObjectId ?w2 < x))"
       "\<forall>inst\<in>set (galaxyInstancesRef w').
               inst \<in> set (galaxyInstancesRef ?w2) \<or> newly_placed s inst"
    using create_galaxies_result [OF assms(1,2), of n ?w2 k] by blast
  have "sceneRef ?w2 = Some cs1" using f(1) by simp
  then obtain sc' where
    s: "sceneRef w' = Some sc'" "\<forall>x\<in>set sc'. x \<in> set cs1 \<or> nextObjectId ?w2 < x"
    using c(4) by blast
  have gone: "objectId (group old) \<notin> set sc'" if "old \<in> set (galaxyInstancesRef w)" for old
  proof
    assume "objectId (group old) \<in> set sc'"
    then have "objectId (group old) \<in> set cs1 \<or> nextObjectId ?w2 < objectId (group old)"
      using s(2) by blast
    moreover have "objectId (group old) \<notin> set cs1" using f(3) that by blast
    moreover have "objectId (group old) < nextObjectId ?w2" using assms(5) that fn by simp
    ultimately show False by simp
  qed
  have r: "regenerate rnd (Fin s) n w k = Inr (w', k')"
    using c(1) by (simp add: regenerate_def assms(3) Let_def)
  show ?thesis
    apply (rule exI [of _ w'], rule exI [of _ k'], rule exI [of _ sc'])
    using r c(2,3,5) s(1) fd gone by simp
qed

theorem regeneration_pass_witness:
  "unit_draws (\<lambda>_. 1 / 2) \<and> (0::real) \<le> 150
   \<and> sceneRef sample_world = Some [2] \<and> distinct [2::nat]
   \<and> galaxyInstancesRef sample_world = [sample_instance]
   \<and> objectId (group sample_instance) < nextObjectId sample_world
   \<and> (\<exists>w' k' sc'.
         regenerate (\<lambda>_. 1 / 2) (Fin 150) 40 sample_world 0 = Inr (w', k')
       \<and> length (galaxyInstancesRef w') = 40
       \<and> sceneRef w' = Some sc'
       \<and> objectId (starSystem sample_instance) \<in> set (disposed w')
       \<and> objectId (group sample_instance) \<notin> set sc'
       \<and> (\<forall>inst\<in>set (galaxyInstancesRef w'). newly_placed 150 inst))"
proof -
  have h: "(0::real) \<le> 150" "sceneRef sample_world = Some [2]" "distinct [2::nat]"
    by (simp_all add: sample_world_def)
  have i: "galaxyInstancesRef sample_world = [sample_instance]"
    "objectId (group sample_instance) < nextObjectId sample_world"
    by (simp_all add: sample_world_def sample_instance_def new_Group_def)
  then have a: "\<forall>old\<in>set (galaxyInstancesRef sample_world).
      objectId (group old) < nextObjectId sample_world" by simp
  show ?thesis
    using unit_draws_half h i regeneration_pass [OF unit_draws_half h a, of 40 0]
    by (simp add: i(1)) blast
qed

subsection \<open>The generated parameters lie in the generated ranges\<close>

text \<open>
  The parameters of the generator satisfy the hypothesis made on the parameters of the
  builder above, whatever the universe radius.
\<close>

lemma generator_within_ranges:
  assumes "unit_draws rnd"
  shows "generated_ranges (fst (generateRandomGalaxyParameters rnd (Fin R) k))"
proof -
  let ?p = "fst (generateRandomGalaxyParameters rnd (Fin R) k)"
  have t: "0.04 \<le> rnd (k + 3) * (0.1 - 0.04) + 0.04" "rnd (k + 3) * (0.1 - 0.04) + 0.04 \<le> 0.1"
    using unit_draws_range [OF assms, of "0.04" "0.1" "k + 3"] by simp_all
  have r: "radius ?p = Fin (rnd k * (R * 0.08 - R * 0.02) + R * 0.02)"
    by (rule generate_fields(1))
  have th: "thickness ?p = Fin ((rnd k * (R * 0.08 - R * 0.02) + R * 0.02) * (rnd (k + 3) * (0.1 - 0.04) + 0.04))"
    by (simp add: generateRandomGalaxyParameters_def Math_random_def Let_def split_def eval_nat_numeral)
  have rt: "\<exists>R' t. radius ?p = Fin R' \<and> thickness ?p = Fin (R' * t) \<and> 0.04 \<le> t \<and> t \<le> 0.1"
    using r th t by blast
  have arms: "\<exists>n::int. numArms ?p = Fin (of_int n) \<and> 2 \<le> n \<and> n \<le> 6"
    using numArms_draw [OF assms, of "k + 4"] unfolding generate_fields(2) by blast
  obtain n :: int where n: "randInt rnd (Fin 4000) (Fin 12000) (k + 20) = (Fin (of_int n), Suc (k + 20))"
      "4000 \<le> n" "n \<le> 12001"
    using randInt_range [OF assms, of 4000 12000 "k + 20"] by auto
  have e: "real_of_int n = real (nat n)" using n(2) by simp
  have "numStarPoints ?p = Fin (real_of_int n)"
    unfolding generate_fields(5) n(1) by simp
  then have "numStarPoints ?p = Fin (real (nat n))"
    by (simp only: e)
  moreover have "4000 \<le> nat n" "nat n \<le> 12001" using n(2,3) by simp_all
  ultimately have points: "\<exists>N::nat. numStarPoints ?p = Fin (real N) \<and> 4000 \<le> N \<and> N \<le> 12001"
    by blast
  have f: "armTightness ?p = Fin (rnd (k + 5) * (0.8 - 0.15) + 0.15)"
    "armAngularWidth ?p = Fin (rnd (k + 6) * (1.5 - 0.4) + 0.4)"
    "coreRatio ?p = Fin (rnd (k + 7) * (0.15 - 0.05) + 0.05)"
    "dustThicknessMultiplier ?p = Fin (rnd (k + 30) * (2.0 - 1.2) + 1.2)"
    "wobbleAmplitude ?p = Fin (rnd (k + 31) * (0.2 - 0.05) + 0.05)"
    "wobbleFrequency ?p = Fin (rnd (k + 32) * (4.0 - 1.5) + 1.5)"
    by (simp_all add: generateRandomGalaxyParameters_def Math_random_def Let_def split_def eval_nat_numeral)
  have o1: "in_range 0.15 0.8 (armTightness ?p)"
    unfolding f by (rule in_rangeI; rule unit_draws_range [OF assms]; simp)
  have o2: "in_range 0.4 1.5 (armAngularWidth ?p)"
    unfolding f by (rule in_rangeI; rule unit_draws_range [OF assms]; simp)
  have o3: "in_range 0.05 0.15 (coreRatio ?p)"
    unfolding f by (rule in_rangeI; rule unit_draws_range [OF assms]; simp)
  have o4: "in_range 1.2 2.0 (dustThicknessMultiplier ?p)"
    unfolding f by (rule in_rangeI; rule unit_draws_range [OF assms]; simp)
  have o5: "in_range 0.05 0.2 (wobbleAmplitude ?p)"
    unfolding f by (rule in_rangeI; rule unit_draws_range [OF assms]; simp)
  have o6: "in_range 1.5 4.0 (wobbleFrequency ?p)"
    unfolding f by (rule in_rangeI; rule unit_draws_range [OF assms]; simp)
  show ?thesis
    unfolding generated_ranges_def
    by (intro conjI rt arms points o1 o2 o3 o4 o5 o6)
qed

end
